(* ===== verification/Prelude.thy ===== *)
theory Prelude
  imports Main "HOL-Library.Word" "HOL-Library.Sublist"
begin

text \<open>
  Shared vocabulary of the development: the Go types the modelled packages use (strings as byte
  sequences, 64-bit integers, instants, durations, UUIDs), the generic list lemmas the components
  share, and the named collections their proofs draw on.

  A Go string is its sequence of bytes; HOL's \<^typ>\<open>char\<close> is exactly a byte, so a Go string is a
  HOL \<^typ>\<open>string\<close> and \<open>length\<close> is Go's \<open>len\<close>.  An \<open>int64\<close> (and a \<open>time.Duration\<close>, which is one,
  counted in nanoseconds) is a \<^typ>\<open>64 word\<close> read by \<^const>\<open>sint\<close>.  An instant (\<open>time.Time\<close>) is the
  number of nanoseconds since Go's zero time, 1 January of year 1 UTC, as an \<^typ>\<open>int\<close>.  Go's
  \<open>int\<close> is 64 bits wide; counters whose values come from 32-bit database columns or from slice lengths
  are plain \<^typ>\<open>int\<close>s.
\<close>

named_theorems go_time
named_theorems outbox_defs
named_theorems sql_rules

type_synonym int64 = "64 word"
type_synonym duration = int64
type_synonym gotime = int
type_synonym uuid = "128 word"

abbreviation nil_uuid :: uuid where
  "nil_uuid \<equiv> 0"

section \<open>64-bit integers and durations\<close>

definition MaxInt64 :: int where
  "MaxInt64 = 9223372036854775807"

definition MinInt64 :: int where
  "MinInt64 = - 9223372036854775808"

definition Second :: duration where
  "Second = 1000000000"

definition Minute :: duration where
  "Minute = 60000000000"

lemma sint_Second [simp, go_time]: "sint Second = 1000000000"
  by (simp add: Second_def)

lemma sint_Minute [simp, go_time]: "sint Minute = 60000000000"
  by (simp add: Minute_def)

lemma sint_five: "sint (5 * Second :: duration) = 5000000000"
  by (simp add: Second_def)

lemma int64_range: "MinInt64 \<le> sint (x :: int64) \<and> sint x \<le> MaxInt64"
  using sint_range_size [of x] by (simp add: MaxInt64_def MinInt64_def word_size)

lemma sint_of_int64:
  "MinInt64 \<le> i \<Longrightarrow> i \<le> MaxInt64 \<Longrightarrow> sint (word_of_int i :: int64) = i"
  by (simp add: sint_sbintrunc' MaxInt64_def MinInt64_def signed_take_bit_int_eq_self)

section \<open>Instants\<close>

text \<open>\<open>time.Time.IsZero\<close>, \<open>time.Time.Add\<close>, and \<open>time.Time.Sub\<close>, whose result saturates at the ends
  of the duration range.\<close>

definition IsZero :: "gotime \<Rightarrow> bool" where
  "IsZero t \<longleftrightarrow> t = 0"

definition time_add :: "gotime \<Rightarrow> duration \<Rightarrow> gotime" where
  "time_add t d = t + sint d"

definition saturate64 :: "int \<Rightarrow> int64" where
  "saturate64 i = word_of_int (max MinInt64 (min MaxInt64 i))"

definition time_sub :: "gotime \<Rightarrow> gotime \<Rightarrow> duration" where
  "time_sub t u = saturate64 (t - u)"

lemma sint_saturate64: "sint (saturate64 i) = max MinInt64 (min MaxInt64 i)"
  by (simp add: saturate64_def sint_of_int64 MaxInt64_def MinInt64_def)

lemma sint_time_sub [go_time]: "sint (time_sub t u) = max MinInt64 (min MaxInt64 (t - u))"
  by (simp add: time_sub_def sint_saturate64)

lemma time_sub_nonpos [go_time]: "sint (time_sub t u) \<le> 0 \<longleftrightarrow> t \<le> u"
  by (simp add: sint_time_sub MaxInt64_def MinInt64_def max_def min_def)

section \<open>Lists and options\<close>

lemma map_idI_ball: "(\<And>x. x \<in> set xs \<Longrightarrow> f x = x) \<Longrightarrow> map f xs = xs"
  by (rule map_idI)

lemma find_None_ball: "find P xs = None \<longleftrightarrow> (\<forall>x\<in>set xs. \<not> P x)"
  by (auto simp: find_None_iff)

lemma distinct_map_same_key:
  "\<lbrakk>distinct (map f xs); x \<in> set xs; y \<in> set xs; f x = f y\<rbrakk> \<Longrightarrow> x = y"
  by (auto simp: distinct_map dest: inj_onD)

lemma map_update_key:
  assumes "\<And>x. f (g x) = f x"
  shows "map f (map (\<lambda>x. if P x then g x else x) xs) = map f xs"
  using assms by (induction xs) auto

lemma takeWhile_dropWhile_split:
  assumes "dropWhile P xs = y # ys"
  shows "xs = takeWhile P xs @ y # ys" and "\<not> P y"
proof -
  show "xs = takeWhile P xs @ y # ys"
    using takeWhile_dropWhile_id [of P xs] assms by simp
  show "\<not> P y"
    using assms hd_dropWhile [of P xs] by simp
qed

end
