(* ===== verification/Go_Errors.thy ===== *)
theory Go_Errors
  imports Prelude
begin

text \<open>
  Go error values.  An error is a tree: \<open>errors.New\<close> makes a leaf with an identity (a sentinel),
  \<open>fmt.Errorf\<close> with \<open>%w\<close> wraps one error, \<open>errors.Join\<close> and an \<open>Errorf\<close> with several \<open>%w\<close> wrap a
  list, and \<open>outbox.NonRetryableError\<close> is the one error type of the repository with methods of its
  own.  Errors made by code outside the repository (drivers, publishers, callers) are \<open>Foreign\<close>: a
  message, the sentinels its \<open>Is\<close> method accepts and the errors its \<open>Unwrap\<close> method returns.  A nil
  error is \<^const>\<open>None\<close> of an option type.  \<open>ErrQueueFull\<close> belongs to the worker pool library, which is
  not in the repository; it carries the message that library gives it.
\<close>

datatype sentinel =
    ErrNonRetryable
  | ErrInvalidTableName
  | ErrLeaseExpired
  | ErrMissingStore
  | ErrMissingPublisher
  | ErrInvalidLeaseDuration
  | ContextCanceled
  | ContextDeadlineExceeded
  | ErrShortWrite
  | ErrInvalidDelim
  | ErrNoSenderRegistered
  | ErrEmptyRecipients
  | ErrBrokerClosed
  | ErrInvalidSignature
  | ErrEmptySignature
  | ErrMissingTimestamp
  | ErrInvalidTimestamp
  | ErrTimestampExpired
  | ErrBrevoAPIKeyMissing
  | ErrBrevoSenderMissing
  | ErrWhatsAppTokenMissing
  | ErrWhatsAppPhoneIDMissing
  | ErrSMSConfigMissing
  | ErrMissingDB
  | ErrAuditInvalidTableName
  | ErrQueueFull string
  | ErrNoRendererAvailable

datatype goerr =
    Sentinel sentinel
  | Errorf string
  | Wrapf string goerr string
  | Joined "goerr list"
  | NonRetryableError "goerr option"
  | Foreign string "sentinel list" "goerr list"

fun sentinel_msg :: "sentinel \<Rightarrow> string" where
  "sentinel_msg ErrNonRetryable = ''outbox: non-retryable error''"
| "sentinel_msg ErrInvalidTableName = ''outbox: invalid table name''"
| "sentinel_msg ErrLeaseExpired = ''outbox: lease expired or acquired by another worker''"
| "sentinel_msg ErrMissingStore = ''outbox store is required''"
| "sentinel_msg ErrMissingPublisher = ''outbox publisher is required''"
| "sentinel_msg ErrInvalidLeaseDuration =
     ''outbox lease duration must be >= 5s and strictly greater than publish timeout''"
| "sentinel_msg ContextCanceled = ''context canceled''"
| "sentinel_msg ContextDeadlineExceeded = ''context deadline exceeded''"
| "sentinel_msg ErrShortWrite = ''short write''"
| "sentinel_msg ErrInvalidDelim = ''csv: invalid field or comment delimiter''"
| "sentinel_msg ErrNoSenderRegistered = ''no sender registered for channel''"
| "sentinel_msg ErrEmptyRecipients = ''message recipients cannot be empty''"
| "sentinel_msg ErrBrokerClosed = ''notification broker is closed''"
| "sentinel_msg ErrInvalidSignature = ''invalid webhook signature''"
| "sentinel_msg ErrEmptySignature = ''missing or empty webhook signature''"
| "sentinel_msg ErrMissingTimestamp = ''missing webhook timestamp''"
| "sentinel_msg ErrInvalidTimestamp = ''invalid webhook timestamp format''"
| "sentinel_msg ErrTimestampExpired = ''webhook timestamp expired or outside tolerance window''"
| "sentinel_msg ErrBrevoAPIKeyMissing = ''brevo api key is required''"
| "sentinel_msg ErrBrevoSenderMissing = ''brevo sender email is required''"
| "sentinel_msg ErrWhatsAppTokenMissing = ''whatsapp access token is required''"
| "sentinel_msg ErrWhatsAppPhoneIDMissing = ''whatsapp phone number id is required''"
| "sentinel_msg ErrSMSConfigMissing = ''sms sender requires endpoint and api key''"
| "sentinel_msg ErrMissingDB = ''database operator is required for audit recording''"
| "sentinel_msg ErrAuditInvalidTableName = ''invalid table name''"
| "sentinel_msg (ErrQueueFull m) = m"
| "sentinel_msg ErrNoRendererAvailable =
     ''pdf: no renderer available: wkhtmltopdf not found in PATH and no custom Renderer configured''"

text \<open>\<open>err.Error()\<close>; the messages of joined errors are separated by newlines.\<close>

fun join_lines :: "string list \<Rightarrow> string" where
  "join_lines [] = []"
| "join_lines [m] = m"
| "join_lines (m # ms) = m @ CHR 10 # join_lines ms"

fun err_msg :: "goerr \<Rightarrow> string" where
  "err_msg (Sentinel s) = sentinel_msg s"
| "err_msg (Errorf m) = m"
| "err_msg (Wrapf pre e post) = pre @ err_msg e @ post"
| "err_msg (Joined es) = join_lines (map err_msg es)"
| "err_msg (NonRetryableError None) = ''non-retryable error''"
| "err_msg (NonRetryableError (Some e)) = err_msg e"
| "err_msg (Foreign m _ _) = m"

text \<open>\<open>errors.Is(err, target)\<close> for a sentinel target: a pre-order walk of the tree that accepts a node
  that is the target itself or whose \<open>Is\<close> method accepts it.\<close>

fun errors_is :: "goerr \<Rightarrow> sentinel \<Rightarrow> bool" where
  "errors_is (Sentinel s) t \<longleftrightarrow> s = t"
| "errors_is (Errorf _) t \<longleftrightarrow> False"
| "errors_is (Wrapf _ e _) t \<longleftrightarrow> errors_is e t"
| "errors_is (Joined es) t \<longleftrightarrow> (\<exists>e\<in>set es. errors_is e t)"
| "errors_is (NonRetryableError None) t \<longleftrightarrow> t = ErrNonRetryable"
| "errors_is (NonRetryableError (Some e)) t \<longleftrightarrow> t = ErrNonRetryable \<or> errors_is e t"
| "errors_is (Foreign _ accepted es) t \<longleftrightarrow> t \<in> set accepted \<or> (\<exists>e\<in>set es. errors_is e t)"

text \<open>\<open>errors.As(err, &nr)\<close> for \<open>nr :: *NonRetryableError\<close>: is there such a node in the tree?\<close>

fun errors_as_nonretryable :: "goerr \<Rightarrow> bool" where
  "errors_as_nonretryable (Sentinel _) \<longleftrightarrow> False"
| "errors_as_nonretryable (Errorf _) \<longleftrightarrow> False"
| "errors_as_nonretryable (Wrapf _ e _) \<longleftrightarrow> errors_as_nonretryable e"
| "errors_as_nonretryable (Joined es) \<longleftrightarrow> (\<exists>e\<in>set es. errors_as_nonretryable e)"
| "errors_as_nonretryable (NonRetryableError _) \<longleftrightarrow> True"
| "errors_as_nonretryable (Foreign _ _ es) \<longleftrightarrow> (\<exists>e\<in>set es. errors_as_nonretryable e)"

text \<open>\<open>errors.Join\<close> of two possibly nil errors: nils are dropped, and all nil gives nil.\<close>

definition errors_join :: "goerr option list \<Rightarrow> goerr option" where
  "errors_join es =
     (let ne = List.map_filter id es in if ne = [] then None else Some (Joined ne))"

lemma errors_as_nonretryable_is: "errors_as_nonretryable e \<Longrightarrow> errors_is e ErrNonRetryable"
proof (induction e rule: errors_as_nonretryable.induct)
  case (5 o1)
  then show ?case by (cases o1) auto
qed auto

lemma errors_join_None [simp]: "errors_join es = None \<longleftrightarrow> (\<forall>e\<in>set es. e = None)"
  by (auto simp: errors_join_def Let_def List.map_filter_def filter_empty_conv)

lemma errors_join_is:
  "errors_join es = Some j \<Longrightarrow> errors_is j t \<longleftrightarrow> (\<exists>e. Some e \<in> set es \<and> errors_is e t)"
  by (force simp: errors_join_def Let_def List.map_filter_def split: if_splits)

section \<open>Contexts\<close>

text \<open>A context at the moment the code asks it: its error, nil while it is live.\<close>

record context_state =
  ctx_err :: "goerr option"

definition background :: context_state where
  "background = \<lparr>ctx_err = None\<rparr>"

end
