(* ===== verification/Outbox_Event.thy ===== *)
theory Outbox_Event
  imports Go_Errors
begin

text \<open>
  \<^verbatim>\<open>outbox/event.go\<close>: the status strings, the event record, its construction and the two
  operations on it.  \<open>json.Marshal\<close> and \<open>json.Unmarshal\<close> act on the caller's own types (whose
  \<open>MarshalJSON\<close> methods are not in the repository) and are parameters, as are the fresh UUID and the
  clock reading.
\<close>

section \<open>Status\<close>

type_synonym Status = string

definition StatusPending :: Status where "StatusPending = ''PENDING''"

definition StatusProcessing :: Status where "StatusProcessing = ''PROCESSING''"

definition StatusPublished :: Status where "StatusPublished = ''PUBLISHED''"

definition StatusDeadLetter :: Status where "StatusDeadLetter = ''DEAD_LETTER''"

definition StatusFailed :: Status where "StatusFailed = ''FAILED''"

lemmas status_defs =
  StatusPending_def StatusProcessing_def StatusPublished_def StatusDeadLetter_def StatusFailed_def

lemma status_distinct [simp]:
  "StatusPending \<noteq> StatusProcessing" "StatusProcessing \<noteq> StatusPending"
  "StatusPending \<noteq> StatusPublished" "StatusPublished \<noteq> StatusPending"
  "StatusPending \<noteq> StatusDeadLetter" "StatusDeadLetter \<noteq> StatusPending"
  "StatusPending \<noteq> StatusFailed" "StatusFailed \<noteq> StatusPending"
  "StatusProcessing \<noteq> StatusPublished" "StatusPublished \<noteq> StatusProcessing"
  "StatusProcessing \<noteq> StatusDeadLetter" "StatusDeadLetter \<noteq> StatusProcessing"
  "StatusProcessing \<noteq> StatusFailed" "StatusFailed \<noteq> StatusProcessing"
  "StatusPublished \<noteq> StatusDeadLetter" "StatusDeadLetter \<noteq> StatusPublished"
  "StatusPublished \<noteq> StatusFailed" "StatusFailed \<noteq> StatusPublished"
  "StatusDeadLetter \<noteq> StatusFailed" "StatusFailed \<noteq> StatusDeadLetter"
  by (simp_all add: status_defs)

definition IsTerminal :: "Status \<Rightarrow> bool" where
  "IsTerminal s \<longleftrightarrow> s = StatusPublished \<or> s = StatusDeadLetter \<or> s = StatusFailed"

lemma IsTerminal_simps [simp]:
  "\<not> IsTerminal StatusPending" "\<not> IsTerminal StatusProcessing"
  "IsTerminal StatusPublished" "IsTerminal StatusDeadLetter" "IsTerminal StatusFailed"
  by (simp_all add: IsTerminal_def)

section \<open>Event\<close>

record OutboxEvent =
  ID :: uuid
  AggregateType :: string
  AggregateID :: string
  EventType :: string
  Payload :: string
  EvStatus :: Status
  RetryCount :: int
  MaxRetries :: int
  LastError :: string
  ScheduledAt :: gotime
  NextRetryAt :: gotime
  LockedUntil :: "gotime option"
  LeaseToken :: "uuid option"
  PublishedAt :: "gotime option"
  CreatedAt :: gotime

text \<open>
  \<open>NewEvent\<close>.  The variadic \<open>maxRetries\<close> is the list of the arguments given; only a first,
  non-negative one overrides the default of 5.
\<close>

definition NewEvent ::
  "('p \<Rightarrow> goerr + string) \<Rightarrow> uuid \<Rightarrow> gotime \<Rightarrow> string \<Rightarrow> string \<Rightarrow> string \<Rightarrow> 'p \<Rightarrow> int list
    \<Rightarrow> goerr + OutboxEvent" where
  "NewEvent json_marshal new_id now aggregateType aggregateID eventType payload maxRetries =
     (case json_marshal payload of
        Inl err \<Rightarrow> Inl (Wrapf ''failed to serialize event payload: '' err [])
      | Inr data \<Rightarrow>
          let retries = (if 0 < length maxRetries \<and> maxRetries ! 0 \<ge> 0 then maxRetries ! 0 else 5)
          in Inr \<lparr>ID = new_id, AggregateType = aggregateType, AggregateID = aggregateID,
                  EventType = eventType, Payload = data, EvStatus = StatusPending,
                  RetryCount = 0, MaxRetries = retries, LastError = [],
                  ScheduledAt = now, NextRetryAt = now, LockedUntil = None, LeaseToken = None,
                  PublishedAt = None, CreatedAt = now\<rparr>)"

definition UnmarshalPayload :: "(string \<Rightarrow> goerr + 'p) \<Rightarrow> OutboxEvent \<Rightarrow> goerr + 'p" where
  "UnmarshalPayload json_unmarshal e =
     (case json_unmarshal (Payload e) of
        Inl err \<Rightarrow> Inl (Wrapf ''failed to unmarshal event payload: '' err [])
      | Inr v \<Rightarrow> Inr v)"

definition IsDeadLetter :: "OutboxEvent \<Rightarrow> bool" where
  "IsDeadLetter e \<longleftrightarrow> EvStatus e = StatusDeadLetter"

definition MarkDeadLetter :: "OutboxEvent \<Rightarrow> string \<Rightarrow> OutboxEvent" where
  "MarkDeadLetter e reason = e\<lparr>EvStatus := StatusDeadLetter, LastError := reason\<rparr>"

section \<open>Properties\<close>

text \<open>The state in which every event enters the outbox: pending, unleased, with no failed attempt.\<close>

definition fresh_event :: "OutboxEvent \<Rightarrow> bool" where
  "fresh_event e \<longleftrightarrow> EvStatus e = StatusPending \<and> RetryCount e = 0 \<and> MaxRetries e \<ge> 0
     \<and> LeaseToken e = None \<and> LockedUntil e = None \<and> PublishedAt e = None
     \<and> ScheduledAt e = CreatedAt e \<and> NextRetryAt e = CreatedAt e"

lemma NewEvent_fresh:
  "NewEvent m i now at ai et p mr = Inr e \<Longrightarrow> fresh_event e \<and> ID e = i \<and> CreatedAt e = now"
  by (auto simp: NewEvent_def fresh_event_def Let_def split: sum.splits)

lemma NewEvent_retries:
  "NewEvent m i now at ai et p mr = Inr e \<Longrightarrow>
     MaxRetries e = (case mr of [] \<Rightarrow> 5 | n # _ \<Rightarrow> if n \<ge> 0 then n else 5)"
  by (auto simp: NewEvent_def Let_def split: sum.splits list.splits)

lemma NewEvent_error:
  "NewEvent m i now at ai et p mr = Inl err \<longleftrightarrow>
     (\<exists>e. m p = Inl e \<and> err = Wrapf ''failed to serialize event payload: '' e [])"
  by (auto simp: NewEvent_def Let_def split: sum.splits)

end
