(* ===== verification/Table_Name.thy ===== *)
theory Table_Name
  imports Prelude
begin

text \<open>
  The table-name pattern \<^verbatim>\<open>^[a-zA-Z_][a-zA-Z0-9_]*(\.[a-zA-Z_][a-zA-Z0-9_]*)?$\<close>, which
  \<^verbatim>\<open>outbox/store.go\<close> and \<^verbatim>\<open>audit/audit.go\<close> both compile as \<open>tableNameRegex\<close> and match before a
  table name is formatted into SQL.  The matcher is a small automaton over the bytes; it is proved
  equal to the language the pattern denotes.
\<close>

definition ident_start :: "char \<Rightarrow> bool" where
  "ident_start c = (let b = (of_char c :: nat) in
     (97 \<le> b \<and> b \<le> 122) \<or> (65 \<le> b \<and> b \<le> 90) \<or> b = 95)"

definition ident_char :: "char \<Rightarrow> bool" where
  "ident_char c = (let b = (of_char c :: nat) in ident_start c \<or> (48 \<le> b \<and> b \<le> 57))"

text \<open>States: at the start of the first part, inside it, after the dot, inside the second part.\<close>

datatype name_state = AtStart | InFirst | AfterDot | InSecond

fun name_step :: "name_state \<Rightarrow> char \<Rightarrow> name_state option" where
  "name_step AtStart c = (if ident_start c then Some InFirst else None)"
| "name_step InFirst c =
     (if ident_char c then Some InFirst else if c = CHR ''.'' then Some AfterDot else None)"
| "name_step AfterDot c = (if ident_start c then Some InSecond else None)"
| "name_step InSecond c = (if ident_char c then Some InSecond else None)"

fun name_run :: "name_state \<Rightarrow> string \<Rightarrow> bool" where
  "name_run s [] \<longleftrightarrow> s = InFirst \<or> s = InSecond"
| "name_run s (c # cs) \<longleftrightarrow> (case name_step s c of None \<Rightarrow> False | Some s' \<Rightarrow> name_run s' cs)"

definition tableNameRegex_MatchString :: "string \<Rightarrow> bool" where
  "tableNameRegex_MatchString s = name_run AtStart s"

section \<open>The language of the pattern\<close>

definition sql_identifier :: "string \<Rightarrow> bool" where
  "sql_identifier s \<longleftrightarrow> (\<exists>c cs. s = c # cs \<and> ident_start c \<and> (\<forall>d\<in>set cs. ident_char d))"

definition table_name_language :: "string set" where
  "table_name_language =
     {a | a. sql_identifier a} \<union> {a @ ''.'' @ b | a b. sql_identifier a \<and> sql_identifier b}"

lemma dot_no_ident_char [simp]: "\<not> ident_char (CHR ''.'')" "\<not> ident_start (CHR ''.'')"
  by (simp_all add: ident_char_def ident_start_def)

lemma run_InSecond: "name_run InSecond s \<longleftrightarrow> (\<forall>d\<in>set s. ident_char d)"
  by (induction s) auto

lemma run_AfterDot: "name_run AfterDot s \<longleftrightarrow> sql_identifier s"
  by (cases s) (auto simp: run_InSecond sql_identifier_def)

definition dotted_rest :: "string \<Rightarrow> bool" where
  "dotted_rest s \<longleftrightarrow> (\<exists>a b. s = a @ ''.'' @ b \<and> (\<forall>d\<in>set a. ident_char d) \<and> sql_identifier b)"

lemma dotted_rest_Nil [simp]: "\<not> dotted_rest []"
  by (simp add: dotted_rest_def)

lemma dotted_rest_Cons:
  "dotted_rest (c # s) \<longleftrightarrow>
     (if c = CHR ''.'' then sql_identifier s else ident_char c \<and> dotted_rest s)"
proof (cases "c = CHR ''.''")
  case True
  have "dotted_rest (c # s)" if "sql_identifier s"
    unfolding dotted_rest_def using that True by (intro exI [of _ "[]"] exI [of _ s]) simp
  moreover have "sql_identifier s" if "dotted_rest (c # s)"
    using that True by (auto simp: dotted_rest_def Cons_eq_append_conv)
  ultimately show ?thesis using True by auto
next
  case False
  have "dotted_rest (c # s)" if c: "ident_char c" and s: "dotted_rest s"
  proof -
    from s obtain a b where "s = a @ ''.'' @ b" "\<forall>d\<in>set a. ident_char d" "sql_identifier b"
      by (auto simp: dotted_rest_def)
    with c have "c # s = (c # a) @ ''.'' @ b \<and> (\<forall>d\<in>set (c # a). ident_char d) \<and> sql_identifier b"
      by simp
    then show ?thesis unfolding dotted_rest_def by blast
  qed
  moreover have "ident_char c \<and> dotted_rest s" if "dotted_rest (c # s)"
    using that False unfolding dotted_rest_def by (fastforce simp: Cons_eq_append_conv)
  ultimately show ?thesis using False by auto
qed

lemma run_InFirst: "name_run InFirst s \<longleftrightarrow> (\<forall>d\<in>set s. ident_char d) \<or> dotted_rest s"
  by (induction s) (auto simp: run_AfterDot dotted_rest_Cons)

lemma run_AtStart:
  "name_run AtStart s \<longleftrightarrow> (\<exists>c cs. s = c # cs \<and> ident_start c \<and> name_run InFirst cs)"
  by (cases s) auto

lemma matches_language: "tableNameRegex_MatchString s \<longleftrightarrow> s \<in> table_name_language"
proof
  assume "tableNameRegex_MatchString s"
  then obtain c cs where s: "s = c # cs" "ident_start c" and run: "name_run InFirst cs"
    by (auto simp: tableNameRegex_MatchString_def run_AtStart)
  from run consider "\<forall>d\<in>set cs. ident_char d"
    | a b where "cs = a @ ''.'' @ b" "\<forall>d\<in>set a. ident_char d" "sql_identifier b"
    unfolding run_InFirst dotted_rest_def by blast
  then show "s \<in> table_name_language"
  proof cases
    case 1
    with s show ?thesis by (auto simp: table_name_language_def sql_identifier_def)
  next
    case 2
    with s have "s = (c # a) @ ''.'' @ b" "sql_identifier (c # a)" by (auto simp: sql_identifier_def)
    with 2 show ?thesis unfolding table_name_language_def by blast
  qed
next
  assume "s \<in> table_name_language"
  then consider "sql_identifier s" | a b where "s = a @ ''.'' @ b" "sql_identifier a" "sql_identifier b"
    by (auto simp: table_name_language_def)
  then show "tableNameRegex_MatchString s"
  proof cases
    case 1
    then show ?thesis
      by (auto simp: sql_identifier_def tableNameRegex_MatchString_def run_AtStart run_InFirst)
  next
    case 2
    then obtain c cs where "s = c # cs @ ''.'' @ b" "ident_start c" "\<forall>d\<in>set cs. ident_char d"
      by (auto simp: sql_identifier_def)
    with 2(3) show ?thesis
      unfolding tableNameRegex_MatchString_def run_AtStart run_InFirst dotted_rest_def by blast
  qed
qed

text \<open>No byte of a matching name can end an identifier, open a string or start a comment in SQL.\<close>

definition sql_safe_char :: "char \<Rightarrow> bool" where
  "sql_safe_char c \<longleftrightarrow> ident_char c \<or> c = CHR ''.''"

lemma ident_start_char: "ident_start c \<Longrightarrow> ident_char c"
  by (simp add: ident_char_def Let_def)

lemma sql_identifier_safe: "sql_identifier s \<Longrightarrow> s \<noteq> [] \<and> (\<forall>c\<in>set s. sql_safe_char c)"
  by (auto simp: sql_identifier_def sql_safe_char_def ident_start_char)

lemma matches_safe:
  "tableNameRegex_MatchString s \<Longrightarrow> s \<noteq> [] \<and> (\<forall>c\<in>set s. sql_safe_char c)"
  by (auto simp: matches_language table_name_language_def sql_safe_char_def
      dest!: sql_identifier_safe)

lemma sql_safe_char_excludes:
  "sql_safe_char c \<Longrightarrow> c \<notin> set '' ;()-/*'' \<and> c \<noteq> CHR 34 \<and> c \<noteq> CHR 39"
  by (auto simp: sql_safe_char_def ident_char_def ident_start_def Let_def)

end
