(* ===== verification/Outbox_Store.thy ===== *)
theory Outbox_Store
  imports Outbox_Event Table_Name "HOL-Library.Multiset"
begin

text \<open>
  \<^verbatim>\<open>outbox/store.go\<close>: the store's options, the four SQL statements as functions on the rows of
  the outbox table (\<^verbatim>\<open>outbox/ddl/001_outbox_events.sql\<close>), and the four methods around them.

  A statement is atomic, as a PostgreSQL statement is.  What the database decides by itself is a
  parameter of the method: the clock (\<open>NOW()\<close>), the rows other transactions hold locked (\<open>SKIP
  LOCKED\<close>), the random lease tokens (\<open>gen_random_uuid()\<close>, evaluated per row), the order of the
  \<open>RETURNING\<close> rows, and the failures: a statement can be rejected, or can be applied while its reply
  is lost.  The rows stand in the table in an arbitrary order, which also breaks the ties of
  \<open>ORDER BY created_at\<close>.
\<close>

section \<open>The store and its options\<close>

record 'h pgStore =
  db :: 'h
  dialect :: string
  tableName :: string
  leaseDuration :: duration
  initErr :: "goerr option"

type_synonym 'h StoreOption = "'h pgStore \<Rightarrow> 'h pgStore"

definition WithDialect :: "string \<Rightarrow> 'h StoreOption" where
  "WithDialect d s = s\<lparr>dialect := d\<rparr>"

text \<open>\<open>quote\<close> is \<open>strconv.Quote\<close>, used for the message only.\<close>

definition WithTableName :: "(string \<Rightarrow> string) \<Rightarrow> string \<Rightarrow> 'h StoreOption" where
  "WithTableName quote name s =
     (if \<not> tableNameRegex_MatchString name
      then s\<lparr>initErr := Some (Wrapf [] (Sentinel ErrInvalidTableName)
               ('': '' @ quote name @ '' does not match identifier pattern ''
                 @ [CHR 39] @ ''^[a-zA-Z_][a-zA-Z0-9_]*('' @ [CHR 92]
                 @ ''.[a-zA-Z_][a-zA-Z0-9_]*)?$'' @ [CHR 39])),
             tableName := name\<rparr>
      else s\<lparr>tableName := name\<rparr>)"

definition WithLeaseDuration :: "duration \<Rightarrow> 'h StoreOption" where
  "WithLeaseDuration d s =
     (if sint d \<ge> sint (5 * Second) then s\<lparr>leaseDuration := d\<rparr>
      else if sint d > 0 then s\<lparr>leaseDuration := 5 * Second\<rparr>
      else s)"

definition NewPGStore :: "'h \<Rightarrow> 'h StoreOption list \<Rightarrow> 'h pgStore" where
  "NewPGStore d opts =
     (let s = foldl (\<lambda>s opt. opt s)
                \<lparr>db = d, dialect = ''postgres'', tableName = ''outbox_events'',
                 leaseDuration = 60 * Second, initErr = None\<rparr> opts
      in if sint (leaseDuration s) < sint (5 * Second) then s\<lparr>leaseDuration := 60 * Second\<rparr> else s)"

text \<open>The guard that opens every method.\<close>

definition store_guard :: "'h pgStore \<Rightarrow> goerr option" where
  "store_guard s =
     (case initErr s of
        Some e \<Rightarrow> Some e
      | None \<Rightarrow> if \<not> tableNameRegex_MatchString (tableName s)
                then Some (Sentinel ErrInvalidTableName) else None)"

section \<open>The table\<close>

record outbox_row =
  row_id :: uuid
  row_aggregate_type :: string
  row_aggregate_id :: string
  row_event_type :: string
  row_payload :: string
  row_status :: Status
  row_retry_count :: int
  row_max_retries :: int
  row_last_error :: "string option"
  row_scheduled_at :: gotime
  row_next_retry_at :: gotime
  row_locked_until :: "gotime option"
  row_lease_token :: "uuid option"
  row_published_at :: "gotime option"
  row_created_at :: gotime

type_synonym outbox_table = "outbox_row list"

datatype db_fault = DbOk | DbRejected goerr | DbReplyLost goerr

text \<open>One \<open>Exec\<close>: the command tag's row count or an error, and the table afterwards.\<close>

definition db_exec ::
  "db_fault \<Rightarrow> (outbox_table \<Rightarrow> goerr + nat \<times> outbox_table) \<Rightarrow> outbox_table
    \<Rightarrow> (goerr + nat) \<times> outbox_table" where
  "db_exec fault stmt t =
     (case fault of
        DbRejected e \<Rightarrow> (Inl e, t)
      | DbOk \<Rightarrow> (case stmt t of Inl e \<Rightarrow> (Inl e, t) | Inr (n, t') \<Rightarrow> (Inr n, t'))
      | DbReplyLost e \<Rightarrow> (case stmt t of Inl e' \<Rightarrow> (Inl e', t) | Inr (n, t') \<Rightarrow> (Inl e, t')))"

section \<open>Insert\<close>

text \<open>The row of the \<open>INSERT\<close> statement: the eleven listed columns, the others null.  The two zero
  timestamps are replaced before the statement (lines 118 to 125).\<close>

definition insert_row :: "gotime \<Rightarrow> OutboxEvent \<Rightarrow> outbox_row" where
  "insert_row now event =
     (let scheduledAt = (if IsZero (ScheduledAt event) then now else ScheduledAt event);
          nextRetryAt = (if IsZero (NextRetryAt event) then scheduledAt else NextRetryAt event)
      in \<lparr>row_id = ID event, row_aggregate_type = AggregateType event,
          row_aggregate_id = AggregateID event, row_event_type = EventType event,
          row_payload = Payload event, row_status = EvStatus event,
          row_retry_count = RetryCount event, row_max_retries = MaxRetries event,
          row_last_error = None, row_scheduled_at = scheduledAt, row_next_retry_at = nextRetryAt,
          row_locked_until = None, row_lease_token = None, row_published_at = None,
          row_created_at = CreatedAt event\<rparr>)"

definition unique_violation :: goerr where
  "unique_violation = Foreign ''duplicate key value violates unique constraint'' [] []"

definition sql_insert :: "outbox_row \<Rightarrow> outbox_table \<Rightarrow> goerr + nat \<times> outbox_table" where
  "sql_insert r t = (if row_id r \<in> row_id ` set t then Inl unique_violation else Inr (1, t @ [r]))"

text \<open>\<open>Insert\<close> runs through the operator it is given, a transaction or a connection, and through the
  store's own when that is nil.  \<open>views\<close> is the table as each operator sees it.\<close>

definition Insert ::
  "'h pgStore \<Rightarrow> db_fault \<Rightarrow> gotime \<Rightarrow> 'h option \<Rightarrow> OutboxEvent \<Rightarrow> ('h \<Rightarrow> outbox_table)
    \<Rightarrow> goerr option \<times> ('h \<Rightarrow> outbox_table)" where
  "Insert s fault now op event views =
     (case store_guard s of
        Some e \<Rightarrow> (Some e, views)
      | None \<Rightarrow>
          let target = (case op of None \<Rightarrow> db s | Some h \<Rightarrow> h);
              (r, t') = db_exec fault (sql_insert (insert_row now event)) (views target);
              views' = views(target := t')
          in (case r of
                Inl err \<Rightarrow> (Some (Wrapf ''failed to insert outbox event: '' err []), views')
              | Inr _ \<Rightarrow> (None, views')))"

section \<open>FetchPendingBatch\<close>

text \<open>
  \<open>leaseSecs\<close> of \<open>fetchPendingQuery\<close>: the whole seconds of the lease duration, 60 if there is none.
  (Go computes them through a float64, which is exact for durations below \<open>2^22\<close> seconds, 48 days.)
\<close>

definition lease_secs :: "'h pgStore \<Rightarrow> int" where
  "lease_secs s =
     (let leaseSecs = sint (leaseDuration s) div 1000000000 in if leaseSecs \<le> 0 then 60 else leaseSecs)"

text \<open>
  The \<open>WHERE\<close> clause of the query.  A null \<open>locked_until\<close> makes the comparison unknown, which
  selects nothing.
\<close>

definition fetchable :: "gotime \<Rightarrow> outbox_row \<Rightarrow> bool" where
  "fetchable now r \<longleftrightarrow>
     (row_status r = ''PENDING''
      \<or> row_status r = ''PROCESSING''
        \<and> (case row_locked_until r of None \<Rightarrow> False | Some u \<Rightarrow> u < now))
     \<and> row_next_retry_at r \<le> now"

text \<open>The common table expression \<open>pending\<close>: rows that are fetchable and not locked by another
  transaction, oldest first, at most \<open>limit\<close> of them.\<close>

definition sql_pending :: "gotime \<Rightarrow> nat \<Rightarrow> (uuid \<Rightarrow> bool) \<Rightarrow> outbox_table \<Rightarrow> outbox_row list" where
  "sql_pending now limit locked t =
     take limit (sort_key row_created_at (filter (\<lambda>r. fetchable now r \<and> \<not> locked (row_id r)) t))"

definition lease_row :: "gotime \<Rightarrow> int \<Rightarrow> (uuid \<Rightarrow> uuid) \<Rightarrow> outbox_row \<Rightarrow> outbox_row" where
  "lease_row now secs token r =
     r\<lparr>row_status := ''PROCESSING'', row_locked_until := Some (now + secs * 1000000000),
       row_lease_token := Some (token (row_id r))\<rparr>"

text \<open>The \<open>UPDATE\<close> of the rows whose id is among the pending ones.\<close>

definition sql_lease ::
  "gotime \<Rightarrow> int \<Rightarrow> (uuid \<Rightarrow> uuid) \<Rightarrow> uuid set \<Rightarrow> outbox_table \<Rightarrow> outbox_table" where
  "sql_lease now secs token ids t =
     map (\<lambda>r. if row_id r \<in> ids then lease_row now secs token r else r) t"

datatype fetch_fault =
    FetchOk
  | QueryRejected goerr
  | ScanFails nat goerr
  | IterFails goerr bool

record fetch_env =
  fe_now :: gotime
  fe_locked :: "uuid \<Rightarrow> bool"
  fe_token :: "uuid \<Rightarrow> uuid"
  fe_arrange :: "outbox_row list \<Rightarrow> outbox_row list"
  fe_fault :: fetch_fault

text \<open>\<open>rows.Scan\<close> into an event: the thirteen columns of the \<open>RETURNING\<close> list; the two timestamps
  it does not name stay zero.\<close>

definition event_of_row :: "outbox_row \<Rightarrow> OutboxEvent" where
  "event_of_row r =
     \<lparr>ID = row_id r, AggregateType = row_aggregate_type r, AggregateID = row_aggregate_id r,
      EventType = row_event_type r, Payload = row_payload r, EvStatus = row_status r,
      RetryCount = row_retry_count r, MaxRetries = row_max_retries r,
      LastError = (case row_last_error r of None \<Rightarrow> [] | Some m \<Rightarrow> m),
      ScheduledAt = 0, NextRetryAt = 0, LockedUntil = row_locked_until r,
      LeaseToken = row_lease_token r, PublishedAt = row_published_at r,
      CreatedAt = row_created_at r\<rparr>"

text \<open>The row loop: event by event, stopping at the first row whose scan fails.\<close>

fun scan_rows :: "(nat \<times> goerr) option \<Rightarrow> outbox_row list \<Rightarrow> goerr + OutboxEvent list" where
  "scan_rows fails [] = Inr []"
| "scan_rows fails (r # rs) =
     (case fails of
        Some (0, err) \<Rightarrow> Inl (Wrapf ''failed to scan outbox event: '' err [])
      | _ \<Rightarrow> (case scan_rows (map_option (map_prod (\<lambda>k. k - 1) id) fails) rs of
                Inl e \<Rightarrow> Inl e | Inr evs \<Rightarrow> Inr (event_of_row r # evs)))"

text \<open>
  \<open>FetchPendingBatch\<close>.  A rejected query changes nothing.  A failed scan comes after the statement
  ran, so the leases are taken although no event is returned; a failure of the iteration may come
  before or after the statement took effect.
\<close>

definition FetchPendingBatch ::
  "'h pgStore \<Rightarrow> fetch_env \<Rightarrow> int \<Rightarrow> outbox_table \<Rightarrow> (goerr + OutboxEvent list) \<times> outbox_table" where
  "FetchPendingBatch s env limit t =
     (case store_guard s of
        Some e \<Rightarrow> (Inl e, t)
      | None \<Rightarrow>
          let limit = (if limit \<le> 0 then 50 else limit);
              ids = row_id ` set (sql_pending (fe_now env) (nat limit) (fe_locked env) t);
              t' = sql_lease (fe_now env) (lease_secs s) (fe_token env) ids t;
              rows = fe_arrange env (filter (\<lambda>r. row_id r \<in> ids) t')
          in (case fe_fault env of
                QueryRejected err \<Rightarrow>
                  (Inl (Wrapf ''failed to fetch pending outbox events: '' err []), t)
              | IterFails err applied \<Rightarrow>
                  (Inl (Wrapf ''row iteration error: '' err []), if applied then t' else t)
              | ScanFails k err \<Rightarrow> (scan_rows (Some (k, err)) rows, t')
              | FetchOk \<Rightarrow> (scan_rows None rows, t')))"

section \<open>MarkPublished and MarkFailed\<close>

text \<open>The token a mark is fenced with: the first argument given, unless it is the nil UUID.\<close>

definition fence_token :: "uuid list \<Rightarrow> uuid option" where
  "fence_token leaseToken =
     (if 0 < length leaseToken \<and> leaseToken ! 0 \<noteq> nil_uuid then Some (leaseToken ! 0) else None)"

text \<open>The two \<open>WHERE\<close> clauses, with and without the token; a null token equals nothing.\<close>

definition mark_matches :: "uuid \<Rightarrow> uuid option \<Rightarrow> outbox_row \<Rightarrow> bool" where
  "mark_matches i tok r \<longleftrightarrow>
     row_id r = i \<and> (case tok of None \<Rightarrow> True | Some k \<Rightarrow> row_lease_token r = Some k)"

definition sql_update ::
  "(outbox_row \<Rightarrow> bool) \<Rightarrow> (outbox_row \<Rightarrow> outbox_row) \<Rightarrow> outbox_table \<Rightarrow> goerr + nat \<times> outbox_table" where
  "sql_update P f t = Inr (length (filter P t), map (\<lambda>r. if P r then f r else r) t)"

definition publish_row :: "gotime \<Rightarrow> outbox_row \<Rightarrow> outbox_row" where
  "publish_row now r =
     r\<lparr>row_status := ''PUBLISHED'', row_published_at := Some now, row_locked_until := None,
       row_lease_token := None, row_last_error := None\<rparr>"

definition fail_row :: "Status \<Rightarrow> string \<Rightarrow> gotime \<Rightarrow> outbox_row \<Rightarrow> outbox_row" where
  "fail_row newStatus lastErr nextRetry r =
     r\<lparr>row_status := newStatus, row_retry_count := row_retry_count r + 1,
       row_last_error := Some lastErr, row_scheduled_at := nextRetry,
       row_next_retry_at := nextRetry, row_locked_until := None, row_lease_token := None\<rparr>"

text \<open>The reading of the command tag both methods end with.\<close>

definition mark_result :: "string \<Rightarrow> goerr + nat \<Rightarrow> goerr option" where
  "mark_result pre r =
     (case r of
        Inl err \<Rightarrow> Some (Wrapf pre err [])
      | Inr n \<Rightarrow> if n = 0 then Some (Sentinel ErrLeaseExpired) else None)"

definition MarkPublished ::
  "'h pgStore \<Rightarrow> db_fault \<Rightarrow> gotime \<Rightarrow> uuid \<Rightarrow> uuid list \<Rightarrow> outbox_table
    \<Rightarrow> goerr option \<times> outbox_table" where
  "MarkPublished s fault now i leaseToken t =
     (case store_guard s of
        Some e \<Rightarrow> (Some e, t)
      | None \<Rightarrow>
          let (r, t') = db_exec fault
                (sql_update (mark_matches i (fence_token leaseToken)) (publish_row now)) t
          in (mark_result ''failed to mark outbox event as published: '' r, t'))"

definition MarkFailed ::
  "'h pgStore \<Rightarrow> db_fault \<Rightarrow> uuid \<Rightarrow> string \<Rightarrow> gotime \<Rightarrow> bool \<Rightarrow> uuid list \<Rightarrow> outbox_table
    \<Rightarrow> goerr option \<times> outbox_table" where
  "MarkFailed s fault i lastErr nextRetry finalFail leaseToken t =
     (case store_guard s of
        Some e \<Rightarrow> (Some e, t)
      | None \<Rightarrow>
          let newStatus = (if finalFail then StatusDeadLetter else StatusPending);
              (r, t') = db_exec fault
                (sql_update (mark_matches i (fence_token leaseToken))
                            (fail_row newStatus lastErr nextRetry)) t
          in (mark_result ''failed to update failed outbox event: '' r, t'))"

section \<open>Lemmas on the statements\<close>

subsection \<open>Rows by id\<close>

definition row_of :: "outbox_table \<Rightarrow> uuid \<Rightarrow> outbox_row option" where
  "row_of t i = find (\<lambda>r. row_id r = i) t"

definition status_of :: "outbox_table \<Rightarrow> uuid \<Rightarrow> Status option" where
  "status_of t i = map_option row_status (row_of t i)"

lemma row_of_Nil [simp]: "row_of [] i = None"
  by (simp add: row_of_def)

lemma row_of_Cons: "row_of (r # t) i = (if row_id r = i then Some r else row_of t i)"
  by (simp add: row_of_def)

lemma row_of_SomeD: "row_of t i = Some r \<Longrightarrow> r \<in> set t \<and> row_id r = i"
  by (auto simp: row_of_def find_Some_iff)

lemma row_of_None: "row_of t i = None \<longleftrightarrow> i \<notin> row_id ` set t"
  by (auto simp: row_of_def find_None_iff)

lemma row_of_distinct: "distinct (map row_id t) \<Longrightarrow> r \<in> set t \<Longrightarrow> row_of t (row_id r) = Some r"
  by (induction t) (auto simp: row_of_Cons)

lemma row_of_append: "row_of (t @ [r]) i = (case row_of t i of Some x \<Rightarrow> Some x
    | None \<Rightarrow> if row_id r = i then Some r else None)"
  by (induction t) (auto simp: row_of_Cons)

lemma row_of_map:
  assumes "\<And>r. row_id (f r) = row_id r"
  shows "row_of (map f t) i = map_option f (row_of t i)"
  using assms by (induction t) (auto simp: row_of_Cons)

lemma row_id_updates [simp]:
  "row_id (lease_row n d k r) = row_id r" "row_id (publish_row n r) = row_id r"
  "row_id (fail_row st e nr r) = row_id r"
  by (simp_all add: lease_row_def publish_row_def fail_row_def)

lemma row_of_cond_map:
  assumes "\<And>r. row_id (f r) = row_id r"
  shows "row_of (map (\<lambda>r. if P r then f r else r) t) i
    = map_option (\<lambda>r. if P r then f r else r) (row_of t i)"
  using assms by (intro row_of_map) simp

text \<open>The columns no statement but the \<open>INSERT\<close> writes.\<close>

definition row_core :: "outbox_row \<Rightarrow> uuid \<times> string \<times> string \<times> string \<times> string \<times> int \<times> gotime" where
  "row_core r = (row_id r, row_aggregate_type r, row_aggregate_id r, row_event_type r, row_payload r,
     row_max_retries r, row_created_at r)"

lemma row_core_updates [simp]:
  "row_core (lease_row n d k r) = row_core r" "row_core (publish_row n r) = row_core r"
  "row_core (fail_row st e nr r) = row_core r"
  by (simp_all add: row_core_def lease_row_def publish_row_def fail_row_def)

lemma map_row_core_id: "map row_core t = map row_core t' \<Longrightarrow> map row_id t = map row_id t'"
proof -
  assume "map row_core t = map row_core t'"
  then have "map fst (map row_core t) = map fst (map row_core t')" by simp
  then show ?thesis by (simp add: row_core_def comp_def)
qed

subsection \<open>The pending rows\<close>

lemma sql_pendingD:
  "r \<in> set (sql_pending now n locked t) \<Longrightarrow> r \<in> set t \<and> fetchable now r \<and> \<not> locked (row_id r)"
  unfolding sql_pending_def by (drule in_set_takeD) simp

lemma sql_pending_length:
  "length (sql_pending now n locked t)
    = min n (length (filter (\<lambda>r. fetchable now r \<and> \<not> locked (row_id r)) t))"
  by (simp add: sql_pending_def min.commute)

lemma sql_pending_sorted: "sorted (map row_created_at (sql_pending now n locked t))"
  unfolding sql_pending_def by (simp add: take_map [symmetric] sorted_wrt_take)

lemma sql_pending_oldest:
  assumes "r \<in> set (sql_pending now n locked t)"
    and "r' \<in> set t" "fetchable now r'" "\<not> locked (row_id r')"
    and "r' \<notin> set (sql_pending now n locked t)"
  shows "row_created_at r \<le> row_created_at r'"
proof -
  let ?xs = "sort_key row_created_at (filter (\<lambda>r. fetchable now r \<and> \<not> locked (row_id r)) t)"
  have "r' \<in> set ?xs" using assms by simp
  then have "r' \<in> set (take n ?xs) \<or> r' \<in> set (drop n ?xs)"
    by (metis Un_iff append_take_drop_id set_append)
  with assms(5) have "r' \<in> set (drop n ?xs)" by (simp add: sql_pending_def)
  moreover have "sorted (map row_created_at (take n ?xs @ drop n ?xs))"
    by (simp only: append_take_drop_id sorted_sort_key)
  ultimately show ?thesis
    using assms(1) unfolding map_append sorted_append sql_pending_def by auto
qed

lemma sql_pending_all:
  assumes "length t \<le> n"
  shows "set (sql_pending now n locked t) = {r \<in> set t. fetchable now r \<and> \<not> locked (row_id r)}"
proof -
  let ?xs = "filter (\<lambda>r. fetchable now r \<and> \<not> locked (row_id r)) t"
  have "length ?xs \<le> n" using assms length_filter_le order_trans by blast
  then show ?thesis by (auto simp: sql_pending_def)
qed

text \<open>When ids are unique, the rows the \<open>UPDATE\<close> touches are exactly the pending ones.\<close>

lemma ids_of_subset:
  assumes "distinct (map row_id t)" and "set ps \<subseteq> set t" and "r \<in> set t"
  shows "row_id r \<in> row_id ` set ps \<longleftrightarrow> r \<in> set ps"
  using assms by (auto dest: distinct_map_same_key)

subsection \<open>The effect of each method on the table\<close>

lemma db_exec_table:
  "db_exec fault stmt t = (r, t') \<Longrightarrow> t' = t \<or> (\<exists>n. stmt t = Inr (n, t'))"
  by (auto simp: db_exec_def split: db_fault.splits sum.splits)

lemma db_exec_ok: "db_exec fault stmt t = (Inr n, t') \<Longrightarrow> stmt t = Inr (n, t')"
  by (auto simp: db_exec_def split: db_fault.splits sum.splits)

definition pending_ids :: "'h pgStore \<Rightarrow> fetch_env \<Rightarrow> int \<Rightarrow> outbox_table \<Rightarrow> uuid set" where
  "pending_ids s env limit t =
     row_id ` set (sql_pending (fe_now env) (nat (if limit \<le> 0 then 50 else limit)) (fe_locked env) t)"

definition leased :: "'h pgStore \<Rightarrow> fetch_env \<Rightarrow> int \<Rightarrow> outbox_table \<Rightarrow> outbox_table" where
  "leased s env limit t =
     sql_lease (fe_now env) (lease_secs s) (fe_token env) (pending_ids s env limit t) t"

lemma fetch_table:
  "FetchPendingBatch s env limit t = (r, t') \<Longrightarrow> t' = t \<or> t' = leased s env limit t"
  by (auto simp: FetchPendingBatch_def leased_def pending_ids_def Let_def
      split: option.splits fetch_fault.splits if_splits)

lemma scan_rows_None [simp]: "scan_rows None rs = Inr (map event_of_row rs)"
  by (induction rs) auto

lemma scan_rows_ok: "scan_rows f rs = Inr evs \<Longrightarrow> evs = map event_of_row rs"
  by (induction f rs arbitrary: evs rule: scan_rows.induct)
    (auto split: option.splits sum.splits prod.splits nat.splits)

lemma scan_rows_fails: "k < length rs \<Longrightarrow>
    scan_rows (Some (k, err)) rs = Inl (Wrapf ''failed to scan outbox event: '' err [])"
  by (induction rs arbitrary: k) (auto split: nat.splits)

lemma fetch_ok:
  assumes "FetchPendingBatch s env limit t = (Inr evs, t')"
  shows "t' = leased s env limit t \<and>
    evs = map event_of_row (fe_arrange env (filter (\<lambda>r. row_id r \<in> pending_ids s env limit t) t'))"
  using assms
  by (auto simp: FetchPendingBatch_def leased_def pending_ids_def Let_def
      split: option.splits fetch_fault.splits if_splits dest: scan_rows_ok)

lemma fetch_guard_error:
  "store_guard s = Some e \<Longrightarrow> FetchPendingBatch s env limit t = (Inl e, t)"
  by (simp add: FetchPendingBatch_def)

lemma fetch_succeeds:
  assumes "store_guard s = None" and "fe_fault env = FetchOk"
  shows "\<exists>evs. FetchPendingBatch s env limit t = (Inr evs, leased s env limit t)"
  using assms by (simp add: FetchPendingBatch_def leased_def pending_ids_def Let_def)

definition marked :: "uuid \<Rightarrow> uuid list \<Rightarrow> (outbox_row \<Rightarrow> outbox_row) \<Rightarrow> outbox_table \<Rightarrow> outbox_table" where
  "marked i lt f t = map (\<lambda>r. if mark_matches i (fence_token lt) r then f r else r) t"

definition fail_status :: "bool \<Rightarrow> Status" where
  "fail_status finalFail = (if finalFail then StatusDeadLetter else StatusPending)"

lemma MarkPublished_table:
  "MarkPublished s fault now i lt t = (e, t') \<Longrightarrow> t' = t \<or> t' = marked i lt (publish_row now) t"
  by (auto simp: MarkPublished_def sql_update_def marked_def split: option.splits prod.splits
      dest!: db_exec_table)

lemma MarkFailed_table:
  "MarkFailed s fault i le nr ff lt t = (e, t') \<Longrightarrow>
     t' = t \<or> t' = marked i lt (fail_row (fail_status ff) le nr) t"
  by (auto simp: MarkFailed_def sql_update_def marked_def fail_status_def Let_def
      split: option.splits prod.splits dest!: db_exec_table)

lemma mark_result_None: "mark_result pre r = None \<longleftrightarrow> (\<exists>n. r = Inr n \<and> n \<noteq> 0)"
  by (auto simp: mark_result_def split: sum.splits)

lemma marked_none:
  "\<not> (\<exists>r\<in>set t. mark_matches i (fence_token lt) r) \<Longrightarrow> marked i lt f t = t"
  unfolding marked_def by (rule map_idI_ball) auto

lemma mark_ok:
  assumes "db_exec fault (sql_update (mark_matches i (fence_token lt)) f) t = (r, t')"
    and "mark_result pre r = None"
  shows "t' = marked i lt f t \<and> (\<exists>r\<in>set t. mark_matches i (fence_token lt) r)"
proof -
  from assms(2) obtain n where r: "r = Inr n" "n \<noteq> 0" by (auto simp: mark_result_None)
  with assms(1) have "sql_update (mark_matches i (fence_token lt)) f t = Inr (n, t')"
    by (auto dest: db_exec_ok)
  with r(2) show ?thesis
    by (auto simp: sql_update_def marked_def filter_empty_conv)
qed

lemma MarkPublished_ok:
  assumes "MarkPublished s fault now i lt t = (None, t')"
  shows "t' = marked i lt (publish_row now) t \<and> (\<exists>r\<in>set t. mark_matches i (fence_token lt) r)"
  using assms mark_ok
  by (fastforce simp: MarkPublished_def split: option.splits prod.splits)

lemma MarkFailed_ok:
  assumes "MarkFailed s fault i le nr ff lt t = (None, t')"
  shows "t' = marked i lt (fail_row (fail_status ff) le nr) t
    \<and> (\<exists>r\<in>set t. mark_matches i (fence_token lt) r)"
  using assms mark_ok [where f = "fail_row (fail_status ff) le nr"]
  by (fastforce simp: MarkFailed_def fail_status_def Let_def split: option.splits prod.splits)

lemma mark_stale:
  assumes "\<not> (\<exists>r\<in>set t. mark_matches i (fence_token lt) r)" and "fault = DbOk"
  shows "db_exec fault (sql_update (mark_matches i (fence_token lt)) f) t = (Inr 0, t)"
  using assms marked_none [OF assms(1), of f]
  by (auto simp: db_exec_def sql_update_def marked_def filter_empty_conv)

lemma store_guard_mark:
  "store_guard s = Some e \<Longrightarrow> MarkPublished s fault now i lt t = (Some e, t)"
  "store_guard s = Some e \<Longrightarrow> MarkFailed s fault i le nr ff lt t = (Some e, t)"
  "store_guard s = Some e \<Longrightarrow> Insert s fault now op ev views = (Some e, views)"
  by (simp_all add: MarkPublished_def MarkFailed_def Insert_def)

lemma Insert_ok:
  assumes "Insert s fault now op ev views = (None, views')"
  defines "h \<equiv> (case op of None \<Rightarrow> db s | Some h \<Rightarrow> h)"
  shows "views' = views(h := views h @ [insert_row now ev]) \<and> ID ev \<notin> row_id ` set (views h)"
  using assms
  by (auto simp: Insert_def sql_insert_def insert_row_def Let_def
      split: option.splits prod.splits sum.splits if_splits dest!: db_exec_ok)

lemma row_id_insert_row [simp]: "row_id (insert_row now ev) = ID ev"
  by (simp add: insert_row_def Let_def)

subsection \<open>What the effects keep\<close>

lemma row_core_leased [simp]: "map row_core (leased s env limit t) = map row_core t"
  unfolding leased_def sql_lease_def by (rule map_update_key) simp

lemma row_core_marked:
  assumes "\<And>r. row_core (f r) = row_core r"
  shows "map row_core (marked i lt f t) = map row_core t"
  unfolding marked_def using assms by (rule map_update_key)

lemma row_of_leased:
  "row_of (leased s env limit t) i = map_option
     (\<lambda>r. if row_id r \<in> pending_ids s env limit t
          then lease_row (fe_now env) (lease_secs s) (fe_token env) r else r) (row_of t i)"
  unfolding leased_def sql_lease_def by (rule row_of_cond_map) simp

lemma row_of_marked:
  assumes "\<And>r. row_id (f r) = row_id r"
  shows "row_of (marked i lt f t) j = map_option
     (\<lambda>r. if mark_matches i (fence_token lt) r then f r else r) (row_of t j)"
  unfolding marked_def using assms by (rule row_of_cond_map)

lemma row_of_marked_other:
  assumes "\<And>r. row_id (f r) = row_id r" and "j \<noteq> i"
  shows "row_of (marked i lt f t) j = row_of t j"
  using assms(2) by (cases "row_of t j")
    (auto simp: row_of_marked assms(1) mark_matches_def dest: row_of_SomeD)

end
