(* ===== verification/Outbox_System.thy ===== *)
theory Outbox_System
  imports Outbox_Store
begin

text \<open>
  The outbox table under any number of relays and writers.  Each statement of \<^verbatim>\<open>outbox/store.go\<close>
  is atomic, so a run of the whole system is a sequence of statements in any order, with the database
  clock advancing in between: the step relation below, whose steps are the store's methods themselves.
  A ghost list records every lease ever granted (event, token), newest first.

  The state machine that \<^verbatim>\<open>docs/adr/0001-outbox-leasing-state-machine.md\<close> draws is the abstract
  specification the steps refine.
\<close>

section \<open>Well-formed rows\<close>

definition row_ok :: "outbox_row \<Rightarrow> bool" where
  "row_ok r \<longleftrightarrow>
     row_status r \<in> {StatusPending, StatusProcessing, StatusPublished, StatusDeadLetter}
     \<and> (row_lease_token r \<noteq> None \<longleftrightarrow> row_status r = StatusProcessing)
     \<and> (row_locked_until r \<noteq> None \<longleftrightarrow> row_status r = StatusProcessing)
     \<and> (row_status r = StatusPublished \<longrightarrow> row_published_at r \<noteq> None)
     \<and> 0 \<le> row_retry_count r"

definition table_ok :: "outbox_table \<Rightarrow> bool" where
  "table_ok t \<longleftrightarrow> distinct (map row_id t) \<and> (\<forall>r\<in>set t. row_ok r)"

lemma row_ok_lease [sql_rules]: "row_ok r \<Longrightarrow> row_ok (lease_row n d k r)"
  by (auto simp: row_ok_def lease_row_def status_defs)

lemma row_ok_publish [sql_rules]: "row_ok r \<Longrightarrow> row_ok (publish_row n r)"
  by (auto simp: row_ok_def publish_row_def status_defs)

lemma row_ok_fail [sql_rules]: "row_ok r \<Longrightarrow> row_ok (fail_row (fail_status ff) le nr r)"
  by (auto simp: row_ok_def fail_row_def fail_status_def)

lemma row_ok_insert [sql_rules]: "fresh_event ev \<Longrightarrow> row_ok (insert_row now ev)"
  by (auto simp: row_ok_def insert_row_def fresh_event_def Let_def)

lemma row_ok_leased: "\<forall>r\<in>set t. row_ok r \<Longrightarrow> \<forall>r\<in>set (leased s env limit t). row_ok r"
  by (auto simp: leased_def sql_lease_def intro: sql_rules)

lemma table_ok_leased: "table_ok t \<Longrightarrow> table_ok (leased s env limit t)"
  unfolding table_ok_def map_row_core_id [OF row_core_leased] by (blast dest: row_ok_leased)

lemma table_ok_marked:
  assumes "table_ok t" and core: "\<And>r. row_core (f r) = row_core r"
    and "\<And>r. row_ok r \<Longrightarrow> row_ok (f r)"
  shows "table_ok (marked i lt f t)"
proof -
  have "\<forall>r\<in>set (marked i lt f t). row_ok r"
    using assms(1,3) by (auto simp: marked_def table_ok_def)
  then show ?thesis
    using assms(1) by (simp add: table_ok_def map_row_core_id [OF row_core_marked [OF core]])
qed

lemma table_ok_fetch:
  "FetchPendingBatch s env limit t = (r, t') \<Longrightarrow> table_ok t \<Longrightarrow> table_ok t'"
  by (drule fetch_table) (auto intro: table_ok_leased)

lemma table_ok_published:
  "MarkPublished s fault now i lt t = (e, t') \<Longrightarrow> table_ok t \<Longrightarrow> table_ok t'"
  by (drule MarkPublished_table) (auto intro!: table_ok_marked intro: sql_rules)

lemma table_ok_failed:
  "MarkFailed s fault i le nr ff lt t = (e, t') \<Longrightarrow> table_ok t \<Longrightarrow> table_ok t'"
  by (drule MarkFailed_table) (auto intro!: table_ok_marked intro: sql_rules)

lemma Insert_table:
  assumes "Insert s fault now op ev views = (e, views')"
  defines "h \<equiv> (case op of None \<Rightarrow> db s | Some h \<Rightarrow> h)"
  shows "views' = views \<or>
    views' = views(h := views h @ [insert_row now ev]) \<and> ID ev \<notin> row_id ` set (views h)"
proof (cases "store_guard s")
  case None
  obtain r t' where x: "db_exec fault (sql_insert (insert_row now ev)) (views h) = (r, t')"
    by fastforce
  with None assms have "views' = views(h := t')"
    by (auto simp: Insert_def Let_def split: sum.splits)
  with db_exec_table [OF x] show ?thesis
    by (auto simp: sql_insert_def split: if_splits)
qed (use assms in \<open>simp add: store_guard_mark\<close>)

lemma table_ok_insert:
  "table_ok t \<Longrightarrow> fresh_event ev \<Longrightarrow> ID ev \<notin> row_id ` set t \<Longrightarrow> table_ok (t @ [insert_row now ev])"
  by (auto simp: table_ok_def intro: sql_rules)

section \<open>The system\<close>

record outbox_sys =
  sys_clock :: gotime
  sys_table :: outbox_table
  sys_grants :: "(uuid \<times> uuid) list"

definition outbox_init :: "gotime \<Rightarrow> outbox_sys" where
  "outbox_init t0 = \<lparr>sys_clock = t0, sys_table = [], sys_grants = []\<rparr>"

text \<open>\<open>gen_random_uuid()\<close>: different for different rows, never nil, never one already issued.\<close>

definition fresh_tokens :: "fetch_env \<Rightarrow> outbox_sys \<Rightarrow> bool" where
  "fresh_tokens env \<sigma> \<longleftrightarrow>
     (let ids = row_id ` set (sys_table \<sigma>) in
        inj_on (fe_token env) ids
        \<and> (\<forall>i\<in>ids. fe_token env i \<noteq> nil_uuid \<and> fe_token env i \<notin> snd ` set (sys_grants \<sigma>)))"

definition new_grants ::
  "'h pgStore \<Rightarrow> fetch_env \<Rightarrow> int \<Rightarrow> outbox_table \<Rightarrow> outbox_table \<Rightarrow> (uuid \<times> uuid) list" where
  "new_grants s env limit t t' =
     (if t' = t then []
      else map (\<lambda>r. (row_id r, fe_token env (row_id r)))
             (filter (\<lambda>r. row_id r \<in> pending_ids s env limit t) t))"

text \<open>
  One rule per method.  With \<open>fenced\<close>, the marks are the ones a relay makes on events of this store:
  they carry the token of a lease.  Without it, marks without a token are allowed too.
\<close>

inductive outbox_step :: "'h pgStore \<Rightarrow> bool \<Rightarrow> outbox_sys \<Rightarrow> outbox_sys \<Rightarrow> bool"
  for s :: "'h pgStore" and fenced :: bool where
  advance: "sys_clock \<sigma> \<le> now \<Longrightarrow> outbox_step s fenced \<sigma> (\<sigma>\<lparr>sys_clock := now\<rparr>)"
| insert: "\<lbrakk>fresh_event ev; Insert s fault now op ev (\<lambda>_. sys_table \<sigma>) = (e, views);
    t' = views (case op of None \<Rightarrow> db s | Some h \<Rightarrow> h)\<rbrakk>
    \<Longrightarrow> outbox_step s fenced \<sigma> (\<sigma>\<lparr>sys_table := t'\<rparr>)"
| fetch: "\<lbrakk>FetchPendingBatch s env limit (sys_table \<sigma>) = (r, t'); fe_now env = sys_clock \<sigma>;
    fresh_tokens env \<sigma>\<rbrakk>
    \<Longrightarrow> outbox_step s fenced \<sigma> (\<sigma>\<lparr>sys_table := t',
          sys_grants := new_grants s env limit (sys_table \<sigma>) t' @ sys_grants \<sigma>\<rparr>)"
| published: "\<lbrakk>MarkPublished s fault (sys_clock \<sigma>) i lt (sys_table \<sigma>) = (e, t');
    fenced \<longrightarrow> fence_token lt \<noteq> None\<rbrakk>
    \<Longrightarrow> outbox_step s fenced \<sigma> (\<sigma>\<lparr>sys_table := t'\<rparr>)"
| failed: "\<lbrakk>MarkFailed s fault i lastErr nextRetry finalFail lt (sys_table \<sigma>) = (e, t');
    fenced \<longrightarrow> fence_token lt \<noteq> None\<rbrakk>
    \<Longrightarrow> outbox_step s fenced \<sigma> (\<sigma>\<lparr>sys_table := t'\<rparr>)"

inductive_cases outbox_stepE: "outbox_step s fenced \<sigma> \<sigma>'"

abbreviation outbox_run :: "'h pgStore \<Rightarrow> bool \<Rightarrow> outbox_sys \<Rightarrow> outbox_sys \<Rightarrow> bool" where
  "outbox_run s fenced \<equiv> (outbox_step s fenced)\<^sup>*\<^sup>*"

text \<open>
  A step on one row, seen from the table: nothing, a lease, a publication or a failure.  Every later
  fact about single rows is a case analysis over this.
\<close>

inductive row_step :: "bool \<Rightarrow> gotime \<Rightarrow> outbox_row \<Rightarrow> outbox_row \<Rightarrow> bool"
  for fenced :: bool and now :: gotime where
  same: "row_step fenced now r r"
| lease: "fetchable now r \<Longrightarrow> row_step fenced now r (lease_row now d k r)"
| publish: "(fenced \<Longrightarrow> row_lease_token r \<noteq> None) \<Longrightarrow> row_step fenced now r (publish_row now r)"
| fail: "(fenced \<Longrightarrow> row_lease_token r \<noteq> None) \<Longrightarrow>
    row_step fenced now r (fail_row (fail_status ff) le nr r)"

inductive_cases row_stepE: "row_step fenced now r r'"

lemma row_core_step: "row_step fenced now r r' \<Longrightarrow> row_core r' = row_core r"
  by (erule row_stepE) auto

lemma pending_fetchable:
  assumes "distinct (map row_id t)" and "row_of t i = Some r" and "i \<in> pending_ids s env limit t"
  shows "fetchable (fe_now env) r \<and> \<not> fe_locked env i"
proof -
  from assms(3) obtain r' where r': "row_id r' = i" "r' \<in> set t" "fetchable (fe_now env) r'"
      "\<not> fe_locked env i"
    by (auto simp: pending_ids_def dest: sql_pendingD)
  moreover from r'(1,2) assms(1) have "row_of t i = Some r'" by (auto dest: row_of_distinct)
  ultimately show ?thesis using assms(2) by simp
qed

lemma mark_matches_fence:
  "mark_matches i (fence_token lt) r \<Longrightarrow> fence_token lt \<noteq> None \<Longrightarrow> row_lease_token r = fence_token lt"
  by (auto simp: mark_matches_def)

lemma step_row:
  assumes "outbox_step s fenced \<sigma> \<sigma>'" and "table_ok (sys_table \<sigma>)"
    and "row_of (sys_table \<sigma>) i = Some r"
  shows "\<exists>r'. row_of (sys_table \<sigma>') i = Some r' \<and> row_step fenced (sys_clock \<sigma>) r r'"
  using assms(1)
proof (cases rule: outbox_step.cases)
  case (advance now)
  with assms(3) show ?thesis by (auto intro: row_step.intros)
next
  case (insert ev fault now op e views t')
  with assms(3) Insert_table [OF insert(3)] show ?thesis
    by (auto simp: row_of_append intro: row_step.intros)
next
  case (fetch env limit res t')
  from assms(2) have d: "distinct (map row_id (sys_table \<sigma>))" by (simp add: table_ok_def)
  from assms(3) have i: "row_id r = i" by (auto dest: row_of_SomeD)
  from fetch_table [OF fetch(2)] show ?thesis
  proof
    assume "t' = sys_table \<sigma>"
    with fetch(1) assms(3) show ?thesis by (auto intro: row_step.intros)
  next
    assume "t' = leased s env limit (sys_table \<sigma>)"
    with fetch(1,3) assms(3) i pending_fetchable [OF d assms(3), of s env limit] show ?thesis
      by (auto simp: row_of_leased intro: row_step.intros)
  qed
next
  case (published fault j lt e t')
  have "row_step fenced (sys_clock \<sigma>) r
      (if mark_matches j (fence_token lt) r then publish_row (sys_clock \<sigma>) r else r)"
    using published(3) by (auto simp: mark_matches_def intro!: row_step.publish intro: row_step.same)
  with MarkPublished_table [OF published(2)] published(1) assms(3) show ?thesis
    by (auto simp: row_of_marked intro: row_step.same)
next
  case (failed fault j le nr ff lt e t')
  have "row_step fenced (sys_clock \<sigma>) r
      (if mark_matches j (fence_token lt) r then fail_row (fail_status ff) le nr r else r)"
    using failed(3) by (auto simp: mark_matches_def intro!: row_step.fail intro: row_step.same)
  with MarkFailed_table [OF failed(2)] failed(1) assms(3) show ?thesis
    by (auto simp: row_of_marked intro: row_step.same)
qed

lemma step_table_ok: "outbox_step s fenced \<sigma> \<sigma>' \<Longrightarrow> table_ok (sys_table \<sigma>) \<Longrightarrow> table_ok (sys_table \<sigma>')"
proof (induction rule: outbox_step.induct)
  case (insert ev \<sigma> fault now op e views t')
  from Insert_table [OF insert(2)] insert show ?case by (auto intro: table_ok_insert)
qed (auto intro: table_ok_fetch table_ok_published table_ok_failed)

lemma step_clock: "outbox_step s fenced \<sigma> \<sigma>' \<Longrightarrow> sys_clock \<sigma> \<le> sys_clock \<sigma>'"
  by (induction rule: outbox_step.induct) auto

lemma init_table_ok: "table_ok (sys_table (outbox_init t0))"
  by (simp add: outbox_init_def table_ok_def)

lemma run_table_ok: "outbox_run s fenced \<sigma> \<sigma>' \<Longrightarrow> table_ok (sys_table \<sigma>) \<Longrightarrow> table_ok (sys_table \<sigma>')"
  by (induction rule: rtranclp_induct) (auto intro: step_table_ok)

section \<open>The lease ledger\<close>

definition grants_ok :: "outbox_sys \<Rightarrow> bool" where
  "grants_ok \<sigma> \<longleftrightarrow> distinct (map snd (sys_grants \<sigma>))
     \<and> (\<forall>i r k. row_of (sys_table \<sigma>) i = Some r \<longrightarrow> row_lease_token r = Some k
           \<longrightarrow> map_of (sys_grants \<sigma>) i = Some k)"

lemma map_of_row_tokens:
  "map_of (map (\<lambda>r. (row_id r, f (row_id r))) xs) i
    = (if i \<in> row_id ` set xs then Some (f i) else None)"
  by (induction xs) auto

lemma new_grants_distinct:
  assumes "distinct (map row_id t)" and "inj_on (fe_token env) (row_id ` set t)"
  shows "distinct (map snd (new_grants s env limit t t'))"
proof -
  have "distinct (map row_id (filter P t))" for P
    using assms(1) by (rule distinct_map_filter)
  moreover have "inj_on (fe_token env) (row_id ` set (filter P t))" for P
    using assms(2) by (rule inj_on_subset) auto
  ultimately have "distinct (map (fe_token env) (map row_id (filter P t)))" for P
    by (simp only: distinct_map [of "fe_token env"] set_map simp_thms)
  then show ?thesis by (simp add: new_grants_def comp_def)
qed

lemma new_grants_tokens:
  "k \<in> snd ` set (new_grants s env limit t t') \<Longrightarrow> \<exists>i\<in>row_id ` set t. k = fe_token env i"
  by (auto simp: new_grants_def split: if_splits)

lemma grants_ok_same_tokens:
  assumes "grants_ok \<sigma>" and "sys_grants \<sigma>' = sys_grants \<sigma>"
    and "\<And>i r k. row_of (sys_table \<sigma>') i = Some r \<Longrightarrow> row_lease_token r = Some k \<Longrightarrow>
      \<exists>r0. row_of (sys_table \<sigma>) i = Some r0 \<and> row_lease_token r0 = Some k"
  shows "grants_ok \<sigma>'"
  using assms unfolding grants_ok_def by metis

lemma row_of_marked_token:
  assumes "row_of (marked j lt f t) i = Some r" and "row_lease_token r = Some k"
    and "\<And>r. row_id (f r) = row_id r" and "\<And>r. row_lease_token (f r) = None"
  shows "\<exists>r0. row_of t i = Some r0 \<and> row_lease_token r0 = Some k"
  using assms(1,2,4) by (auto simp: row_of_marked assms(3) split: if_splits)

lemma cleared_token [simp]:
  "row_lease_token (publish_row n r) = None" "row_lease_token (fail_row st le nr r) = None"
  "row_lease_token (insert_row n ev) = None"
  by (simp_all add: publish_row_def fail_row_def insert_row_def Let_def)

lemma step_grants_ok:
  assumes "outbox_step s fenced \<sigma> \<sigma>'" and "table_ok (sys_table \<sigma>)" and "grants_ok \<sigma>"
  shows "grants_ok \<sigma>'"
  using assms(1)
proof (cases rule: outbox_step.cases)
  case (advance now)
  with assms(3) show ?thesis by (simp add: grants_ok_def)
next
  case (insert ev fault now op e views t')
  from Insert_table [OF insert(3)] insert(1,4) show ?thesis
    by (intro grants_ok_same_tokens [OF assms(3)])
      (auto simp: row_of_append split: option.splits if_splits)
next
  case (published fault j lt e t')
  from MarkPublished_table [OF published(2)] published(1) show ?thesis
    by (intro grants_ok_same_tokens [OF assms(3)]) (auto dest: row_of_marked_token)
next
  case (failed fault j le nr ff lt e t')
  from MarkFailed_table [OF failed(2)] failed(1) show ?thesis
    by (intro grants_ok_same_tokens [OF assms(3)]) (auto dest: row_of_marked_token)
next
  case (fetch env limit res t')
  let ?t = "sys_table \<sigma>" and ?new = "new_grants s env limit (sys_table \<sigma>) t'"
  have "distinct (map row_id ?t)" using assms(2) by (simp add: table_ok_def)
  then have "distinct (map snd ?new)"
    using fetch(4) by (simp add: new_grants_distinct fresh_tokens_def Let_def)
  moreover have "snd ` set ?new \<inter> snd ` set (sys_grants \<sigma>) = {}"
    using fetch(4) new_grants_tokens [of _ s env limit ?t t']
    unfolding fresh_tokens_def Let_def disjoint_iff by metis
  ultimately have d: "distinct (map snd (?new @ sys_grants \<sigma>))"
    using assms(3) by (auto simp: grants_ok_def)
  have "map_of (?new @ sys_grants \<sigma>) i = Some k"
    if r: "row_of t' i = Some r" "row_lease_token r = Some k" for i r k
  proof (cases "t' = ?t")
    case True
    with r assms(3) show ?thesis by (simp add: grants_ok_def new_grants_def)
  next
    case False
    with fetch_table [OF fetch(2)] have t': "t' = leased s env limit ?t" by simp
    with r obtain r0 where r0: "row_of ?t i = Some r0" "row_id r0 = i"
      and rr: "r = (if i \<in> pending_ids s env limit ?t
        then lease_row (fe_now env) (lease_secs s) (fe_token env) r0 else r0)"
      by (auto simp: row_of_leased dest: row_of_SomeD)
    have in_t: "i \<in> row_id ` set ?t" using r0(1) row_of_None [of ?t i] by auto
    have new: "map_of ?new i = (if i \<in> pending_ids s env limit ?t then Some (fe_token env i) else None)"
      using False in_t
      by (auto simp: new_grants_def map_of_row_tokens)
    show ?thesis
      using r(2) rr r0 new assms(3)
      by (auto simp: map_add_def lease_row_def grants_ok_def split: if_splits)
  qed
  with d fetch(1) show ?thesis by (simp add: grants_ok_def)
qed

lemma run_inv:
  assumes "outbox_run s fenced \<sigma> \<sigma>'" and "table_ok (sys_table \<sigma>)" and "grants_ok \<sigma>"
  shows "table_ok (sys_table \<sigma>') \<and> grants_ok \<sigma>'"
  using assms by (induction rule: rtranclp_induct) (auto intro: step_table_ok step_grants_ok)

lemma init_grants_ok: "grants_ok (outbox_init t0)"
  by (simp add: grants_ok_def outbox_init_def)

lemmas reachable_inv = run_inv [OF _ init_table_ok init_grants_ok]

section \<open>The abstract state machine\<close>

text \<open>The arrows of the diagram in the decision record.\<close>

definition adr_edge :: "Status \<Rightarrow> Status \<Rightarrow> bool" where
  "adr_edge a b \<longleftrightarrow> (a, b) \<in>
     {(StatusPending, StatusProcessing), (StatusProcessing, StatusPublished),
      (StatusProcessing, StatusPending), (StatusProcessing, StatusDeadLetter)}"

lemma status_updates [simp]:
  "row_status (lease_row n d k r) = StatusProcessing"
  "row_status (publish_row n r) = StatusPublished"
  "row_status (fail_row st le nr r) = st"
  by (simp_all add: lease_row_def publish_row_def fail_row_def status_defs)

lemma fetchable_status: "fetchable now r \<Longrightarrow> row_status r \<in> {StatusPending, StatusProcessing}"
  by (auto simp: fetchable_def status_defs)

lemma fenced_row_step:
  assumes "row_step True now r r'" and "row_ok r"
  shows "row_status r' = row_status r \<or> adr_edge (row_status r) (row_status r')"
  using assms(1)
proof (cases rule: row_step.cases)
  case (lease d k)
  with fetchable_status show ?thesis by (fastforce simp: adr_edge_def)
qed (use assms(2) in \<open>auto simp: adr_edge_def row_ok_def fail_status_def\<close>)

lemma fenced_terminal_step:
  assumes "row_step True now r r'" and "row_ok r" and "IsTerminal (row_status r)"
  shows "r' = r"
  using assms(1)
proof (cases rule: row_step.cases)
  case (lease d k)
  with fetchable_status [OF lease(2)] assms(3) show ?thesis by auto
qed (use assms(2,3) in \<open>auto simp: row_ok_def\<close>)

lemma row_step_retry: "row_step fenced now r r' \<Longrightarrow> row_retry_count r \<le> row_retry_count r'"
  by (erule row_stepE) (auto simp: lease_row_def publish_row_def fail_row_def)

lemma table_ok_row: "table_ok t \<Longrightarrow> row_of t i = Some r \<Longrightarrow> row_ok r"
  by (auto simp: table_ok_def dest: row_of_SomeD)

lemma run_row:
  assumes "outbox_run s fenced \<sigma> \<sigma>'" and "table_ok (sys_table \<sigma>)"
    and "row_of (sys_table \<sigma>) i = Some r"
  shows "\<exists>r'. row_of (sys_table \<sigma>') i = Some r' \<and> row_core r' = row_core r
    \<and> row_retry_count r \<le> row_retry_count r'"
  using assms
proof (induction rule: rtranclp_induct)
  case (step \<rho> \<rho>')
  then obtain r1 where r1: "row_of (sys_table \<rho>) i = Some r1" "row_core r1 = row_core r"
    "row_retry_count r \<le> row_retry_count r1" by blast
  from step_row [OF step(2) run_table_ok [OF step(1,4)] r1(1)] obtain r'
    where "row_of (sys_table \<rho>') i = Some r'" "row_step fenced (sys_clock \<rho>) r1 r'" by blast
  with r1(2,3) row_core_step [of fenced "sys_clock \<rho>" r1 r']
    row_step_retry [of fenced "sys_clock \<rho>" r1 r'] show ?case by auto
qed auto

lemma run_terminal:
  assumes "outbox_run s True \<sigma> \<sigma>'" and "table_ok (sys_table \<sigma>)"
    and "row_of (sys_table \<sigma>) i = Some r" and "IsTerminal (row_status r)"
  shows "row_of (sys_table \<sigma>') i = Some r"
  using assms
proof (induction rule: rtranclp_induct)
  case (step \<rho> \<rho>')
  then have r: "row_of (sys_table \<rho>) i = Some r" by blast
  have ok: "table_ok (sys_table \<rho>)" using run_table_ok step by blast
  from step_row [OF step(2) ok r] fenced_terminal_step table_ok_row [OF ok r] step(6)
  show ?case by blast
qed

section \<open>Batches and stale tokens\<close>

definition arrange_law :: "fetch_env \<Rightarrow> bool" where
  "arrange_law env \<longleftrightarrow> (\<forall>rs. mset (fe_arrange env rs) = mset rs)"

lemma fetched_rows:
  assumes "FetchPendingBatch s env limit t = (Inr evs, t')" and "arrange_law env"
  shows "mset evs = mset (map event_of_row (filter (\<lambda>r. row_id r \<in> pending_ids s env limit t) t'))"
  using fetch_ok [OF assms(1)] assms(2) by (simp add: arrange_law_def)

lemma filter_leased:
  "filter (\<lambda>r. row_id r \<in> pending_ids s env limit t) (leased s env limit t)
    = map (lease_row (fe_now env) (lease_secs s) (fe_token env))
        (filter (\<lambda>r. row_id r \<in> pending_ids s env limit t) t)"
proof -
  have "filter (\<lambda>r. row_id r \<in> P) (map (\<lambda>r. if row_id r \<in> P then lease_row a b c r else r) xs)
     = map (lease_row a b c) (filter (\<lambda>r. row_id r \<in> P) xs)" for P a b c xs
    by (induction xs) auto
  then show ?thesis unfolding leased_def sql_lease_def .
qed

lemma pending_filter_mset:
  assumes "distinct (map row_id t)"
  shows "mset (filter (\<lambda>r. row_id r \<in> row_id ` set (sql_pending now n locked t)) t)
    = mset (sql_pending now n locked t)"
proof -
  let ?p = "sql_pending now n locked t"
  have d: "distinct t" using assms by (simp add: distinct_map)
  have sub: "set ?p \<subseteq> set t" by (auto dest: sql_pendingD)
  have "distinct ?p" unfolding sql_pending_def using d by (simp add: distinct_take)
  moreover have "set (filter (\<lambda>r. row_id r \<in> row_id ` set ?p) t) = set ?p"
    using ids_of_subset [OF assms sub] sub by auto
  ultimately show ?thesis
    using d set_eq_iff_mset_eq_distinct [OF distinct_filter [OF d]] by blast
qed

lemma batch_mset:
  assumes "FetchPendingBatch s env limit t = (Inr evs, t')" and "arrange_law env" and "table_ok t"
  shows "mset evs = mset (map (\<lambda>r. event_of_row (lease_row (fe_now env) (lease_secs s) (fe_token env) r))
    (sql_pending (fe_now env) (nat (if limit \<le> 0 then 50 else limit)) (fe_locked env) t))"
proof -
  have t': "t' = leased s env limit t" using fetch_ok [OF assms(1)] by simp
  have d: "distinct (map row_id t)" using assms(3) by (simp add: table_ok_def)
  show ?thesis
    using fetched_rows [OF assms(1,2)] pending_filter_mset [OF d]
    by (simp add: t' filter_leased comp_def) (simp add: pending_ids_def flip: mset_map)
qed

lemma stale_mark:
  assumes "grants_ok \<sigma>" and "sys_grants \<sigma> = newer @ (i, k') # older" and "(i, k) \<in> set older"
  shows "\<not> (\<exists>r\<in>set (sys_table \<sigma>). row_id r = i \<and> row_of (sys_table \<sigma>) i = Some r
    \<and> row_lease_token r = Some k)"
proof
  assume "\<exists>r\<in>set (sys_table \<sigma>). row_id r = i \<and> row_of (sys_table \<sigma>) i = Some r
    \<and> row_lease_token r = Some k"
  with assms(1) have k: "map_of (newer @ (i, k') # older) i = Some k"
    by (auto simp: grants_ok_def assms(2))
  have "distinct (map snd (newer @ (i, k') # older))"
    using assms(1) by (simp add: grants_ok_def assms(2))
  moreover have "k \<in> snd ` set older"
    by (rule image_eqI [OF _ assms(3)]) simp
  ultimately have "k \<noteq> k'" "k \<notin> snd ` set newer" by auto
  moreover have "k \<in> snd ` set newer" if "map_of newer i = Some k"
    using map_of_SomeD [OF that] by (rule rev_image_eqI) simp
  ultimately show False
    using k by (auto simp: map_add_def split: option.splits)
qed

end
