(* ===== verification/Outbox_Theorems.thy ===== *)
theory Outbox_Theorems
  imports Outbox_System
begin

text \<open>
  What the outbox store guarantees to any number of relays and writers, with the sample run on which
  each guarantee is shown to apply: an event is inserted, leased, left by its worker until the lease
  expires, leased again under a new token, and published.
\<close>

section \<open>A sample run\<close>

definition demo_store :: "unit pgStore" where
  "demo_store = NewPGStore () []"

definition demo_event :: OutboxEvent where
  "demo_event =
     \<lparr>ID = 1, AggregateType = ''Invoice'', AggregateID = ''INV-1'', EventType = ''InvoiceIssued'',
      Payload = ''{}'', EvStatus = StatusPending, RetryCount = 0, MaxRetries = 5, LastError = [],
      ScheduledAt = 10, NextRetryAt = 10, LockedUntil = None, LeaseToken = None,
      PublishedAt = None, CreatedAt = 10\<rparr>"

definition demo_env :: "gotime \<Rightarrow> uuid \<Rightarrow> fetch_env" where
  "demo_env now k = \<lparr>fe_now = now, fe_locked = (\<lambda>_. False), fe_token = (\<lambda>i. i + k),
     fe_arrange = (\<lambda>rs. rs), fe_fault = FetchOk\<rparr>"

definition demo_insert :: "outbox_sys \<Rightarrow> outbox_sys" where
  "demo_insert \<sigma> = \<sigma>\<lparr>sys_table :=
     snd (Insert demo_store DbOk 10 None demo_event (\<lambda>_. sys_table \<sigma>)) (db demo_store)\<rparr>"

definition demo_fetch :: "uuid \<Rightarrow> outbox_sys \<Rightarrow> outbox_sys" where
  "demo_fetch k \<sigma> =
     (let env = demo_env (sys_clock \<sigma>) k;
          t' = snd (FetchPendingBatch demo_store env 10 (sys_table \<sigma>))
      in \<sigma>\<lparr>sys_table := t',
           sys_grants := new_grants demo_store env 10 (sys_table \<sigma>) t' @ sys_grants \<sigma>\<rparr>)"

definition demo_publish :: "uuid \<Rightarrow> outbox_sys \<Rightarrow> outbox_sys" where
  "demo_publish k \<sigma> = \<sigma>\<lparr>sys_table :=
     snd (MarkPublished demo_store DbOk (sys_clock \<sigma>) 1 [k] (sys_table \<sigma>))\<rparr>"

definition demo1 :: outbox_sys where "demo1 = demo_insert (outbox_init 10)"

definition demo2 :: outbox_sys where "demo2 = demo_fetch 100 demo1"

definition demo3 :: outbox_sys where "demo3 = demo2\<lparr>sys_clock := 60000000011\<rparr>"

definition demo4 :: outbox_sys where "demo4 = demo_fetch 200 demo3"

definition demo5 :: outbox_sys where "demo5 = demo_publish 201 demo4"

lemma demo_event_new:
  "NewEvent Inr 1 10 ''Invoice'' ''INV-1'' ''InvoiceIssued'' ''{}'' [] = Inr demo_event"
  by (simp add: NewEvent_def demo_event_def)

lemma demo_event_fresh: "fresh_event demo_event"
  using NewEvent_fresh [OF demo_event_new] by simp

lemma demo_guard: "store_guard demo_store = None"
  by code_simp

lemma demo_arrange: "arrange_law (demo_env now k)"
  by (simp add: arrange_law_def demo_env_def)

lemma demo_insert_step: "outbox_step demo_store fenced \<sigma> (demo_insert \<sigma>)"
  unfolding demo_insert_def
  by (rule outbox_step.insert [where fault = DbOk and now = 10 and op = None, OF demo_event_fresh])
    (auto simp: prod_eq_iff)

lemma demo_fetch_step:
  "fresh_tokens (demo_env (sys_clock \<sigma>) k) \<sigma> \<Longrightarrow> outbox_step demo_store fenced \<sigma> (demo_fetch k \<sigma>)"
  unfolding demo_fetch_def Let_def
  by (rule outbox_step.fetch [where limit = 10 and r = "fst (FetchPendingBatch demo_store
        (demo_env (sys_clock \<sigma>) k) 10 (sys_table \<sigma>))"]) (auto simp: demo_env_def)

lemma demo_publish_step: "k \<noteq> nil_uuid \<Longrightarrow> outbox_step demo_store fenced \<sigma> (demo_publish k \<sigma>)"
  unfolding demo_publish_def
  by (rule outbox_step.published [where fault = DbOk and i = 1 and lt = "[k]"])
    (auto simp: prod_eq_iff fence_token_def)

lemma demo_tables:
  "map row_id (sys_table demo1) = [1]" "sys_grants demo1 = []"
  "map row_id (sys_table demo3) = [1]" "sys_grants demo3 = [(1, 101)]"
  "sys_clock demo1 = 10"  "sys_clock demo3 = 60000000011"
  "sys_grants demo4 = [(1, 201), (1, 101)]"
  "map_option row_status (row_of (sys_table demo4) 1) = Some StatusProcessing"
  "map_option row_status (row_of (sys_table demo5) 1) = Some StatusPublished"
  by code_simp+

lemma demo_fresh1: "fresh_tokens (demo_env (sys_clock demo1) 100) demo1"
  by code_simp

lemma demo_fresh3: "fresh_tokens (demo_env (sys_clock demo3) 200) demo3"
  by code_simp

lemma demo_steps:
  "outbox_step demo_store fenced (outbox_init 10) demo1"
  "outbox_step demo_store fenced demo1 demo2"
  "outbox_step demo_store fenced demo2 demo3"
  "outbox_step demo_store fenced demo3 demo4"
  "outbox_step demo_store fenced demo4 demo5"
proof -
  show "outbox_step demo_store fenced (outbox_init 10) demo1"
    unfolding demo1_def by (rule demo_insert_step)
  show "outbox_step demo_store fenced demo1 demo2"
    unfolding demo2_def by (rule demo_fetch_step [OF demo_fresh1])
  have "sys_clock demo2 = 10" by code_simp
  then show "outbox_step demo_store fenced demo2 demo3"
    unfolding demo3_def by (intro outbox_step.advance) simp
  show "outbox_step demo_store fenced demo3 demo4"
    unfolding demo4_def by (rule demo_fetch_step [OF demo_fresh3])
  show "outbox_step demo_store fenced demo4 demo5"
    unfolding demo5_def by (rule demo_publish_step) simp
qed

lemma demo_runs:
  "outbox_run demo_store fenced (outbox_init 10) demo1"
  "outbox_run demo_store fenced (outbox_init 10) demo4"
  "outbox_run demo_store fenced (outbox_init 10) demo5"
  "outbox_run demo_store fenced demo1 demo5"
  by (meson demo_steps rtranclp.rtrancl_refl rtranclp.rtrancl_into_rtrancl)+

section \<open>Safety of every run\<close>



text \<open>C3. Refinement: seen through the status of one event, every step of the system (with the marks
  relays make, which carry a lease token) is a stutter or an arrow of the state machine of the decision
  record, and it never changes what the event says: its id, aggregate, type, payload, retry limit and
  creation time.\<close>

theorem outbox_refines_state_machine:
  assumes "outbox_run s True (outbox_init t0) \<sigma>" and "outbox_step s True \<sigma> \<sigma>'"
    and "row_of (sys_table \<sigma>) i = Some r"
  shows "\<exists>r'. row_of (sys_table \<sigma>') i = Some r' \<and> row_core r' = row_core r
    \<and> (row_status r' = row_status r \<or> adr_edge (row_status r) (row_status r'))"
proof -
  have ok: "table_ok (sys_table \<sigma>)" using reachable_inv [OF assms(1)] by simp
  from step_row [OF assms(2) ok assms(3)] obtain r'
    where "row_of (sys_table \<sigma>') i = Some r'" "row_step True (sys_clock \<sigma>) r r'" by blast
  with fenced_row_step table_ok_row [OF ok assms(3)] row_core_step show ?thesis by blast
qed

theorem outbox_refines_state_machine_witness:
  "\<exists>r r'. row_of (sys_table demo4) 1 = Some r \<and> row_of (sys_table demo5) 1 = Some r'
    \<and> row_core r' = row_core r \<and> adr_edge (row_status r) (row_status r')"
proof -
  from demo_tables(8) obtain r where r: "row_of (sys_table demo4) 1 = Some r"
    "row_status r = StatusProcessing" by auto
  from outbox_refines_state_machine [OF demo_runs(2) demo_steps(5) r(1)] r demo_tables(9)
  show ?thesis by auto
qed

text \<open>C6. A terminal status is final: once an event is PUBLISHED or DEAD_LETTER, no later run of
  inserts, fetches and token-carrying marks, by however many relays, changes its row in any column.\<close>

theorem outbox_terminal_is_final:
  assumes "outbox_run s True (outbox_init t0) \<sigma>" and "outbox_run s True \<sigma> \<sigma>'"
    and "row_of (sys_table \<sigma>) i = Some r" and "IsTerminal (row_status r)"
  shows "row_of (sys_table \<sigma>') i = Some r"
  using run_terminal [OF assms(2) _ assms(3,4)] reachable_inv [OF assms(1)] by simp

theorem outbox_terminal_is_final_witness:
  "\<exists>r. row_of (sys_table demo5) 1 = Some r \<and> IsTerminal (row_status r)
    \<and> row_of (sys_table (demo_fetch 300 (demo_publish 5 demo5))) 1 = Some r"
proof -
  from demo_tables(9) obtain r where r: "row_of (sys_table demo5) 1 = Some r" "IsTerminal (row_status r)"
    by auto
  have "fresh_tokens (demo_env (sys_clock (demo_publish 5 demo5)) 300) (demo_publish 5 demo5)"
    by code_simp
  then have "outbox_step demo_store True (demo_publish 5 demo5) (demo_fetch 300 (demo_publish 5 demo5))"
    by (rule demo_fetch_step)
  moreover have "outbox_step demo_store True demo5 (demo_publish 5 demo5)"
    by (rule demo_publish_step) simp
  ultimately have "outbox_run demo_store True demo5 (demo_fetch 300 (demo_publish 5 demo5))"
    by (meson rtranclp.rtrancl_refl rtranclp.rtrancl_into_rtrancl)
  with r outbox_terminal_is_final [OF demo_runs(3) _ r] show ?thesis by blast
qed

text \<open>C14. No event is lost: whatever marks (with or without a token), fetches and inserts follow, the
  row of an event stays in the table with the same id, aggregate, type, payload, retry limit and
  creation time, and its retry count never goes down.\<close>

theorem outbox_no_event_lost:
  assumes "outbox_run s fenced (outbox_init t0) \<sigma>" and "outbox_run s fenced \<sigma> \<sigma>'"
    and "row_of (sys_table \<sigma>) i = Some r"
  shows "\<exists>r'. row_of (sys_table \<sigma>') i = Some r' \<and> row_core r' = row_core r
    \<and> row_retry_count r \<le> row_retry_count r'"
  using run_row [OF assms(2) _ assms(3)] reachable_inv [OF assms(1)] by simp

theorem outbox_no_event_lost_witness:
  "\<exists>r r'. row_of (sys_table demo1) 1 = Some r \<and> row_of (sys_table demo5) 1 = Some r'
    \<and> row_core r' = row_core r"
proof -
  have "map_option row_status (row_of (sys_table demo1) 1) = Some StatusPending" by code_simp
  then obtain r where r: "row_of (sys_table demo1) 1 = Some r" by auto
  from outbox_no_event_lost [OF demo_runs(1) demo_runs(4) r] r show ?thesis by blast
qed

section \<open>Leases\<close>

text \<open>C1. Fencing: once the lease \<open>k\<close> of an event has been replaced by a later lease \<open>k'\<close>, a worker
  that still holds \<open>k\<close> can neither publish nor fail the event.  Its mark leaves the table as it was
  whatever the database does with the statement, and where the statement goes through it gets
  \<open>ErrLeaseExpired\<close>.\<close>

theorem outbox_stale_token_rejected:
  assumes "outbox_run s fenced (outbox_init t0) \<sigma>"
    and "sys_grants \<sigma> = newer @ (i, k') # older" and "(i, k) \<in> set older" and "k \<noteq> nil_uuid"
  shows "snd (MarkPublished s fault now i [k] (sys_table \<sigma>)) = sys_table \<sigma>
    \<and> snd (MarkFailed s fault i le nr ff [k] (sys_table \<sigma>)) = sys_table \<sigma>
    \<and> (store_guard s = None \<longrightarrow>
         fst (MarkPublished s DbOk now i [k] (sys_table \<sigma>)) = Some (Sentinel ErrLeaseExpired)
         \<and> fst (MarkFailed s DbOk i le nr ff [k] (sys_table \<sigma>)) = Some (Sentinel ErrLeaseExpired))"
proof -
  have ok: "table_ok (sys_table \<sigma>)" "grants_ok \<sigma>" using reachable_inv [OF assms(1)] by simp_all
  have none: "\<not> (\<exists>r\<in>set (sys_table \<sigma>). mark_matches i (fence_token [k]) r)"
    using stale_mark [OF ok(2) assms(2,3)] ok(1) assms(4)
    by (auto simp: mark_matches_def fence_token_def table_ok_def dest: row_of_distinct)
  have "snd (MarkPublished s fault now i [k] (sys_table \<sigma>)) = sys_table \<sigma>"
    using MarkPublished_table [OF prod.collapse [symmetric]] marked_none [OF none] by metis
  moreover have "snd (MarkFailed s fault i le nr ff [k] (sys_table \<sigma>)) = sys_table \<sigma>"
    using MarkFailed_table [OF prod.collapse [symmetric]] marked_none [OF none] by metis
  ultimately show ?thesis
    by (simp add: MarkPublished_def MarkFailed_def mark_stale [OF none] mark_result_def Let_def)
qed

theorem outbox_stale_token_rejected_witness:
  "fst (MarkPublished demo_store DbOk 0 1 [101] (sys_table demo4)) = Some (Sentinel ErrLeaseExpired)
    \<and> snd (MarkPublished demo_store DbOk 0 1 [101] (sys_table demo4)) = sys_table demo4"
  using outbox_stale_token_rejected [OF demo_runs(2), of "[]" 1 201 "[(1, 101)]" 101 DbOk 0]
  by (simp add: demo_tables(7) demo_guard)

lemma batch_event:
  assumes "FetchPendingBatch s env limit t = (Inr evs, t')" and "arrange_law env" and "table_ok t"
    and "ev \<in> set evs"
  obtains r where
    "r \<in> set (sql_pending (fe_now env) (nat (if limit \<le> 0 then 50 else limit)) (fe_locked env) t)"
    "ev = event_of_row (lease_row (fe_now env) (lease_secs s) (fe_token env) r)"
proof -
  from batch_mset [OF assms(1-3)] have "set evs = set (map (\<lambda>r. event_of_row (lease_row (fe_now env)
      (lease_secs s) (fe_token env) r))
    (sql_pending (fe_now env) (nat (if limit \<le> 0 then 50 else limit)) (fe_locked env) t))"
    by (metis set_mset_mset)
  with assms(4) that show ?thesis by auto
qed

lemma ID_leased_event [simp]: "ID (event_of_row (lease_row n d k r)) = row_id r"
  by (simp add: event_of_row_def)

lemma batch_ids:
  assumes "FetchPendingBatch s env limit t = (Inr evs, t')" and "arrange_law env" and "table_ok t"
  shows "ID ` set evs = pending_ids s env limit t"
  using arg_cong [OF batch_mset [OF assms], of "\<lambda>M. ID ` set_mset M"]
  by (simp add: image_image pending_ids_def)

text \<open>C4. Mutual exclusion of leases: an event whose lease has not expired at the time of a fetch is
  not handed out by that fetch, and its row is untouched.\<close>

theorem outbox_live_lease_is_exclusive:
  assumes "table_ok t" and "FetchPendingBatch s env limit t = (res, t')" and "arrange_law env"
    and "row_of t i = Some r" and "row_locked_until r = Some u" and "fe_now env \<le> u"
  shows "row_of t' i = Some r \<and> (\<forall>evs. res = Inr evs \<longrightarrow> i \<notin> ID ` set evs)"
proof -
  have d: "distinct (map row_id t)" using assms(1) by (simp add: table_ok_def)
  have st: "row_status r = StatusProcessing"
    using table_ok_row [OF assms(1,4)] assms(5) by (auto simp: row_ok_def)
  then have nf: "\<not> fetchable (fe_now env) r"
    using assms(5,6) by (auto simp: fetchable_def status_defs)
  then have np: "i \<notin> pending_ids s env limit t"
    using pending_fetchable [OF d assms(4)] by blast
  then have "row_of t' i = Some r"
    using fetch_table [OF assms(2)] assms(4) by (auto simp: row_of_leased dest: row_of_SomeD)
  moreover have "i \<notin> ID ` set evs" if "res = Inr evs" for evs
    using batch_ids [OF _ assms(3,1)] assms(2) np that by blast
  ultimately show ?thesis by blast
qed

theorem outbox_live_lease_is_exclusive_witness:
  "row_of (snd (FetchPendingBatch demo_store (demo_env 20 300) 10 (sys_table demo2))) 1
    = row_of (sys_table demo2) 1 \<and> row_of (sys_table demo2) 1 \<noteq> None"
proof -
  have "map_option row_locked_until (row_of (sys_table demo2) 1) = Some (Some 60000000010)"
    by code_simp
  then obtain r where r: "row_of (sys_table demo2) 1 = Some r"
    "row_locked_until r = Some 60000000010" by auto
  have "table_ok (sys_table demo2)" by code_simp
  from outbox_live_lease_is_exclusive [OF this _ _ r]
    prod.collapse [of "FetchPendingBatch demo_store (demo_env 20 300) 10 (sys_table demo2)"]
    demo_arrange [of 20 300]
  have "fe_now (demo_env 20 300) \<le> 60000000010 \<longrightarrow>
    row_of (snd (FetchPendingBatch demo_store (demo_env 20 300) 10 (sys_table demo2))) 1 = Some r"
    by metis
  then show ?thesis using r by (simp add: demo_env_def)
qed



text \<open>C25. Crash recovery: an event whose worker vanished is handed out again.  Once the lease of a
  PROCESSING event has expired and its retry time has come, a fetch whose limit covers the table
  returns it under a new lease, unless another transaction holds its row locked at that moment.\<close>

theorem outbox_expired_lease_recovered:
  assumes "table_ok t" and "store_guard s = None" and "fe_fault env = FetchOk" and "arrange_law env"
    and "row_of t i = Some r" and "row_status r = StatusProcessing"
    and "row_locked_until r = Some u" and "u < fe_now env" and "row_next_retry_at r \<le> fe_now env"
    and "\<not> fe_locked env i" and "0 < limit" and "int (length t) \<le> limit"
  shows "\<exists>evs. fst (FetchPendingBatch s env limit t) = Inr evs
    \<and> event_of_row (lease_row (fe_now env) (lease_secs s) (fe_token env) r) \<in> set evs"
proof -
  obtain evs where evs: "FetchPendingBatch s env limit t = (Inr evs, leased s env limit t)"
    using fetch_succeeds [OF assms(2,3)] by blast
  have r: "r \<in> set t" "row_id r = i" using row_of_SomeD [OF assms(5)] by simp_all
  have "fetchable (fe_now env) r"
    using assms(6-9) by (simp add: fetchable_def StatusProcessing_def)
  with r assms(10-12) have "r \<in> set (sql_pending (fe_now env) (nat limit) (fe_locked env) t)"
    using sql_pending_all [of t "nat limit" "fe_now env" "fe_locked env"] by simp
  with arg_cong [OF batch_mset [OF evs assms(4,1)], of set_mset] assms(11) evs
  show ?thesis by auto
qed

theorem outbox_expired_lease_recovered_witness:
  "\<exists>evs. fst (FetchPendingBatch demo_store (demo_env (sys_clock demo3) 200) 10 (sys_table demo3)) = Inr evs
    \<and> evs \<noteq> []"
proof -
  have "map_option row_status (row_of (sys_table demo3) 1) = Some StatusProcessing"
    "map_option row_locked_until (row_of (sys_table demo3) 1) = Some (Some 60000000010)"
    "map_option row_next_retry_at (row_of (sys_table demo3) 1) = Some 10"
    by code_simp+
  then obtain r where r: "row_of (sys_table demo3) 1 = Some r" "row_status r = StatusProcessing"
    "row_locked_until r = Some 60000000010" "row_next_retry_at r = 10" by auto
  have ok: "table_ok (sys_table demo3)" by code_simp
  have len: "length (sys_table demo3) = 1"
    using arg_cong [OF demo_tables(3), of length] by simp
  from outbox_expired_lease_recovered [OF ok demo_guard _ demo_arrange r(1-3), of "sys_clock demo3" 200 10]
  have "\<exists>evs. fst (FetchPendingBatch demo_store (demo_env (sys_clock demo3) 200) 10 (sys_table demo3)) = Inr evs
    \<and> event_of_row (lease_row (fe_now (demo_env (sys_clock demo3) 200)) (lease_secs demo_store)
        (fe_token (demo_env (sys_clock demo3) 200)) r) \<in> set evs"
    by (simp add: demo_env_def demo_tables(6) r(4) len)
  then show ?thesis by (metis empty_iff empty_set)
qed

text \<open>\<open>MarkPublished\<close> on every branch, for a well-formed table and a statement the database
  accepts: with an invalid store it returns the store's error and does nothing; otherwise it returns
  nil exactly when the event exists and (if a non-nil token is given) is leased under that token, and
  then it publishes that row and no other; in all other cases it returns \<open>ErrLeaseExpired\<close> and does
  nothing.  The lease expiry is not consulted: the fence is the token alone.\<close>

theorem outbox_MarkPublished_spec:
  assumes "table_ok t"
  shows "MarkPublished s DbOk now i lt t =
    (case store_guard s of
       Some e \<Rightarrow> (Some e, t)
     | None \<Rightarrow> if \<exists>r. row_of t i = Some r \<and> (fence_token lt = None \<or> row_lease_token r = fence_token lt)
               then (None, map (\<lambda>r. if row_id r = i then publish_row now r else r) t)
               else (Some (Sentinel ErrLeaseExpired), t))"
proof (cases "store_guard s")
  case None
  have d: "distinct (map row_id t)" using assms by (simp add: table_ok_def)
  have iff: "(\<exists>r\<in>set t. mark_matches i (fence_token lt) r) \<longleftrightarrow>
      (\<exists>r. row_of t i = Some r \<and> (fence_token lt = None \<or> row_lease_token r = fence_token lt))"
    using row_of_distinct [OF d] row_of_SomeD
    by (fastforce simp: mark_matches_def split: option.splits)
  show ?thesis
  proof (cases "\<exists>r\<in>set t. mark_matches i (fence_token lt) r")
    case True
    then obtain r where r: "r \<in> set t" "mark_matches i (fence_token lt) r" by blast
    then have "mark_matches i (fence_token lt) x \<longleftrightarrow> row_id x = i" if "x \<in> set t" for x
      using distinct_map_same_key [OF d that r(1)] by (auto simp: mark_matches_def)
    then have "map (\<lambda>r. if mark_matches i (fence_token lt) r then publish_row now r else r) t
      = map (\<lambda>r. if row_id r = i then publish_row now r else r) t" by (intro map_cong) auto
    moreover have "filter (mark_matches i (fence_token lt)) t \<noteq> []" using r by (auto simp: filter_empty_conv)
    ultimately show ?thesis
      using None True unfolding iff
      by (simp add: MarkPublished_def db_exec_def sql_update_def mark_result_def)
  next
    case False
    then show ?thesis
      using None False unfolding iff
      by (simp add: MarkPublished_def mark_stale [OF False] mark_result_def)
  qed
qed (simp add: MarkPublished_def)

theorem outbox_MarkPublished_spec_witness:
  "fst (MarkPublished demo_store DbOk 99999999999999 1 [201] (sys_table demo4)) = None"
proof -
  have ok: "table_ok (sys_table demo4)" by code_simp
  have tok: "map_option row_lease_token (row_of (sys_table demo4) 1) = Some (Some 201)" by code_simp
  show ?thesis
    using tok unfolding outbox_MarkPublished_spec [OF ok] demo_guard
    by (auto simp: fence_token_def)
qed

end
