(* ===== verification/Outbox_Retry.thy ===== *)
theory Outbox_Retry
  imports Go_Errors
begin

text \<open>
  \<^verbatim>\<open>outbox/retry.go\<close>: the full-jitter backoff on 64-bit durations, and the classification of
  errors as retryable or not.  \<open>rand.Int64N\<close> is a parameter: any function whose value at a positive
  \<open>n\<close> lies in \<open>[0, n)\<close>, as \<open>math/rand/v2\<close> documents.
\<close>

section \<open>BackoffWithJitter\<close>

text \<open>
  Lines 19 to 36: the clamps of \<open>attempt\<close>, the shift, the overflow test against the quotient (both
  operands positive, so Go's truncating division is \<open>div\<close>), the product at 64 bits, and the cap.
\<close>

definition backoff_ceiling :: "int \<Rightarrow> duration \<Rightarrow> duration \<Rightarrow> duration" where
  "backoff_ceiling attempt baseDelay maxDelay =
     (let attempt = (if attempt < 0 then 0 else attempt);
          attempt = (if attempt > 30 then 30 else attempt);
          multiplier = (push_bit (nat attempt) 1 :: int64);
          ceiling = (if sint multiplier > MaxInt64 div sint baseDelay
                     then word_of_int MaxInt64 else baseDelay * multiplier)
      in if sint maxDelay > 0 \<and> sint ceiling > sint maxDelay then maxDelay else ceiling)"

text \<open>The argument of \<open>rand.Int64N\<close>: one more than the ceiling, unless that would overflow.\<close>

definition jitter_bound :: "duration \<Rightarrow> int64" where
  "jitter_bound ceiling = (if sint ceiling = MaxInt64 then word_of_int MaxInt64 else ceiling + 1)"

definition BackoffWithJitter :: "(int64 \<Rightarrow> int64) \<Rightarrow> int \<Rightarrow> duration \<Rightarrow> duration \<Rightarrow> duration" where
  "BackoffWithJitter Int64N attempt baseDelay maxDelay =
     (if sint baseDelay \<le> 0 then 0
      else let ceiling = backoff_ceiling attempt baseDelay maxDelay
           in if sint ceiling \<le> 0 then 0 else Int64N (jitter_bound ceiling))"

definition int64n_law :: "(int64 \<Rightarrow> int64) \<Rightarrow> bool" where
  "int64n_law Int64N \<longleftrightarrow> (\<forall>n. 0 < sint n \<longrightarrow> 0 \<le> sint (Int64N n) \<and> sint (Int64N n) < sint n)"

text \<open>The ceiling as the documentation states it, over unbounded integers, saturated at the largest
  duration.\<close>

definition ceiling_spec :: "int \<Rightarrow> int \<Rightarrow> int \<Rightarrow> int" where
  "ceiling_spec attempt base maxd =
     (let c = min MaxInt64 (base * 2 ^ nat (max 0 (min 30 attempt)))
      in if maxd > 0 then min c maxd else c)"

lemma sint_push_bit_30: "n \<le> 30 \<Longrightarrow> sint (push_bit n 1 :: int64) = 2 ^ n"
proof -
  assume n: "n \<le> 30"
  then have "(2::int) ^ n \<le> 2 ^ 30" by (intro power_increasing) auto
  then have "sint (word_of_int (2 ^ n) :: int64) = 2 ^ n"
    by (intro sint_of_int64) (auto simp: MinInt64_def MaxInt64_def order.trans [OF _ zero_le_power])
  then show ?thesis by (simp add: push_bit_eq_mult)
qed

lemma sint_mult_int64:
  fixes a b :: int64
  assumes "0 \<le> sint a * sint b" and "sint a * sint b \<le> MaxInt64"
  shows "sint (a * b) = sint a * sint b"
proof -
  have "a * b = word_of_int (sint a * sint b)" by simp
  then show ?thesis
    using assms sint_of_int64 [of "sint a * sint b"] by (simp add: MinInt64_def)
qed

lemma quotient_guard:
  fixes b m :: int
  assumes b: "0 < b"
  shows "(MaxInt64 div b < m) = (MaxInt64 < b * m)"
proof
  assume "MaxInt64 div b < m"
  then have "MaxInt64 div b + 1 \<le> m" by simp
  then have "b * (MaxInt64 div b + 1) \<le> b * m" using b by simp
  moreover have "MaxInt64 < b * (MaxInt64 div b + 1)"
    using pos_mod_bound [OF b, of MaxInt64] mult_div_mod_eq [of b MaxInt64]
    unfolding distrib_left by linarith
  ultimately show "MaxInt64 < b * m" by simp
next
  assume "MaxInt64 < b * m"
  also have "MaxInt64 = b * (MaxInt64 div b) + MaxInt64 mod b" by simp
  finally have "b * (MaxInt64 div b) < b * m"
    using pos_mod_sign [OF b, of MaxInt64] by linarith
  then show "MaxInt64 div b < m" using b by simp
qed

lemma backoff_ceiling_spec:
  assumes base: "0 < sint b"
  shows "sint (backoff_ceiling a b m) = ceiling_spec a (sint b) (sint m)"
proof -
  define k where "k = nat (max 0 (min 30 a))"
  have k: "nat (if (if a < 0 then 0 else a) > 30 then 30 else if a < 0 then 0 else a) = k"
    by (auto simp: k_def)
  define mult where "mult = (push_bit k 1 :: int64)"
  have mult: "sint mult = 2 ^ k" unfolding mult_def by (rule sint_push_bit_30) (simp add: k_def)
  define c where "c = (if sint mult > MaxInt64 div sint b then word_of_int MaxInt64 else b * mult)"
  have "sint c = min MaxInt64 (sint b * 2 ^ k)"
  proof (cases "sint b * 2 ^ k > MaxInt64")
    case True
    then have "c = word_of_int MaxInt64"
      unfolding c_def quotient_guard [OF base] mult by simp
    with True show ?thesis
      by (simp add: sint_of_int64 MinInt64_def MaxInt64_def)
  next
    case False
    then have "sint (b * mult) = sint b * 2 ^ k"
      using base sint_mult_int64 [of b mult] by (simp add: mult)
    with False show ?thesis
      by (simp add: c_def quotient_guard [OF base] mult)
  qed
  moreover have "backoff_ceiling a b m = (if sint m > 0 \<and> sint c > sint m then m else c)"
    unfolding backoff_ceiling_def Let_def k c_def mult_def ..
  ultimately show ?thesis by (auto simp: ceiling_spec_def Let_def k_def [symmetric])
qed

lemma ceiling_spec_pos: "0 < b \<Longrightarrow> 0 < ceiling_spec a b m"
  by (auto simp: ceiling_spec_def Let_def MaxInt64_def)

lemma jitter_bound_pos:
  assumes "0 < sint c"
  shows "0 < sint (jitter_bound c) \<and> sint (jitter_bound c) \<le> sint c + 1"
proof (cases "sint c = MaxInt64")
  case True
  then show ?thesis
    by (simp add: jitter_bound_def sint_of_int64 MinInt64_def MaxInt64_def)
next
  case False
  with int64_range [of c] have le: "sint c + 1 \<le> MaxInt64" by simp
  have "c + 1 = word_of_int (sint c + 1)" by simp
  then have "sint (c + 1) = sint c + 1"
    using le assms sint_of_int64 [of "sint c + 1"] by (simp add: MinInt64_def)
  with False assms show ?thesis by (simp add: jitter_bound_def)
qed

lemma backoff_bounds:
  assumes "int64n_law Int64N"
  shows "0 \<le> sint (BackoffWithJitter Int64N a b m) \<and>
    sint (BackoffWithJitter Int64N a b m) \<le> (if sint b \<le> 0 then 0 else ceiling_spec a (sint b) (sint m))"
proof (cases "sint b \<le> 0")
  case False
  define c where "c = backoff_ceiling a b m"
  from False have c: "sint c = ceiling_spec a (sint b) (sint m)" "0 < sint c"
    by (simp_all add: c_def backoff_ceiling_spec ceiling_spec_pos)
  have "0 \<le> sint (Int64N (jitter_bound c)) \<and> sint (Int64N (jitter_bound c)) < sint (jitter_bound c)"
    using assms jitter_bound_pos [OF c(2)] by (simp add: int64n_law_def)
  with jitter_bound_pos [OF c(2)] False c show ?thesis
    by (simp add: BackoffWithJitter_def Let_def c_def [symmetric])
qed (simp add: BackoffWithJitter_def)

lemma ceiling_spec_le_max: "0 < m \<Longrightarrow> ceiling_spec a b m \<le> m"
  by (simp add: ceiling_spec_def Let_def)

lemma backoff_le_max:
  assumes "int64n_law Int64N" and "0 < sint m"
  shows "sint (BackoffWithJitter Int64N a b m) \<le> sint m"
  using backoff_bounds [OF assms(1), of a b m] ceiling_spec_le_max [OF assms(2), of a "sint b"]
    assms(2) by (simp split: if_splits)

lemma cap_mono:
  fixes x y c m :: int
  shows "x \<le> y \<Longrightarrow>
    (if m > 0 then min (min c x) m else min c x) \<le> (if m > 0 then min (min c y) m else min c y)"
  by (simp add: min_def)

lemma ceiling_spec_mono:
  assumes "a \<le> a'" and "0 \<le> b"
  shows "ceiling_spec a b m \<le> ceiling_spec a' b m"
proof -
  have "nat (max 0 (min 30 a)) \<le> nat (max 0 (min 30 a'))" using assms(1) by simp
  then have "(2::int) ^ nat (max 0 (min 30 a)) \<le> 2 ^ nat (max 0 (min 30 a'))"
    by (intro power_increasing) auto
  then have "b * 2 ^ nat (max 0 (min 30 a)) \<le> b * 2 ^ nat (max 0 (min 30 a'))"
    using assms(2) by (rule mult_left_mono)
  then show ?thesis unfolding ceiling_spec_def Let_def by (rule cap_mono)
qed

lemma int64n_law_pred: "int64n_law (\<lambda>n. n - 1)"
proof -
  have "sint (n - 1) = sint n - 1" if "0 < sint n" for n :: int64
  proof -
    have "n - 1 = word_of_int (sint n - 1)" by simp
    then show ?thesis
      using that int64_range [of n] sint_of_int64 [of "sint n - 1"] by (simp add: MinInt64_def)
  qed
  then show ?thesis by (simp add: int64n_law_def)
qed

section \<open>Retryable and non-retryable errors\<close>

definition ErrPoisonPill :: goerr where
  "ErrPoisonPill = Wrapf [] (Sentinel ErrNonRetryable) '': poison pill event''"

definition MarkNonRetryable :: "goerr option \<Rightarrow> goerr option" where
  "MarkNonRetryable err = (case err of None \<Rightarrow> None | Some _ \<Rightarrow> Some (NonRetryableError err))"

definition IsNonRetryable :: "goerr option \<Rightarrow> bool" where
  "IsNonRetryable err =
     (case err of None \<Rightarrow> False
      | Some e \<Rightarrow> if errors_is e ErrNonRetryable then True else errors_as_nonretryable e)"

lemma IsNonRetryable_iff: "IsNonRetryable (Some e) \<longleftrightarrow> errors_is e ErrNonRetryable"
  by (auto simp: IsNonRetryable_def errors_as_nonretryable_is)

lemma IsNonRetryable_None [simp]: "\<not> IsNonRetryable None"
  by (simp add: IsNonRetryable_def)

lemma IsNonRetryable_simps [simp]:
  "IsNonRetryable (Some (Sentinel s)) \<longleftrightarrow> s = ErrNonRetryable"
  "IsNonRetryable (Some (Errorf m)) \<longleftrightarrow> False"
  "IsNonRetryable (Some (Wrapf p e q)) \<longleftrightarrow> IsNonRetryable (Some e)"
  "IsNonRetryable (Some (Joined es)) \<longleftrightarrow> (\<exists>e\<in>set es. IsNonRetryable (Some e))"
  "IsNonRetryable (Some (NonRetryableError o1))"
  by (auto simp: IsNonRetryable_iff) (cases o1; simp add: IsNonRetryable_iff)

lemma IsNonRetryable_poison [simp]: "IsNonRetryable (Some ErrPoisonPill)"
  by (simp add: ErrPoisonPill_def)

end
