(* ===== verification/Outbox_Relay.thy ===== *)
theory Outbox_Relay
  imports Outbox_Event Outbox_Retry
begin

text \<open>
  \<^verbatim>\<open>outbox/relay.go\<close>: the relay's configuration, one batch, and the worker loop.  The relay talks to
  a \<open>Store\<close> and a \<open>Publisher\<close> through interfaces; they are records of state-passing functions over a
  world type, as are the runtime services the code calls (the clock, the random source, the context).
  Logging is left out.  The variadic lease token of the two marks is a list.
\<close>

section \<open>Interfaces\<close>

record 'w Store =
  st_FetchPendingBatch :: "int \<Rightarrow> 'w \<Rightarrow> (goerr + OutboxEvent list) \<times> 'w"
  st_MarkPublished :: "uuid \<Rightarrow> uuid list \<Rightarrow> 'w \<Rightarrow> goerr option \<times> 'w"
  st_MarkFailed :: "uuid \<Rightarrow> string \<Rightarrow> gotime \<Rightarrow> bool \<Rightarrow> uuid list \<Rightarrow> 'w \<Rightarrow> goerr option \<times> 'w"

text \<open>What a call of \<open>Publish\<close> does: it returns nil or an error, or it panics with a value that
  prints as the given string.  Its context is the relay's, bounded by the publish timeout.\<close>

datatype pub_outcome = PubNil | PubErr goerr | PubPanic string

type_synonym 'w Publisher = "duration \<Rightarrow> OutboxEvent \<Rightarrow> 'w \<Rightarrow> pub_outcome \<times> 'w"

record 'w Runtime =
  rt_now :: "'w \<Rightarrow> gotime \<times> 'w"
  rt_rand :: "'w \<Rightarrow> (int64 \<Rightarrow> int64) \<times> 'w"
  rt_ctx_err :: "'w \<Rightarrow> goerr option \<times> 'w"
  rt_uuid_string :: "uuid \<Rightarrow> string"
  rt_duration_string :: "duration \<Rightarrow> string"

record 'w RelayConfig =
  BatchSize :: int
  PollInterval :: duration
  PublishTimeout :: duration
  LeaseDuration :: duration
  BackoffBase :: duration
  BackoffMax :: duration
  Concurrency :: int
  cfg_Store :: "'w Store option"
  cfg_Publisher :: "'w Publisher option"

section \<open>Configuration\<close>

text \<open>The defaults of \<open>validateConfig\<close>, in its order; the lease check stands between them.\<close>

definition validateConfig ::
  "(duration \<Rightarrow> string) \<Rightarrow> 'w RelayConfig \<Rightarrow> goerr + 'w RelayConfig" where
  "validateConfig show_duration cfg =
     (if cfg_Store cfg = None then Inl (Sentinel ErrMissingStore)
      else if cfg_Publisher cfg = None then Inl (Sentinel ErrMissingPublisher)
      else
        let cfg = (if BatchSize cfg \<le> 0 then cfg\<lparr>BatchSize := 50\<rparr> else cfg);
            cfg = (if sint (PollInterval cfg) \<le> 0 then cfg\<lparr>PollInterval := 1 * Second\<rparr> else cfg);
            cfg = (if sint (PublishTimeout cfg) \<le> 0 then cfg\<lparr>PublishTimeout := 5 * Second\<rparr> else cfg);
            cfg = (if sint (LeaseDuration cfg) \<le> 0 then cfg\<lparr>LeaseDuration := 60 * Second\<rparr> else cfg)
        in if sint (LeaseDuration cfg) < sint (5 * Second)
              \<or> sint (LeaseDuration cfg) \<le> sint (PublishTimeout cfg)
           then Inl (Wrapf [] (Sentinel ErrInvalidLeaseDuration)
                  ('': lease_duration='' @ show_duration (LeaseDuration cfg)
                    @ '', publish_timeout='' @ show_duration (PublishTimeout cfg)))
           else
             let cfg = (if sint (BackoffBase cfg) \<le> 0 then cfg\<lparr>BackoffBase := 2 * Second\<rparr> else cfg);
                 cfg = (if sint (BackoffMax cfg) \<le> 0 then cfg\<lparr>BackoffMax := 1 * Minute\<rparr> else cfg);
                 cfg = (if sint (BackoffMax cfg) < sint (BackoffBase cfg)
                        then cfg\<lparr>BackoffMax := BackoffBase cfg\<rparr> else cfg);
                 cfg = (if Concurrency cfg \<le> 0 then cfg\<lparr>Concurrency := 1\<rparr> else cfg)
             in Inr cfg)"

definition NewRelay :: "(duration \<Rightarrow> string) \<Rightarrow> 'w RelayConfig \<Rightarrow> goerr + 'w RelayConfig" where
  "NewRelay show_duration cfg =
     (case validateConfig show_duration cfg of Inl err \<Rightarrow> Inl err | Inr cfg' \<Rightarrow> Inr cfg')"

section \<open>One event\<close>

definition publishWithRecovery ::
  "'w RelayConfig \<Rightarrow> OutboxEvent \<Rightarrow> 'w \<Rightarrow> goerr option \<times> 'w" where
  "publishWithRecovery cfg event w =
     (case the (cfg_Publisher cfg) (PublishTimeout cfg) event w of
        (PubNil, w') \<Rightarrow> (None, w')
      | (PubErr e, w') \<Rightarrow> (Some e, w')
      | (PubPanic v, w') \<Rightarrow> (Some (Errorf (''publisher panic: '' @ v)), w'))"

text \<open>The arguments of a mark: the event's token, if it has one.\<close>

definition token_args :: "OutboxEvent \<Rightarrow> uuid list" where
  "token_args event = (case LeaseToken event of Some k \<Rightarrow> [k] | None \<Rightarrow> [])"

definition final_fail :: "OutboxEvent \<Rightarrow> goerr \<Rightarrow> bool" where
  "final_fail event pubErr \<longleftrightarrow>
     RetryCount event + 1 \<ge> MaxRetries event \<or> IsNonRetryable (Some pubErr)"

definition retry_max_delay :: "'w RelayConfig \<Rightarrow> duration" where
  "retry_max_delay cfg =
     (let maxDelay = (if sint (BackoffMax cfg) \<le> 0 then 1 * Minute else BackoffMax cfg)
      in if sint maxDelay < sint (BackoffBase cfg) then BackoffBase cfg else maxDelay)"

definition handlePublishFailure ::
  "'w RelayConfig \<Rightarrow> 'w Runtime \<Rightarrow> OutboxEvent \<Rightarrow> goerr \<Rightarrow> 'w \<Rightarrow> goerr option \<times> 'w" where
  "handlePublishFailure cfg rt event pubErr w =
     (let (int64n, w1) = rt_rand rt w;
          backoff = BackoffWithJitter int64n (RetryCount event) (BackoffBase cfg) (retry_max_delay cfg);
          (now, w2) = rt_now rt w1
      in st_MarkFailed (the (cfg_Store cfg)) (ID event) (err_msg pubErr) (time_add now backoff)
           (final_fail event pubErr) (token_args event) w2)"

text \<open>Line 164: \<open>time.Until(*event.LockedUntil) <= 0\<close>, evaluated only when there is an expiry.\<close>

definition lease_expired :: "'w Runtime \<Rightarrow> OutboxEvent \<Rightarrow> 'w \<Rightarrow> bool \<times> 'w" where
  "lease_expired rt event w =
     (case LockedUntil event of
        None \<Rightarrow> (False, w)
      | Some u \<Rightarrow> let (now, w') = rt_now rt w in (sint (time_sub u now) \<le> 0, w'))"

section \<open>One batch\<close>

text \<open>
  The body of the loop of \<open>ProcessBatch\<close>: it returns from the function or goes on with a new
  \<open>processedCount\<close> and \<open>batchErr\<close>.  A done context and a failed publication mark return at once,
  and the errors collected so far in \<open>batchErr\<close> are not returned then.
\<close>

datatype loop_result = Return int "goerr option" | Continue int "goerr option"

definition record_published ::
  "'w RelayConfig \<Rightarrow> 'w Runtime \<Rightarrow> OutboxEvent \<Rightarrow> int \<Rightarrow> goerr option \<Rightarrow> 'w \<Rightarrow> loop_result \<times> 'w" where
  "record_published cfg rt event processedCount batchErr w =
     (case st_MarkPublished (the (cfg_Store cfg)) (ID event) (token_args event) w of
        (Some markErr, w') \<Rightarrow>
          (Return processedCount
             (Some (Wrapf (''failed to mark outbox event '' @ rt_uuid_string rt (ID event)
                      @ '' as published: '') markErr [])), w')
      | (None, w') \<Rightarrow> (Continue (processedCount + 1) batchErr, w'))"

definition record_failure ::
  "'w RelayConfig \<Rightarrow> 'w Runtime \<Rightarrow> OutboxEvent \<Rightarrow> goerr \<Rightarrow> int \<Rightarrow> goerr option \<Rightarrow> 'w
    \<Rightarrow> loop_result \<times> 'w" where
  "record_failure cfg rt event pubErr processedCount batchErr w =
     (case handlePublishFailure cfg rt event pubErr w of
        (Some failErr, w') \<Rightarrow>
          (Continue processedCount
             (errors_join [batchErr,
                Some (Wrapf (''failed to record failure state for outbox event ''
                        @ rt_uuid_string rt (ID event) @ '': '') failErr [])]), w')
      | (None, w') \<Rightarrow> (Continue (processedCount + 1) batchErr, w'))"

definition process_event ::
  "'w RelayConfig \<Rightarrow> 'w Runtime \<Rightarrow> OutboxEvent \<Rightarrow> int \<Rightarrow> goerr option \<Rightarrow> 'w \<Rightarrow> loop_result \<times> 'w" where
  "process_event cfg rt event processedCount batchErr w =
     (case rt_ctx_err rt w of
        (Some err, w1) \<Rightarrow> (Return processedCount (Some err), w1)
      | (None, w1) \<Rightarrow>
          (case lease_expired rt event w1 of
             (True, w2) \<Rightarrow> (Continue processedCount batchErr, w2)
           | (False, w2) \<Rightarrow>
               (case publishWithRecovery cfg event w2 of
                  (None, w3) \<Rightarrow> record_published cfg rt event processedCount batchErr w3
                | (Some pubErr, w3) \<Rightarrow>
                    record_failure cfg rt event pubErr processedCount batchErr w3)))"

fun process_events ::
  "'w RelayConfig \<Rightarrow> 'w Runtime \<Rightarrow> OutboxEvent list \<Rightarrow> int \<Rightarrow> goerr option \<Rightarrow> 'w
    \<Rightarrow> (int \<times> goerr option) \<times> 'w" where
  "process_events cfg rt [] processedCount batchErr w = ((processedCount, batchErr), w)"
| "process_events cfg rt (event # events) processedCount batchErr w =
     (case process_event cfg rt event processedCount batchErr w of
        (Return n err, w') \<Rightarrow> ((n, err), w')
      | (Continue n err, w') \<Rightarrow> process_events cfg rt events n err w')"

definition ProcessBatch :: "'w RelayConfig \<Rightarrow> 'w Runtime \<Rightarrow> 'w \<Rightarrow> (int \<times> goerr option) \<times> 'w" where
  "ProcessBatch cfg rt w =
     (case st_FetchPendingBatch (the (cfg_Store cfg)) (BatchSize cfg) w of
        (Inl err, w') \<Rightarrow> ((0, Some (Wrapf ''relay batch fetch failed: '' err [])), w')
      | (Inr events, w') \<Rightarrow>
          if length events = 0 then ((0, None), w') else process_events cfg rt events 0 None w')"

section \<open>The worker loop\<close>

text \<open>
  The inner loop of \<open>runWorker\<close>: as long as batches come back full, fetch again without waiting for
  the ticker.  The result says whether the worker returned because its context was done; \<open>None\<close> would
  be a loop that never ends.
\<close>

partial_function (option) drain ::
  "'w RelayConfig \<Rightarrow> 'w Runtime \<Rightarrow> int \<Rightarrow> 'w \<Rightarrow> (bool \<times> 'w) option" where
  "drain cfg rt count w =
     (if count = BatchSize cfg
      then (case rt_ctx_err rt w of
              (Some _, w1) \<Rightarrow> Some (True, w1)
            | (None, w1) \<Rightarrow>
                (case ProcessBatch cfg rt w1 of
                   ((count', Some _), w2) \<Rightarrow> Some (False, w2)
                 | ((count', None), w2) \<Rightarrow> drain cfg rt count' w2))
      else Some (False, w))"

text \<open>One iteration of the outer loop, for the case the \<open>select\<close> takes, and the worker over a sequence
  of such choices.\<close>

datatype select_case = CtxDone | TickerFired

fun runWorker :: "'w RelayConfig \<Rightarrow> 'w Runtime \<Rightarrow> select_case list \<Rightarrow> 'w \<Rightarrow> 'w option" where
  "runWorker cfg rt [] w = Some w"
| "runWorker cfg rt (CtxDone # cs) w = Some w"
| "runWorker cfg rt (TickerFired # cs) w =
     (case ProcessBatch cfg rt w of
        ((count, _), w1) \<Rightarrow>
          (case drain cfg rt count w1 of
             None \<Rightarrow> None
           | Some (True, w2) \<Rightarrow> Some w2
           | Some (False, w2) \<Rightarrow> runWorker cfg rt cs w2))"

section \<open>What the relay needs of its store and publisher\<close>

text \<open>
  The contract between the relay and its surroundings, stated through an abstract view: the status of
  each event and the list of publications the broker has acknowledged, newest first.  The clock, the
  random source and the context leave the view alone; a mark changes the status of its own event only;
  a failure mark never makes an event published; a publication is acknowledged exactly when
  \<open>Publish\<close> returns nil.  Nothing is promised about a mark that reports an error: it may have been
  applied.
\<close>

text \<open>Between two worlds, every event that became published was acknowledged in between.\<close>

definition ack_only ::
  "('w \<Rightarrow> bool) \<Rightarrow> ('w \<Rightarrow> uuid \<Rightarrow> Status option) \<Rightarrow> ('w \<Rightarrow> uuid list) \<Rightarrow> 'w \<Rightarrow> 'w \<Rightarrow> bool" where
  "ack_only ok status acked w w' \<longleftrightarrow> ok w' \<and> (\<exists>new. acked w' = new @ acked w
     \<and> (\<forall>i. status w' i = Some StatusPublished \<longrightarrow> status w i = Some StatusPublished \<or> i \<in> set new))"

lemma ack_only_refl [simp]: "ok w \<Longrightarrow> ack_only ok status acked w w"
  by (simp add: ack_only_def)

lemma ack_only_inv: "ack_only ok status acked w w' \<Longrightarrow> ok w'"
  by (simp add: ack_only_def)

lemma ack_only_trans:
  assumes "ack_only ok status acked w w1" and "ack_only ok status acked w1 w2"
  shows "ack_only ok status acked w w2"
proof -
  from assms obtain n1 n2 where n: "acked w1 = n1 @ acked w" "acked w2 = n2 @ acked w1"
    "\<forall>i. status w1 i = Some StatusPublished \<longrightarrow> status w i = Some StatusPublished \<or> i \<in> set n1"
    "\<forall>i. status w2 i = Some StatusPublished \<longrightarrow> status w1 i = Some StatusPublished \<or> i \<in> set n2"
    unfolding ack_only_def by blast
  then have "acked w2 = (n2 @ n1) @ acked w" "\<forall>i. status w2 i = Some StatusPublished \<longrightarrow>
      status w i = Some StatusPublished \<or> i \<in> set (n2 @ n1)" by auto
  with assms(2) show ?thesis unfolding ack_only_def by blast
qed

locale outbox_relay =
  fixes cfg :: "'w RelayConfig" and S :: "'w Store" and P :: "'w Publisher" and rt :: "'w Runtime"
    and inv :: "'w \<Rightarrow> bool" and status :: "'w \<Rightarrow> uuid \<Rightarrow> Status option" and acked :: "'w \<Rightarrow> uuid list"
  assumes store: "cfg_Store cfg = Some S"
    and publisher: "cfg_Publisher cfg = Some P"
    and now: "\<lbrakk>inv w; rt_now rt w = (t, w')\<rbrakk> \<Longrightarrow> inv w' \<and> status w' = status w \<and> acked w' = acked w"
    and rand: "\<lbrakk>inv w; rt_rand rt w = (f, w')\<rbrakk> \<Longrightarrow> inv w' \<and> status w' = status w \<and> acked w' = acked w"
    and ctx: "\<lbrakk>inv w; rt_ctx_err rt w = (e, w')\<rbrakk> \<Longrightarrow> inv w' \<and> status w' = status w \<and> acked w' = acked w"
    and fetch: "\<lbrakk>inv w; st_FetchPendingBatch S n w = (r, w')\<rbrakk> \<Longrightarrow> inv w' \<and> acked w' = acked w
      \<and> (\<forall>i. status w' i = Some StatusPublished \<longleftrightarrow> status w i = Some StatusPublished)"
    and mark_published: "\<lbrakk>inv w; st_MarkPublished S i lt w = (e, w')\<rbrakk> \<Longrightarrow> inv w' \<and> acked w' = acked w
      \<and> (\<forall>j. j \<noteq> i \<longrightarrow> status w' j = status w j)
      \<and> (e = None \<longrightarrow> status w' i = Some StatusPublished)"
    and mark_failed: "\<lbrakk>inv w; st_MarkFailed S i m nr ff lt w = (e, w')\<rbrakk> \<Longrightarrow> inv w' \<and> acked w' = acked w
      \<and> (\<forall>j. j \<noteq> i \<longrightarrow> status w' j = status w j)
      \<and> (status w' i = Some StatusPublished \<longrightarrow> status w i = Some StatusPublished)
      \<and> (e = None \<longrightarrow> status w' i = Some (if ff then StatusDeadLetter else StatusPending))"
    and publish: "\<lbrakk>inv w; P d ev w = (out, w')\<rbrakk> \<Longrightarrow> inv w' \<and> status w' = status w
      \<and> acked w' = (if out = PubNil then ID ev # acked w else acked w)"
begin

lemma lease_expired_quiet:
  "\<lbrakk>inv w; lease_expired rt ev w = (b, w')\<rbrakk> \<Longrightarrow> inv w' \<and> status w' = status w \<and> acked w' = acked w"
  by (auto simp: lease_expired_def split: option.splits prod.splits dest: now)

lemma publishWithRecovery_ack:
  "\<lbrakk>inv w; publishWithRecovery cfg ev w = (e, w')\<rbrakk> \<Longrightarrow> inv w' \<and> status w' = status w
    \<and> acked w' = (if e = None then ID ev # acked w else acked w)"
  using publish
  by (fastforce simp: publishWithRecovery_def publisher split: prod.splits pub_outcome.splits)

lemma handlePublishFailure_effect:
  assumes "inv w" and "handlePublishFailure cfg rt ev pubErr w = (e, w')"
  shows "inv w' \<and> acked w' = acked w \<and> (\<forall>j. j \<noteq> ID ev \<longrightarrow> status w' j = status w j)
    \<and> (status w' (ID ev) = Some StatusPublished \<longrightarrow> status w (ID ev) = Some StatusPublished)
    \<and> (e = None \<longrightarrow> status w' (ID ev)
          = Some (if final_fail ev pubErr then StatusDeadLetter else StatusPending))"
proof -
  obtain f w1 t w2 where q: "rt_rand rt w = (f, w1)" "rt_now rt w1 = (t, w2)" by fastforce
  note w1 = rand [OF assms(1) q(1)]
  then have w2: "inv w2 \<and> status w2 = status w \<and> acked w2 = acked w" using now q(2) by fastforce
  from assms(2) obtain nr where
    "st_MarkFailed S (ID ev) (err_msg pubErr) nr (final_fail ev pubErr) (token_args ev) w2 = (e, w')"
    by (auto simp: handlePublishFailure_def q store Let_def)
  from mark_failed [OF _ this] w2 show ?thesis by simp
qed

text \<open>The effect of the loop body, as every later lemma uses it.\<close>

lemma process_event_effect:
  assumes "inv w" and "process_event cfg rt ev n be w = (res, w')"
  shows "inv w' \<and> (\<forall>j. j \<noteq> ID ev \<longrightarrow> status w' j = status w j)
    \<and> (\<exists>new. acked w' = new @ acked w \<and> set new \<subseteq> {ID ev}
        \<and> (status w' (ID ev) = Some StatusPublished \<longrightarrow>
             status w (ID ev) = Some StatusPublished \<or> ID ev \<in> set new))
    \<and> (\<forall>err. res = Continue (n + 1) err \<longrightarrow> err = be
        \<and> status w' (ID ev) \<in> Some ` {StatusPublished, StatusPending, StatusDeadLetter})"
proof -
  obtain c w1 x w2 p w3 where
    q: "rt_ctx_err rt w = (c, w1)" "lease_expired rt ev w1 = (x, w2)"
      "publishWithRecovery cfg ev w2 = (p, w3)" by (metis prod.exhaust)
  note w1 = ctx [OF assms(1) q(1)]
  then have w2: "inv w2 \<and> status w2 = status w \<and> acked w2 = acked w"
    using lease_expired_quiet [OF _ q(2)] by simp
  then have w3: "inv w3 \<and> status w3 = status w
      \<and> acked w3 = (if p = None then ID ev # acked w else acked w)"
    using publishWithRecovery_ack [OF _ q(3)] by simp
  consider "c \<noteq> None" | "c = None" "x" | "c = None" "\<not> x" "p = None"
    | pe where "c = None" "\<not> x" "p = Some pe" by (cases c; cases x; cases p) auto
  then show ?thesis
  proof cases
    case 1
    with assms(2) q w1 show ?thesis by (auto simp: process_event_def)
  next
    case 2
    with assms(2) q w2 show ?thesis by (auto simp: process_event_def)
  next
    case 3
    with assms(2) q have "record_published cfg rt ev n be w3 = (res, w')" by (simp add: process_event_def)
    moreover obtain e w4 where m: "st_MarkPublished S (ID ev) (token_args ev) w3 = (e, w4)" by fastforce
    ultimately have "w' = w4" "\<And>err. res = Continue (n + 1) err \<Longrightarrow> err = be \<and> e = None"
      by (auto simp: record_published_def store split: option.splits)
    with mark_published [OF _ m] w3 3 show ?thesis by auto
  next
    case 4
    with assms(2) q have rf: "record_failure cfg rt ev pe n be w3 = (res, w')" by (simp add: process_event_def)
    obtain e w4 where h: "handlePublishFailure cfg rt ev pe w3 = (e, w4)" by fastforce
    from rf h have "w' = w4" "\<And>err. res = Continue (n + 1) err \<Longrightarrow> err = be \<and> e = None"
      by (auto simp: record_failure_def split: option.splits)
    with handlePublishFailure_effect [OF _ h] w3 4 show ?thesis by auto
  qed
qed

end

lemma process_event_count:
  "process_event cfg rt ev n be w = (Return m e, w') \<Longrightarrow> m = n"
  "process_event cfg rt ev n be w = (Continue m e, w') \<Longrightarrow> m = n \<or> m = n + 1"
  by (auto simp: process_event_def record_published_def record_failure_def
      split: prod.splits option.splits bool.splits)

lemma process_events_count:
  "process_events cfg rt evs n be w = ((m, e), w') \<Longrightarrow> n \<le> m \<and> m \<le> n + int (length evs)"
proof (induction evs arbitrary: n be w)
  case (Cons ev evs)
  obtain res w1 where q: "process_event cfg rt ev n be w = (res, w1)" by fastforce
  show ?case
  proof (cases res)
    case (Return k err)
    with q Cons.prems process_event_count(1) [of cfg rt ev n be w k err w1] show ?thesis by simp
  next
    case (Continue k err)
    with q Cons.prems have "process_events cfg rt evs k err w1 = ((m, e), w')" by simp
    from Cons.IH [OF this] process_event_count(2) [of cfg rt ev n be w k err w1] q Continue
    show ?thesis by auto
  qed
qed simp

context outbox_relay
begin

lemma process_events_ack:
  assumes "inv w" and "process_events cfg rt evs n be w = (res, w')"
  shows "inv w' \<and> (\<forall>i. i \<notin> ID ` set evs \<longrightarrow> status w' i = status w i)
    \<and> (\<exists>new. acked w' = new @ acked w \<and> set new \<subseteq> ID ` set evs
        \<and> (\<forall>i. status w' i = Some StatusPublished \<longrightarrow>
              status w i = Some StatusPublished \<or> i \<in> set new))"
  using assms
proof (induction evs arbitrary: n be w)
  case (Cons ev evs)
  obtain r w1 where q: "process_event cfg rt ev n be w = (r, w1)" by fastforce
  from process_event_effect [OF Cons.prems(1) q] obtain new where
    1: "inv w1" "\<forall>j. j \<noteq> ID ev \<longrightarrow> status w1 j = status w j" "acked w1 = new @ acked w"
      "set new \<subseteq> {ID ev}" "status w1 (ID ev) = Some StatusPublished \<longrightarrow>
         status w (ID ev) = Some StatusPublished \<or> ID ev \<in> set new" by blast
  have pub1: "status w i = Some StatusPublished \<or> i \<in> set new"
    if "status w1 i = Some StatusPublished" for i
    using 1(2,5) that by (cases "i = ID ev") auto
  show ?case
  proof (cases r)
    case (Return m e)
    with q Cons.prems(2) have "w' = w1" by simp
    with 1 pub1 show ?thesis by auto
  next
    case (Continue m e)
    with q Cons.prems(2) have "process_events cfg rt evs m e w1 = (res, w')" by simp
    from Cons.IH [OF 1(1) this] obtain new' where
      2: "inv w'" "\<forall>i. i \<notin> ID ` set evs \<longrightarrow> status w' i = status w1 i"
        "acked w' = new' @ acked w1" "set new' \<subseteq> ID ` set evs"
        "\<forall>i. status w' i = Some StatusPublished \<longrightarrow> status w1 i = Some StatusPublished \<or> i \<in> set new'"
      by blast
    have "acked w' = (new' @ new) @ acked w" "set (new' @ new) \<subseteq> ID ` set (ev # evs)"
      using 1(3,4) 2(3,4) by auto
    moreover have "status w i = Some StatusPublished \<or> i \<in> set (new' @ new)"
      if "status w' i = Some StatusPublished" for i
      using 2(5) pub1 [of i] that by auto
    ultimately show ?thesis using 1(2) 2(1,2) by auto
  qed
qed auto

text \<open>A batch counted in full: nothing was skipped, no mark failed, and every event has left its
  lease.\<close>

lemma process_events_full:
  assumes "inv w" and "process_events cfg rt evs n be w = ((m, err), w')"
    and "m = n + int (length evs)" and "distinct (map ID evs)"
  shows "err = be \<and> (\<forall>ev\<in>set evs.
    status w' (ID ev) \<in> Some ` {StatusPublished, StatusPending, StatusDeadLetter})"
  using assms
proof (induction evs arbitrary: n be w)
  case (Cons ev evs)
  obtain r w1 where q: "process_event cfg rt ev n be w = (r, w1)" by fastforce
  note eff = process_event_effect [OF Cons.prems(1) q]
  show ?case
  proof (cases r)
    case (Return k e)
    with q Cons.prems(2,3) process_event_count(1) [of cfg rt ev n be w k e w1] show ?thesis by simp
  next
    case (Continue k e)
    with q Cons.prems(2) have run: "process_events cfg rt evs k e w1 = ((m, err), w')" by simp
    from process_events_count [OF run] Cons.prems(3)
      process_event_count(2) [of cfg rt ev n be w k e w1] q Continue
    have k: "k = n + 1" by auto
    with eff Continue have e: "e = be"
      "status w1 (ID ev) \<in> Some ` {StatusPublished, StatusPending, StatusDeadLetter}" by auto
    have "status w' (ID ev) = status w1 (ID ev)"
      using process_events_ack [OF _ run] eff Cons.prems(4) by simp
    with Cons.IH [OF _ run] eff e k Cons.prems(3,4) show ?thesis by simp
  qed
qed simp

text \<open>The whole batch.\<close>

lemma ProcessBatch_ack:
  assumes "inv w" and "ProcessBatch cfg rt w = (res, w')"
  shows "ack_only inv status acked w w'"
proof -
  obtain r w1 where q: "st_FetchPendingBatch S (BatchSize cfg) w = (r, w1)" by fastforce
  note f = fetch [OF assms(1) q]
  show ?thesis
  proof (cases "\<exists>evs. r = Inr evs \<and> evs \<noteq> []")
    case True
    then obtain evs where "r = Inr evs" "evs \<noteq> []" by blast
    with assms(2) q have "process_events cfg rt evs 0 None w1 = (res, w')"
      by (simp add: ProcessBatch_def store)
    from process_events_ack [OF _ this] f show ?thesis by (auto simp: ack_only_def)
  next
    case False
    with assms(2) q have "w' = w1"
      by (auto simp: ProcessBatch_def store split: sum.splits if_splits)
    with f show ?thesis by (auto simp: ack_only_def)
  qed
qed

text \<open>The worker: the same guarantee over the drain loop and over every sequence of select choices.\<close>

lemma drain_ack:
  assumes "drain cfg rt count w = Some res" and "inv w"
  shows "ack_only inv status acked w (snd res)"
proof -
  have "cfg' = cfg \<longrightarrow> rt' = rt \<longrightarrow> inv w \<longrightarrow> ack_only inv status acked w (snd res)"
    if "drain cfg' rt' count w = Some res" for cfg' rt' and count :: int and w res
  proof (rule drain.raw_induct [where P = "\<lambda>c r count w res. c = cfg \<longrightarrow> r = rt \<longrightarrow> inv w \<longrightarrow>
      ack_only inv status acked w (snd res)", OF _ that], intro impI)
    fix dr c r count w res
    assume IH: "\<And>c r count w res. dr c r count w = Some res \<Longrightarrow> c = cfg \<longrightarrow> r = rt \<longrightarrow> inv w \<longrightarrow>
        ack_only inv status acked w (snd res)"
      and eq: "(if count = BatchSize c
        then case rt_ctx_err r w of
            (None, w1) \<Rightarrow> (case ProcessBatch c r w1 of
              ((count', None), w2) \<Rightarrow> dr c r count' w2 | ((count', Some x), w2) \<Rightarrow> Some (False, w2))
          | (Some x, w1) \<Rightarrow> Some (True, w1)
        else Some (False, w)) = Some res"
      and c: "c = cfg" and r: "r = rt" and w: "inv w"
    obtain e w1 where e: "rt_ctx_err rt w = (e, w1)" by fastforce
    note w1 = ctx [OF w e]
    obtain n err w2 where pb: "ProcessBatch cfg rt w1 = ((n, err), w2)" by (metis prod.exhaust)
    have w2: "ack_only inv status acked w w2"
      using ProcessBatch_ack [OF _ pb] w1 by (simp add: ack_only_def)
    consider "count \<noteq> BatchSize cfg" | "count = BatchSize cfg" "e \<noteq> None"
      | "count = BatchSize cfg" "e = None" "err \<noteq> None"
      | "count = BatchSize cfg" "e = None" "err = None" by blast
    then show "ack_only inv status acked w (snd res)"
    proof cases
      case 1
      with eq c w show ?thesis by auto
    next
      case 2
      with eq c r e w1 show ?thesis by (auto simp: ack_only_def)
    next
      case 3
      with eq c r e pb w2 show ?thesis by auto
    next
      case 4
      with eq c r e pb have "dr cfg rt n w2 = Some res" by simp
      from IH [OF this] ack_only_inv [OF w2] show ?thesis by (intro ack_only_trans [OF w2]) simp
    qed
  qed
  with assms show ?thesis by blast
qed

lemma runWorker_ack:
  assumes "runWorker cfg rt cs w = Some w'" and "inv w"
  shows "ack_only inv status acked w w'"
  using assms
proof (induction cs arbitrary: w)
  case (Cons c cs)
  show ?case
  proof (cases c)
    case CtxDone
    with Cons.prems show ?thesis by auto
  next
    case TickerFired
    obtain n err w1 where pb: "ProcessBatch cfg rt w = ((n, err), w1)" by (metis prod.exhaust)
    note a1 = ProcessBatch_ack [OF Cons.prems(2) pb]
    from TickerFired Cons.prems(1) pb obtain b w2 where
      d: "drain cfg rt n w1 = Some (b, w2)"
        "(if b then Some w2 else runWorker cfg rt cs w2) = Some w'"
      by (auto split: option.splits bool.splits)
    from drain_ack [OF d(1) ack_only_inv [OF a1]]
    have a2: "ack_only inv status acked w1 w2" by simp
    note a3 = ack_only_trans [OF a1 a2]
    show ?thesis
    proof (cases b)
      case True
      with d(2) a3 show ?thesis by simp
    next
      case False
      with d(2) have "runWorker cfg rt cs w2 = Some w'" by simp
      from Cons.IH [OF this ack_only_inv [OF a3]] show ?thesis by (rule ack_only_trans [OF a3])
    qed
  qed
qed auto

end

end
