(* ===== verification/Relay_Postgres.thy ===== *)
theory Relay_Postgres
  imports Outbox_Theorems Outbox_Relay
begin

text \<open>
  The relay of \<^verbatim>\<open>outbox/relay.go\<close> running on the store of \<^verbatim>\<open>outbox/store.go\<close>.  The world is the
  outbox system, a count of the calls made and the list of acknowledged publications.  Everything
  the environment decides is a script indexed by the call count: the database clock, the relay
  process's own clock (the two need not agree), the random draws, the context, the failures of the
  database, and what the publisher does.  The relay contract is interpreted on this world.
\<close>

record pg_world =
  pw_sys :: outbox_sys
  pw_tick :: nat
  pw_acked :: "uuid list"

record pg_script =
  ps_db_clock :: "nat \<Rightarrow> gotime"
  ps_go_clock :: "nat \<Rightarrow> gotime"
  ps_rand :: "nat \<Rightarrow> int64 \<Rightarrow> int64"
  ps_ctx :: "nat \<Rightarrow> goerr option"
  ps_fetch :: "nat \<Rightarrow> fetch_env"
  ps_fault :: "nat \<Rightarrow> db_fault"
  ps_publish :: "nat \<Rightarrow> duration \<Rightarrow> OutboxEvent \<Rightarrow> pub_outcome"

definition pg_now_sys :: "pg_script \<Rightarrow> pg_world \<Rightarrow> outbox_sys" where
  "pg_now_sys sc w =
     (pw_sys w)\<lparr>sys_clock := max (sys_clock (pw_sys w)) (ps_db_clock sc (pw_tick w))\<rparr>"

definition pg_env :: "pg_script \<Rightarrow> pg_world \<Rightarrow> fetch_env" where
  "pg_env sc w = (ps_fetch sc (pw_tick w))\<lparr>fe_now := sys_clock (pg_now_sys sc w)\<rparr>"

definition pg_put :: "outbox_sys \<Rightarrow> outbox_table \<Rightarrow> pg_world \<Rightarrow> pg_world" where
  "pg_put \<sigma> t w = w\<lparr>pw_sys := \<sigma>\<lparr>sys_table := t\<rparr>, pw_tick := Suc (pw_tick w)\<rparr>"

definition pg_fetch ::
  "'h pgStore \<Rightarrow> pg_script \<Rightarrow> int \<Rightarrow> pg_world \<Rightarrow> (goerr + OutboxEvent list) \<times> pg_world" where
  "pg_fetch s sc limit w =
     (let \<sigma> = pg_now_sys sc w;
          (r, t') = FetchPendingBatch s (pg_env sc w) limit (sys_table \<sigma>);
          grants = new_grants s (pg_env sc w) limit (sys_table \<sigma>) t' @ sys_grants \<sigma>
      in (r, pg_put (\<sigma>\<lparr>sys_grants := grants\<rparr>) t' w))"

definition pg_mark_published ::
  "'h pgStore \<Rightarrow> pg_script \<Rightarrow> uuid \<Rightarrow> uuid list \<Rightarrow> pg_world \<Rightarrow> goerr option \<times> pg_world" where
  "pg_mark_published s sc i lt w =
     (let \<sigma> = pg_now_sys sc w;
          (e, t') = MarkPublished s (ps_fault sc (pw_tick w)) (sys_clock \<sigma>) i lt (sys_table \<sigma>)
      in (e, pg_put \<sigma> t' w))"

definition pg_mark_failed ::
  "'h pgStore \<Rightarrow> pg_script \<Rightarrow> uuid \<Rightarrow> string \<Rightarrow> gotime \<Rightarrow> bool \<Rightarrow> uuid list \<Rightarrow> pg_world
    \<Rightarrow> goerr option \<times> pg_world" where
  "pg_mark_failed s sc i lastErr nextRetry finalFail lt w =
     (let \<sigma> = pg_now_sys sc w;
          (e, t') = MarkFailed s (ps_fault sc (pw_tick w)) i lastErr nextRetry finalFail lt (sys_table \<sigma>)
      in (e, pg_put \<sigma> t' w))"

definition pg_step :: "pg_world \<Rightarrow> pg_world" where
  "pg_step w = w\<lparr>pw_tick := Suc (pw_tick w)\<rparr>"

definition pg_publish :: "pg_script \<Rightarrow> pg_world Publisher" where
  "pg_publish sc d ev w =
     (let out = ps_publish sc (pw_tick w) d ev
      in (out, (pg_step w)\<lparr>pw_acked := (if out = PubNil then ID ev # pw_acked w else pw_acked w)\<rparr>))"

definition pg_store :: "'h pgStore \<Rightarrow> pg_script \<Rightarrow> pg_world Store" where
  "pg_store s sc = \<lparr>st_FetchPendingBatch = pg_fetch s sc, st_MarkPublished = pg_mark_published s sc,
     st_MarkFailed = pg_mark_failed s sc\<rparr>"

definition pg_runtime :: "pg_script \<Rightarrow> pg_world Runtime" where
  "pg_runtime sc = \<lparr>rt_now = (\<lambda>w. (ps_go_clock sc (pw_tick w), pg_step w)),
     rt_rand = (\<lambda>w. (ps_rand sc (pw_tick w), pg_step w)),
     rt_ctx_err = (\<lambda>w. (ps_ctx sc (pw_tick w), pg_step w)),
     rt_uuid_string = (\<lambda>_. []), rt_duration_string = (\<lambda>_. [])\<rparr>"

definition pg_config :: "'h pgStore \<Rightarrow> pg_script \<Rightarrow> pg_world RelayConfig \<Rightarrow> pg_world RelayConfig" where
  "pg_config s sc cfg = cfg\<lparr>cfg_Store := Some (pg_store s sc), cfg_Publisher := Some (pg_publish sc)\<rparr>"

abbreviation pg_table :: "pg_world \<Rightarrow> outbox_table" where
  "pg_table w \<equiv> sys_table (pw_sys w)"

definition pg_inv :: "pg_world \<Rightarrow> bool" where
  "pg_inv w \<longleftrightarrow> table_ok (pg_table w)"

definition pg_status :: "pg_world \<Rightarrow> uuid \<Rightarrow> Status option" where
  "pg_status w = status_of (pg_table w)"

lemma pg_now_sys_simps [simp]:
  "sys_table (pg_now_sys sc w) = pg_table w" "sys_grants (pg_now_sys sc w) = sys_grants (pw_sys w)"
  by (simp_all add: pg_now_sys_def)

lemma pg_put_simps [simp]:
  "pg_table (pg_put \<sigma> t w) = t" "pw_acked (pg_put \<sigma> t w) = pw_acked w"
  by (simp_all add: pg_put_def)

lemma pg_step_simps [simp]: "pw_sys (pg_step w) = pw_sys w" "pw_acked (pg_step w) = pw_acked w"
  by (simp_all add: pg_step_def)

lemma pg_fetch_table:
  "pg_fetch s sc n w = (r, w') \<Longrightarrow> pw_acked w' = pw_acked w \<and>
     FetchPendingBatch s (pg_env sc w) n (pg_table w) = (r, pg_table w')"
  by (auto simp: pg_fetch_def Let_def split: prod.splits)

lemma pg_mark_published_table:
  "pg_mark_published s sc i lt w = (e, w') \<Longrightarrow> pw_acked w' = pw_acked w \<and>
     MarkPublished s (ps_fault sc (pw_tick w)) (sys_clock (pg_now_sys sc w)) i lt (pg_table w)
       = (e, pg_table w')"
  by (auto simp: pg_mark_published_def Let_def split: prod.splits)

lemma pg_mark_failed_table:
  "pg_mark_failed s sc i m nr ff lt w = (e, w') \<Longrightarrow> pw_acked w' = pw_acked w \<and>
     MarkFailed s (ps_fault sc (pw_tick w)) i m nr ff lt (pg_table w) = (e, pg_table w')"
  by (auto simp: pg_mark_failed_def Let_def split: prod.splits)

section \<open>The contract holds\<close>

lemma status_of_marked_other:
  assumes "\<And>r. row_id (f r) = row_id r" and "j \<noteq> i"
  shows "status_of (marked i lt f t) j = status_of t j"
  using assms by (simp add: status_of_def row_of_marked_other)

lemma status_of_marked:
  assumes "distinct (map row_id t)" and "\<exists>r\<in>set t. mark_matches i (fence_token lt) r"
    and "\<And>r. row_id (f r) = row_id r" and "\<And>r. row_status (f r) = st"
  shows "status_of (marked i lt f t) i = Some st"
proof -
  from assms(2) obtain r where r: "r \<in> set t" "mark_matches i (fence_token lt) r" by blast
  then have "row_of t i = Some r" using row_of_distinct [OF assms(1) r(1)] by (simp add: mark_matches_def)
  with r(2) show ?thesis by (simp add: status_of_def row_of_marked assms(3,4))
qed

lemma fetch_published_iff:
  assumes "table_ok t" and "FetchPendingBatch s env n t = (r, t')"
  shows "status_of t' i = Some StatusPublished \<longleftrightarrow> status_of t i = Some StatusPublished"
proof (cases "row_of t i")
  case (Some x)
  have "distinct (map row_id t)" using assms(1) by (simp add: table_ok_def)
  from pending_fetchable [OF this Some, of s env n] fetchable_status [of "fe_now env" x] Some
    row_of_SomeD [OF Some] fetch_table [OF assms(2)]
  show ?thesis by (auto simp: status_of_def row_of_leased split: if_splits)
next
  case None
  with fetch_table [OF assms(2)] show ?thesis by (auto simp: status_of_def row_of_leased)
qed

interpretation pg: outbox_relay "pg_config s sc cfg" "pg_store s sc" "pg_publish sc" "pg_runtime sc"
    pg_inv pg_status pw_acked
  for s :: "'h pgStore" and sc cfg
proof unfold_locales
  fix w r w' n assume "pg_inv w" "st_FetchPendingBatch (pg_store s sc) n w = (r, w')"
  then show "pg_inv w' \<and> pw_acked w' = pw_acked w
      \<and> (\<forall>i. pg_status w' i = Some StatusPublished \<longleftrightarrow> pg_status w i = Some StatusPublished)"
    using pg_fetch_table [of s sc n w r w'] table_ok_fetch fetch_published_iff
    by (fastforce simp: pg_store_def pg_inv_def pg_status_def)
next
  fix w e w' i lt assume a: "pg_inv w" "st_MarkPublished (pg_store s sc) i lt w = (e, w')"
  then have m: "MarkPublished s (ps_fault sc (pw_tick w)) (sys_clock (pg_now_sys sc w)) i lt (pg_table w)
      = (e, pg_table w')" "pw_acked w' = pw_acked w" "distinct (map row_id (pg_table w))"
    using pg_mark_published_table [of s sc i lt w e w'] by (auto simp: pg_store_def pg_inv_def table_ok_def)
  have "status_of (pg_table w') i = Some StatusPublished" if "e = None"
    using MarkPublished_ok m(1) that status_of_marked [OF m(3)] by fastforce
  with a(1) m(2) table_ok_published [OF m(1)] MarkPublished_table [OF m(1)]
  show "pg_inv w' \<and> pw_acked w' = pw_acked w \<and> (\<forall>j. j \<noteq> i \<longrightarrow> pg_status w' j = pg_status w j)
      \<and> (e = None \<longrightarrow> pg_status w' i = Some StatusPublished)"
    by (auto simp: pg_inv_def pg_status_def status_of_marked_other)
next
  fix w e w' i mm nr ff lt assume a: "pg_inv w" "st_MarkFailed (pg_store s sc) i mm nr ff lt w = (e, w')"
  then have m: "MarkFailed s (ps_fault sc (pw_tick w)) i mm nr ff lt (pg_table w) = (e, pg_table w')"
      "pw_acked w' = pw_acked w" "distinct (map row_id (pg_table w))"
    using pg_mark_failed_table [of s sc i mm nr ff lt w e w'] by (auto simp: pg_store_def pg_inv_def table_ok_def)
  have ok: "status_of (pg_table w') i = Some (fail_status ff)" if "e = None"
    using MarkFailed_ok m(1) that status_of_marked [OF m(3)] by fastforce
  have np: "status_of (pg_table w) i = Some StatusPublished"
    if "status_of (pg_table w') i = Some StatusPublished"
    using MarkFailed_table [OF m(1)] that
    by (auto simp: status_of_def row_of_marked fail_status_def split: if_splits)
  show "pg_inv w' \<and> pw_acked w' = pw_acked w \<and> (\<forall>j. j \<noteq> i \<longrightarrow> pg_status w' j = pg_status w j)
      \<and> (pg_status w' i = Some StatusPublished \<longrightarrow> pg_status w i = Some StatusPublished)
      \<and> (e = None \<longrightarrow> pg_status w' i = Some (if ff then StatusDeadLetter else StatusPending))"
    using a(1) m(2) table_ok_failed [OF m(1)] MarkFailed_table [OF m(1)] ok np
    by (auto simp: pg_inv_def pg_status_def status_of_marked_other fail_status_def)
qed (auto simp: pg_config_def pg_runtime_def pg_publish_def pg_inv_def pg_status_def Let_def)

section \<open>A batch is a run of the system\<close>

lemma pg_config_simps [simp]:
  "cfg_Store (pg_config s sc cfg) = Some (pg_store s sc)"
  "cfg_Publisher (pg_config s sc cfg) = Some (pg_publish sc)"
  "BatchSize (pg_config s sc cfg) = BatchSize cfg" "PublishTimeout (pg_config s sc cfg) = PublishTimeout cfg"
  "BackoffBase (pg_config s sc cfg) = BackoffBase cfg" "BackoffMax (pg_config s sc cfg) = BackoffMax cfg"
  by (simp_all add: pg_config_def)

lemma pg_store_simps [simp]:
  "st_FetchPendingBatch (pg_store s sc) = pg_fetch s sc"
  "st_MarkPublished (pg_store s sc) = pg_mark_published s sc"
  "st_MarkFailed (pg_store s sc) = pg_mark_failed s sc"
  by (simp_all add: pg_store_def)

lemma pg_runtime_simps [simp]:
  "rt_now (pg_runtime sc) w = (ps_go_clock sc (pw_tick w), pg_step w)"
  "rt_rand (pg_runtime sc) w = (ps_rand sc (pw_tick w), pg_step w)"
  "rt_ctx_err (pg_runtime sc) w = (ps_ctx sc (pw_tick w), pg_step w)"
  by (simp_all add: pg_runtime_def)

lemma pg_quiet:
  "lease_expired (pg_runtime sc) ev w = (b, w') \<Longrightarrow> pw_sys w' = pw_sys w"
  "publishWithRecovery (pg_config s sc cfg) ev w = (p, w') \<Longrightarrow> pw_sys w' = pw_sys w"
  by (auto simp: lease_expired_def publishWithRecovery_def pg_publish_def Let_def
      split: option.splits prod.splits pub_outcome.splits)

lemma pg_advance: "outbox_step s fenced (pw_sys w) (pg_now_sys sc w)"
  unfolding pg_now_sys_def by (rule outbox_step.advance) simp

lemma two_steps: "outbox_step s f a b \<Longrightarrow> outbox_step s f b c \<Longrightarrow> outbox_run s f a c"
  by (rule converse_rtranclp_into_rtranclp) auto

lemma pg_fetch_run:
  assumes "pg_fetch s sc n w = (r, w')" and "fresh_tokens (pg_env sc w) (pw_sys w)"
  shows "outbox_run s fenced (pw_sys w) (pw_sys w')"
proof -
  let ?\<sigma> = "pg_now_sys sc w"
  obtain t' where t': "FetchPendingBatch s (pg_env sc w) n (sys_table ?\<sigma>) = (r, t')"
    using pg_fetch_table [OF assms(1)] by simp
  with assms(1) have "pw_sys w' = ?\<sigma>\<lparr>sys_table := t',
      sys_grants := new_grants s (pg_env sc w) n (sys_table ?\<sigma>) t' @ sys_grants ?\<sigma>\<rparr>"
    by (auto simp: pg_fetch_def pg_put_def Let_def)
  moreover have "fresh_tokens (pg_env sc w) ?\<sigma>" using assms(2) by (simp add: fresh_tokens_def)
  moreover have "fe_now (pg_env sc w) = sys_clock ?\<sigma>" by (simp add: pg_env_def)
  ultimately show ?thesis
    using two_steps [OF pg_advance outbox_step.fetch [OF t']] by simp
qed

lemma pg_mark_published_run:
  assumes "pg_mark_published s sc i lt w = (e, w')" and "fence_token lt \<noteq> None"
  shows "outbox_run s fenced (pw_sys w) (pw_sys w')"
proof -
  let ?\<sigma> = "pg_now_sys sc w"
  obtain t' where t': "MarkPublished s (ps_fault sc (pw_tick w)) (sys_clock ?\<sigma>) i lt (sys_table ?\<sigma>) = (e, t')"
    using pg_mark_published_table [OF assms(1)] by simp
  with assms(1) have "pw_sys w' = ?\<sigma>\<lparr>sys_table := t'\<rparr>"
    by (auto simp: pg_mark_published_def pg_put_def Let_def)
  then show ?thesis
    using two_steps [OF pg_advance outbox_step.published [OF t']] assms(2) by simp
qed

lemma pg_mark_failed_run:
  assumes "pg_mark_failed s sc i m nr ff lt w = (e, w')" and "fence_token lt \<noteq> None"
  shows "outbox_run s fenced (pw_sys w) (pw_sys w')"
proof -
  let ?\<sigma> = "pg_now_sys sc w"
  obtain t' where t': "MarkFailed s (ps_fault sc (pw_tick w)) i m nr ff lt (sys_table ?\<sigma>) = (e, t')"
    using pg_mark_failed_table [OF assms(1)] by simp
  with assms(1) have "pw_sys w' = ?\<sigma>\<lparr>sys_table := t'\<rparr>"
    by (auto simp: pg_mark_failed_def pg_put_def Let_def)
  then show ?thesis
    using two_steps [OF pg_advance outbox_step.failed [OF t']] assms(2) by simp
qed

lemma token_args_fence: "LeaseToken ev = Some k \<Longrightarrow> k \<noteq> nil_uuid \<Longrightarrow> fence_token (token_args ev) \<noteq> None"
  by (simp add: token_args_def fence_token_def)

lemma process_event_run:
  assumes "process_event (pg_config s sc cfg) (pg_runtime sc) ev n be w = (res, w')"
    and "fence_token (token_args ev) \<noteq> None"
  shows "outbox_run s fenced (pw_sys w) (pw_sys w')"
proof -
  let ?cfg = "pg_config s sc cfg" and ?rt = "pg_runtime sc"
  obtain x w2 p w3 where q: "lease_expired ?rt ev (pg_step w) = (x, w2)"
    "publishWithRecovery ?cfg ev w2 = (p, w3)" by (metis prod.exhaust)
  with pg_quiet have w23: "pw_sys w2 = pw_sys w" "pw_sys w3 = pw_sys w" by fastforce+
  consider "pw_sys w' = pw_sys w" | "record_published ?cfg ?rt ev n be w3 = (res, w')"
    | pe where "record_failure ?cfg ?rt ev pe n be w3 = (res, w')"
    using assms(1) q w23
    by (auto simp: process_event_def split: option.splits bool.splits)
  then show ?thesis
  proof cases
    case 2
    then obtain e where "pg_mark_published s sc (ID ev) (token_args ev) w3 = (e, w')"
      by (auto simp: record_published_def split: prod.splits option.splits)
    from pg_mark_published_run [OF this assms(2)] w23 show ?thesis by simp
  next
    case 3
    then obtain e where h: "handlePublishFailure ?cfg ?rt ev pe w3 = (e, w')"
      by (auto simp: record_failure_def split: prod.splits option.splits)
    then obtain nr where "pg_mark_failed s sc (ID ev) (err_msg pe) nr (final_fail ev pe)
        (token_args ev) (pg_step (pg_step w3)) = (e, w')"
      by (auto simp: handlePublishFailure_def Let_def)
    from pg_mark_failed_run [OF this assms(2)] w23 show ?thesis by simp
  qed simp
qed

lemma process_events_run:
  assumes "process_events (pg_config s sc cfg) (pg_runtime sc) evs n be w = (res, w')"
    and "\<forall>ev\<in>set evs. fence_token (token_args ev) \<noteq> None"
  shows "outbox_run s fenced (pw_sys w) (pw_sys w')"
  using assms
proof (induction evs arbitrary: n be w)
  case (Cons ev evs)
  obtain r w1 where q: "process_event (pg_config s sc cfg) (pg_runtime sc) ev n be w = (r, w1)" by fastforce
  from Cons.prems(2) process_event_run [OF q] have 1: "outbox_run s fenced (pw_sys w) (pw_sys w1)" by simp
  show ?case
  proof (cases r)
    case (Return k e)
    with q Cons.prems(1) 1 show ?thesis by simp
  next
    case (Continue k e)
    with q Cons.prems(1) have "process_events (pg_config s sc cfg) (pg_runtime sc) evs k e w1 = (res, w')"
      by simp
    from Cons.IH [OF this] Cons.prems(2) 1 show ?thesis by (auto intro: rtranclp_trans)
  qed
qed auto

text \<open>Every event a fetch hands out carries a token that fences its marks.\<close>

lemma fetched_event_fenced:
  assumes "FetchPendingBatch s env n t = (Inr evs, t')" and "arrange_law env" and "table_ok t"
    and "\<forall>i\<in>row_id ` set t. fe_token env i \<noteq> nil_uuid" and "ev \<in> set evs"
  shows "fence_token (token_args ev) \<noteq> None"
proof -
  obtain r where "r \<in> set (sql_pending (fe_now env) (nat (if n \<le> 0 then 50 else n)) (fe_locked env) t)"
    "ev = event_of_row (lease_row (fe_now env) (lease_secs s) (fe_token env) r)"
    by (rule batch_event [OF assms(1-3,5)])
  moreover from this(1) have "r \<in> set t" by (auto dest: sql_pendingD)
  ultimately show ?thesis
    using assms(4) token_args_fence [of ev "fe_token env (row_id r)"]
    by (auto simp: event_of_row_def lease_row_def)
qed

lemma ProcessBatch_run:
  assumes "ProcessBatch (pg_config s sc cfg) (pg_runtime sc) w = (res, w')"
    and "table_ok (pg_table w)" and "fresh_tokens (pg_env sc w) (pw_sys w)"
    and "arrange_law (pg_env sc w)"
  shows "outbox_run s fenced (pw_sys w) (pw_sys w')"
proof -
  obtain r w1 where q: "pg_fetch s sc (BatchSize cfg) w = (r, w1)" by fastforce
  note 1 = pg_fetch_run [OF q assms(3), of fenced]
  show ?thesis
  proof (cases "\<exists>evs. r = Inr evs \<and> evs \<noteq> []")
    case True
    then obtain evs where r: "r = Inr evs" "evs \<noteq> []" by blast
    with assms(1) q have "process_events (pg_config s sc cfg) (pg_runtime sc) evs 0 None w1 = (res, w')"
      by (simp add: ProcessBatch_def)
    moreover have "\<forall>ev\<in>set evs. fence_token (token_args ev) \<noteq> None"
      using fetched_event_fenced [OF _ assms(4,2)] pg_fetch_table [OF q] r(1) assms(3)
      by (auto simp: fresh_tokens_def Let_def)
    ultimately show ?thesis using process_events_run 1 by (meson rtranclp_trans)
  next
    case False
    with assms(1) q have "w' = w1" by (auto simp: ProcessBatch_def split: sum.splits if_splits)
    with 1 show ?thesis by simp
  qed
qed

end
