(* ===== verification/Relay_Progress.thy ===== *)
theory Relay_Progress
  imports Relay_Postgres
begin

text \<open>
  Progress of the relay on the PostgreSQL store: what one event does to the table, the budget of
  attempts each event has, and the measure that makes the drain loop end.
\<close>

section \<open>The effect of one event on the table\<close>

definition event_done :: "OutboxEvent \<Rightarrow> outbox_table \<Rightarrow> outbox_table \<Rightarrow> bool" where
  "event_done ev t t' \<longleftrightarrow>
     (\<exists>now. t' = marked (ID ev) (token_args ev) (publish_row now) t)
     \<or> (\<exists>pe m nr. t' = marked (ID ev) (token_args ev)
            (fail_row (fail_status (final_fail ev pe)) m nr) t)"

definition event_matched :: "OutboxEvent \<Rightarrow> outbox_table \<Rightarrow> bool" where
  "event_matched ev t \<longleftrightarrow> (\<exists>r\<in>set t. mark_matches (ID ev) (fence_token (token_args ev)) r)"

lemma process_event_table:
  assumes "process_event (pg_config s sc cfg) (pg_runtime sc) ev n be w = (res, w')"
  shows "(pg_table w' = pg_table w \<or> event_done ev (pg_table w) (pg_table w'))
    \<and> (\<forall>e. res = Continue (n + 1) e \<longrightarrow>
          event_done ev (pg_table w) (pg_table w') \<and> event_matched ev (pg_table w))"
proof -
  let ?cfg = "pg_config s sc cfg" and ?rt = "pg_runtime sc"
  obtain x w2 p w3 where q: "lease_expired ?rt ev (pg_step w) = (x, w2)"
    "publishWithRecovery ?cfg ev w2 = (p, w3)" by (metis prod.exhaust)
  with pg_quiet have w3: "pg_table w2 = pg_table w" "pg_table w3 = pg_table w" by fastforce+
  consider "pg_table w' = pg_table w" "\<forall>e. res \<noteq> Continue (n + 1) e"
    | "record_published ?cfg ?rt ev n be w3 = (res, w')"
    | pe where "record_failure ?cfg ?rt ev pe n be w3 = (res, w')"
    using assms q w3 by (auto simp: process_event_def split: option.splits bool.splits)
  then show ?thesis
  proof cases
    case 2
    then obtain e where m: "pg_mark_published s sc (ID ev) (token_args ev) w3 = (e, w')"
      "\<And>err. res = Continue (n + 1) err \<Longrightarrow> e = None"
      by (auto simp: record_published_def split: prod.splits option.splits)
    from pg_mark_published_table [OF m(1)] w3
    have t: "MarkPublished s (ps_fault sc (pw_tick w3)) (sys_clock (pg_now_sys sc w3)) (ID ev)
      (token_args ev) (pg_table w) = (e, pg_table w')" by simp
    have "event_done ev (pg_table w) (pg_table w') \<and> event_matched ev (pg_table w)"
      if "res = Continue (n + 1) err" for err
      using MarkPublished_ok [OF t [unfolded m(2) [OF that]]]
      by (auto simp: event_done_def event_matched_def)
    with MarkPublished_table [OF t] show ?thesis by (auto simp: event_done_def)
  next
    case 3
    then obtain e where h: "handlePublishFailure ?cfg ?rt ev pe w3 = (e, w')"
      "\<And>err. res = Continue (n + 1) err \<Longrightarrow> e = None"
      by (auto simp: record_failure_def split: prod.splits option.splits)
    then obtain nr where m: "pg_mark_failed s sc (ID ev) (err_msg pe) nr (final_fail ev pe)
        (token_args ev) (pg_step (pg_step w3)) = (e, w')"
      by (auto simp: handlePublishFailure_def Let_def)
    from pg_mark_failed_table [OF m] w3 obtain fault where
      t: "MarkFailed s fault (ID ev) (err_msg pe) nr (final_fail ev pe) (token_args ev) (pg_table w)
        = (e, pg_table w')" by auto
    have "event_done ev (pg_table w) (pg_table w') \<and> event_matched ev (pg_table w)"
      if "res = Continue (n + 1) err" for err
      using MarkFailed_ok [OF t [unfolded h(2) [OF that]]]
      by (auto simp: event_done_def event_matched_def)
    moreover have "pg_table w' = pg_table w \<or> event_done ev (pg_table w) (pg_table w')"
      using MarkFailed_table [OF t] unfolding event_done_def by blast
    ultimately show ?thesis by blast
  qed auto
qed

lemma event_done_other:
  "event_done ev t t' \<Longrightarrow> j \<noteq> ID ev \<Longrightarrow> row_of t' j = row_of t j"
  by (auto simp: event_done_def row_of_marked_other)

lemma event_done_ok: "event_done ev t t' \<Longrightarrow> table_ok t \<Longrightarrow> table_ok t'"
  by (auto simp: event_done_def intro!: table_ok_marked intro: sql_rules)

section \<open>Events as snapshots of their rows\<close>

text \<open>The events a batch still has to process are exact copies of their rows.\<close>

definition snapshot :: "outbox_table \<Rightarrow> OutboxEvent list \<Rightarrow> bool" where
  "snapshot t evs \<longleftrightarrow> distinct (map ID evs) \<and> (\<forall>ev\<in>set evs. \<exists>r. row_of t (ID ev) = Some r
     \<and> ev = event_of_row r \<and> row_status r = StatusProcessing)"

lemma snapshot_fetch:
  assumes "FetchPendingBatch s env n t = (Inr evs, t')" and "arrange_law env" and "table_ok t"
  shows "snapshot t' evs"
proof -
  have t': "t' = leased s env n t" using fetch_ok [OF assms(1)] by simp
  have d: "distinct (map row_id t')"
    using table_ok_fetch [OF assms(1,3)] by (simp add: table_ok_def)
  let ?rs = "filter (\<lambda>r. row_id r \<in> pending_ids s env n t) t'"
  note m = fetched_rows [OF assms(1,2)]
  have "mset (map ID evs) = mset (map row_id ?rs)"
    using arg_cong [OF m, of "image_mset ID"]
    by (simp add: event_of_row_def multiset.map_comp comp_def)
  moreover have "distinct (map row_id ?rs)" using d by (rule distinct_map_filter)
  ultimately have "distinct (map ID evs)" by (metis mset_eq_imp_distinct_iff)
  moreover have "\<exists>r. row_of t' (ID ev) = Some r \<and> ev = event_of_row r \<and> row_status r = StatusProcessing"
    if "ev \<in> set evs" for ev
  proof -
    from arg_cong [OF m, of set_mset] that obtain r where r: "r \<in> set ?rs" "ev = event_of_row r" by auto
    then have "row_of t' (row_id r) = Some r" using row_of_distinct [OF d] by simp
    moreover have "row_status r = StatusProcessing"
      using r(1) unfolding t' filter_leased by auto
    ultimately show ?thesis using r(2) by (auto simp: event_of_row_def)
  qed
  ultimately show ?thesis by (simp add: snapshot_def)
qed

lemma snapshot_next:
  assumes "snapshot t (ev # evs)" and "t' = t \<or> event_done ev t t'"
  shows "snapshot t' evs"
proof -
  have "row_of t' (ID e) = row_of t (ID e)" if "e \<in> set evs" for e
  proof -
    from assms(1) have "ID ev \<notin> ID ` set evs" by (simp add: snapshot_def)
    with that have "ID e \<noteq> ID ev" by (metis imageI)
    with assms(2) show ?thesis by (auto dest: event_done_other)
  qed
  with assms(1) show ?thesis by (simp add: snapshot_def)
qed

text \<open>On a snapshot, the row an event marks is the one it was copied from.\<close>

lemma matched_row:
  assumes "snapshot t (ev # evs)" and "table_ok t" and "r \<in> set t"
    and "mark_matches (ID ev) (fence_token (token_args ev)) r"
  shows "ev = event_of_row r \<and> row_status r = StatusProcessing"
proof -
  have "row_of t (ID ev) = Some r"
    using row_of_distinct [of t r] assms(2-4) by (auto simp: table_ok_def mark_matches_def)
  with assms(1) show ?thesis by (auto simp: snapshot_def)
qed

section \<open>The budget of attempts\<close>

text \<open>
  An event is given at most \<open>max 1 MaxRetries\<close> attempts: its row never counts more failures than
  that, and fewer while the event is still to be published.
\<close>

definition attempts_ok :: "outbox_row \<Rightarrow> bool" where
  "attempts_ok r \<longleftrightarrow> row_retry_count r \<le> max 1 (row_max_retries r)
     \<and> (\<not> IsTerminal (row_status r) \<longrightarrow> row_retry_count r < max 1 (row_max_retries r))"

lemma attempts_insert: "fresh_event ev \<Longrightarrow> attempts_ok (insert_row now ev)"
  by (simp add: attempts_ok_def insert_row_def fresh_event_def Let_def less_max_iff_disj le_max_iff_disj)

lemma attempts_publish: "attempts_ok r \<Longrightarrow> attempts_ok (publish_row now r)"
  by (auto simp: attempts_ok_def publish_row_def IsTerminal_def status_defs)

lemma attempts_fail:
  assumes "attempts_ok r" and "ev = event_of_row r" and "row_status r = StatusProcessing"
  shows "attempts_ok (fail_row (fail_status (final_fail ev pe)) m nr r)"
  using assms by (auto simp: attempts_ok_def fail_row_def fail_status_def final_fail_def event_of_row_def)

lemma attempts_leased:
  assumes "table_ok t" and "\<forall>r\<in>set t. attempts_ok r"
  shows "\<forall>r\<in>set (leased s env n t). attempts_ok r"
proof -
  have "attempts_ok (lease_row a b c r)" if "r \<in> set t" "row_id r \<in> pending_ids s env n t" for a b c r
  proof -
    have "row_of t (row_id r) = Some r"
      using assms(1) that(1) row_of_distinct by (auto simp: table_ok_def)
    from pending_fetchable [OF _ this that(2)] assms(1) fetchable_status
    have "\<not> IsTerminal (row_status r)" by (fastforce simp: table_ok_def)
    with assms(2) that(1) have "row_retry_count r < max 1 (row_max_retries r)"
      by (auto simp: attempts_ok_def)
    then show ?thesis by (simp add: attempts_ok_def lease_row_def)
  qed
  with assms(2) show ?thesis by (auto simp: leased_def sql_lease_def)
qed

lemma attempts_event:
  assumes "snapshot t (ev # evs)" and "table_ok t" and "t' = t \<or> event_done ev t t'"
    and "\<forall>r\<in>set t. attempts_ok r"
  shows "\<forall>r\<in>set t'. attempts_ok r"
proof -
  have f: "attempts_ok (fail_row (fail_status (final_fail ev pe)) m nr r)"
    if "r \<in> set t" "mark_matches (ID ev) (fence_token (token_args ev)) r" for pe m nr r
    using matched_row [OF assms(1,2) that] assms(4) that(1) attempts_fail by blast
  have p: "attempts_ok (publish_row now r)" if "r \<in> set t" for now r
    using assms(4) that attempts_publish by blast
  from assms(3) show ?thesis
  proof
    assume "event_done ev t t'"
    with f p assms(4) show ?thesis by (auto simp: event_done_def marked_def)
  qed (use assms(4) in simp)
qed

section \<open>The work left in a table\<close>

text \<open>What is left to do for a row: nothing once it is terminal, otherwise one more than the failures
  it can still have.  A lease keeps it, a successful mark lowers it.\<close>

definition row_work :: "outbox_row \<Rightarrow> nat" where
  "row_work r = (if IsTerminal (row_status r) then 0 else Suc (nat (row_max_retries r - row_retry_count r)))"

definition table_work :: "outbox_table \<Rightarrow> nat" where
  "table_work t = sum_list (map row_work t)"

lemma sum_list_map_le:
  fixes f g :: "'a \<Rightarrow> nat"
  assumes "\<And>x. x \<in> set xs \<Longrightarrow> f x \<le> g x"
  shows "sum_list (map f xs) \<le> sum_list (map g xs)"
    and "x \<in> set xs \<Longrightarrow> f x < g x \<Longrightarrow> sum_list (map f xs) < sum_list (map g xs)"
  using assms by (induction xs) (auto simp: add_le_less_mono add_less_le_mono add_mono)

lemma row_work_publish: "row_work (publish_row now r) = 0"
  by (simp add: row_work_def)

lemma row_work_fail:
  assumes "ev = event_of_row r" and "row_status r = StatusProcessing"
  shows "row_work (fail_row (fail_status (final_fail ev pe)) m nr r) < row_work r"
  using assms
  by (auto simp: row_work_def fail_row_def fail_status_def final_fail_def event_of_row_def IsTerminal_def status_defs)

lemma table_work_leased:
  assumes "table_ok t"
  shows "table_work (leased s env n t) = table_work t"
proof -
  have "row_work (lease_row a b c r) = row_work r"
    if "r \<in> set t" "row_id r \<in> pending_ids s env n t" for a b c r
  proof -
    have "row_of t (row_id r) = Some r"
      using assms(1) that(1) row_of_distinct by (auto simp: table_ok_def)
    from pending_fetchable [OF _ this that(2)] assms(1) fetchable_status
    have "\<not> IsTerminal (row_status r)" by (fastforce simp: table_ok_def)
    then show ?thesis by (simp add: row_work_def lease_row_def IsTerminal_def status_defs)
  qed
  then show ?thesis
    by (auto simp: table_work_def leased_def sql_lease_def comp_def intro!: arg_cong [where f = sum_list])
qed

lemma table_work_fetch:
  "FetchPendingBatch s env n t = (r, t') \<Longrightarrow> table_ok t \<Longrightarrow> table_work t' = table_work t"
  by (drule fetch_table) (auto simp: table_work_leased)

lemma table_work_marked:
  assumes "\<And>r. r \<in> set t \<Longrightarrow> mark_matches i (fence_token lt) r \<Longrightarrow> row_work (f r) < row_work r"
  shows "table_work (marked i lt f t) \<le> table_work t"
    and "\<exists>r\<in>set t. mark_matches i (fence_token lt) r \<Longrightarrow> table_work (marked i lt f t) < table_work t"
proof -
  let ?g = "\<lambda>r. row_work (if mark_matches i (fence_token lt) r then f r else r)"
  have m: "table_work (marked i lt f t) = sum_list (map ?g t)"
    by (simp add: table_work_def marked_def comp_def)
  have le: "\<And>r. r \<in> set t \<Longrightarrow> ?g r \<le> row_work r" using assms by (simp add: less_imp_le)
  show "table_work (marked i lt f t) \<le> table_work t"
    unfolding m unfolding table_work_def using le by (rule sum_list_map_le)
  assume "\<exists>r\<in>set t. mark_matches i (fence_token lt) r"
  then obtain r where "r \<in> set t" "?g r < row_work r" using assms by auto
  show "table_work (marked i lt f t) < table_work t"
    unfolding m unfolding table_work_def using le \<open>r \<in> set t\<close> \<open>?g r < row_work r\<close> by (rule sum_list_map_le(2))
qed

lemma event_done_work:
  assumes "snapshot t (ev # evs)" and "table_ok t" and "event_done ev t t'"
  shows "table_work t' \<le> table_work t" and "event_matched ev t \<Longrightarrow> table_work t' < table_work t"
proof -
  have w: "row_work (fail_row (fail_status (final_fail ev pe)) m nr r) < row_work r"
    "row_work (publish_row now r) < row_work r"
    if "r \<in> set t" "mark_matches (ID ev) (fence_token (token_args ev)) r" for r pe m nr now
    using matched_row [OF assms(1,2) that] row_work_fail
    by (auto simp: row_work_publish) (auto simp: row_work_def IsTerminal_def status_defs)
  from assms(3) obtain f where f: "t' = marked (ID ev) (token_args ev) f t"
    "\<And>r. r \<in> set t \<Longrightarrow> mark_matches (ID ev) (fence_token (token_args ev)) r \<Longrightarrow> row_work (f r) < row_work r"
    using w unfolding event_done_def by blast
  show "table_work t' \<le> table_work t" unfolding f(1) using f(2) by (rule table_work_marked)
  assume "event_matched ev t"
  then show "table_work t' < table_work t"
    unfolding f(1) event_matched_def using f(2) by (intro table_work_marked(2))
qed

lemma process_events_work:
  assumes "process_events (pg_config s sc cfg) (pg_runtime sc) evs n be w = ((m, err), w')"
    and "snapshot (pg_table w) evs" and "table_ok (pg_table w)"
  shows "table_work (pg_table w') + nat (m - n) \<le> table_work (pg_table w)"
  using assms
proof (induction evs arbitrary: n be w)
  case (Cons ev evs)
  obtain r w1 where q: "process_event (pg_config s sc cfg) (pg_runtime sc) ev n be w = (r, w1)" by fastforce
  note t1 = process_event_table [OF q]
  note work = event_done_work [OF Cons.prems(2,3)]
  have le: "table_work (pg_table w1) \<le> table_work (pg_table w)" using t1 work by auto
  show ?case
  proof (cases r)
    case (Return k e)
    with q have "k = n" by (auto dest: process_event_count(1))
    with Return q Cons.prems(1) le show ?thesis by simp
  next
    case (Continue k e)
    with q Cons.prems(1) have "process_events (pg_config s sc cfg) (pg_runtime sc) evs k e w1 = ((m, err), w')"
      by simp
    moreover have "snapshot (pg_table w1) evs" using snapshot_next [OF Cons.prems(2)] t1 by blast
    moreover have "table_ok (pg_table w1)" using t1 event_done_ok Cons.prems(3) by auto
    ultimately have IH: "table_work (pg_table w') + nat (m - k) \<le> table_work (pg_table w1)"
      using Cons.IH by blast
    have "k = n \<or> k = n + 1 \<and> table_work (pg_table w1) < table_work (pg_table w)"
      using process_event_count(2) [of _ _ ev n be w k e w1] q Continue t1 work by blast
    with IH le show ?thesis by auto
  qed
qed simp

text \<open>A batch that counts \<open>m\<close> events has used up at least \<open>m\<close> units of work.\<close>

lemma ProcessBatch_work:
  assumes "ProcessBatch (pg_config s sc cfg) (pg_runtime sc) w = ((m, err), w')"
    and "table_ok (pg_table w)" and "arrange_law (pg_env sc w)"
  shows "table_ok (pg_table w') \<and> 0 \<le> m \<and> table_work (pg_table w') + nat m \<le> table_work (pg_table w)"
proof -
  obtain r w1 where q: "pg_fetch s sc (BatchSize cfg) w = (r, w1)" by fastforce
  have f: "FetchPendingBatch s (pg_env sc w) (BatchSize cfg) (pg_table w) = (r, pg_table w1)"
    using pg_fetch_table [OF q] by simp
  have ok: "table_ok (pg_table w')"
    using pg.ProcessBatch_ack [OF _ assms(1)] assms(2) by (auto simp: pg_inv_def ack_only_def)
  note w1 = table_ok_fetch [OF f assms(2)] table_work_fetch [OF f assms(2)]
  show ?thesis
  proof (cases "\<exists>evs. r = Inr evs \<and> evs \<noteq> []")
    case True
    then obtain evs where r: "r = Inr evs" "evs \<noteq> []" by blast
    with assms(1) q have p: "process_events (pg_config s sc cfg) (pg_runtime sc) evs 0 None w1 = ((m, err), w')"
      by (simp add: ProcessBatch_def)
    have "snapshot (pg_table w1) evs" using snapshot_fetch [OF _ assms(3,2)] f r(1) by blast
    with process_events_work [OF p _ w1(1)] process_events_count [OF p] w1(2) ok show ?thesis by simp
  next
    case False
    with assms(1) q have "w' = w1" "m = 0" by (auto simp: ProcessBatch_def split: sum.splits if_splits)
    with w1 show ?thesis by simp
  qed
qed

lemma drain_terminates:
  assumes "0 < BatchSize cfg" and "\<And>w. arrange_law (pg_env sc w)" and "table_ok (pg_table w)"
  shows "\<exists>res. drain (pg_config s sc cfg) (pg_runtime sc) k w = Some res"
  using assms(3)
proof (induction "table_work (pg_table w)" arbitrary: w k rule: less_induct)
  case less
  let ?w1 = "pg_step w"
  obtain m err w2 where pb: "ProcessBatch (pg_config s sc cfg) (pg_runtime sc) ?w1 = ((m, err), w2)"
    by (metis prod.exhaust)
  from ProcessBatch_work [OF this _ assms(2)] less(2)
  have w2: "table_ok (pg_table w2)" "0 \<le> m" "table_work (pg_table w2) + nat m \<le> table_work (pg_table w)"
    by auto
  have "\<exists>res. drain (pg_config s sc cfg) (pg_runtime sc) m w2 = Some res"
  proof (cases "m = BatchSize cfg")
    case True
    with w2 assms(1) less(1) [of w2 m] show ?thesis by simp
  next
    case False
    then show ?thesis by (intro exI [of _ "(False, w2)"]) (simp add: drain.simps)
  qed
  with pb show ?case
    by (subst drain.simps) (auto split: option.splits)
qed

lemma runWorker_terminates:
  assumes "0 < BatchSize cfg" and "\<And>w. arrange_law (pg_env sc w)" and "table_ok (pg_table w)"
  shows "\<exists>w'. runWorker (pg_config s sc cfg) (pg_runtime sc) cs w = Some w'"
  using assms(3)
proof (induction cs arbitrary: w)
  case (Cons c cs)
  show ?case
  proof (cases c)
    case TickerFired
    obtain m err w1 where pb: "ProcessBatch (pg_config s sc cfg) (pg_runtime sc) w = ((m, err), w1)"
      by (metis prod.exhaust)
    have ok1: "table_ok (pg_table w1)" using ProcessBatch_work [OF pb Cons.prems assms(2)] by simp
    obtain b w2 where d: "drain (pg_config s sc cfg) (pg_runtime sc) m w1 = Some (b, w2)"
      using drain_terminates [OF assms(1,2) ok1] by (metis prod.exhaust)
    have "table_ok (pg_table w2)"
      using pg.drain_ack [OF d] ok1 by (auto simp: pg_inv_def ack_only_def)
    with Cons.IH TickerFired pb d show ?thesis by (auto split: bool.splits)
  qed simp
qed simp

section \<open>The budget of attempts over a batch\<close>

lemma process_events_attempts:
  assumes "process_events (pg_config s sc cfg) (pg_runtime sc) evs n be w = (res, w')"
    and "snapshot (pg_table w) evs" and "table_ok (pg_table w)" and "\<forall>r\<in>set (pg_table w). attempts_ok r"
  shows "\<forall>r\<in>set (pg_table w'). attempts_ok r"
  using assms
proof (induction evs arbitrary: n be w)
  case (Cons ev evs)
  obtain r w1 where q: "process_event (pg_config s sc cfg) (pg_runtime sc) ev n be w = (r, w1)" by fastforce
  have t1: "pg_table w1 = pg_table w \<or> event_done ev (pg_table w) (pg_table w1)"
    using process_event_table [OF q] by blast
  note a1 = attempts_event [OF Cons.prems(2,3) t1 Cons.prems(4)]
  show ?case
  proof (cases r)
    case (Return k e)
    with q Cons.prems(1) a1 show ?thesis by simp
  next
    case (Continue k e)
    with q Cons.prems(1) have "process_events (pg_config s sc cfg) (pg_runtime sc) evs k e w1 = (res, w')"
      by simp
    moreover have "table_ok (pg_table w1)" using t1 event_done_ok Cons.prems(3) by auto
    ultimately show ?thesis
      using Cons.IH [OF _ snapshot_next [OF Cons.prems(2) t1]] a1 by blast
  qed
qed simp

lemma ProcessBatch_attempts:
  assumes "ProcessBatch (pg_config s sc cfg) (pg_runtime sc) w = (res, w')"
    and "table_ok (pg_table w)" and "arrange_law (pg_env sc w)" and "\<forall>r\<in>set (pg_table w). attempts_ok r"
  shows "\<forall>r\<in>set (pg_table w'). attempts_ok r"
proof -
  obtain r w1 where q: "pg_fetch s sc (BatchSize cfg) w = (r, w1)" by fastforce
  have f: "FetchPendingBatch s (pg_env sc w) (BatchSize cfg) (pg_table w) = (r, pg_table w1)"
    using pg_fetch_table [OF q] by simp
  have a1: "\<forall>r\<in>set (pg_table w1). attempts_ok r"
    using fetch_table [OF f] attempts_leased [OF assms(2,4), of s "pg_env sc w" "BatchSize cfg"] assms(4)
    by auto
  show ?thesis
  proof (cases "\<exists>evs. r = Inr evs \<and> evs \<noteq> []")
    case True
    then obtain evs where r: "r = Inr evs" "evs \<noteq> []" by blast
    with assms(1) q have "process_events (pg_config s sc cfg) (pg_runtime sc) evs 0 None w1 = (res, w')"
      by (simp add: ProcessBatch_def)
    from process_events_attempts [OF this _ table_ok_fetch [OF f assms(2)] a1]
      snapshot_fetch [OF _ assms(3,2)] f r(1) show ?thesis by blast
  next
    case False
    with assms(1) q a1 show ?thesis by (auto simp: ProcessBatch_def split: sum.splits if_splits)
  qed
qed

end
