(* ===== verification/Relay_Theorems.thy ===== *)
theory Relay_Theorems
  imports Relay_Progress
begin

text \<open>
  What the relay guarantees on the PostgreSQL store, with a sample script on which each guarantee
  is shown to apply: one pending event, a database that obeys, and a publisher that refuses the event
  once and then takes it.
\<close>

section \<open>A sample script\<close>

definition relay_env :: fetch_env where
  "relay_env = demo_env 0 100"

definition relay_script :: pg_script where
  "relay_script = \<lparr>ps_db_clock = (\<lambda>k. 1000000000 * int k), ps_go_clock = (\<lambda>k. 1000000000 * int k),
     ps_rand = (\<lambda>_ n. n - 1), ps_ctx = (\<lambda>_. None), ps_fetch = (\<lambda>_. relay_env),
     ps_fault = (\<lambda>_. DbOk),
     ps_publish = (\<lambda>k _ _. if k < 5 then PubPanic ''broker down'' else PubNil)\<rparr>"

definition relay_cfg :: "pg_world RelayConfig" where
  "relay_cfg = \<lparr>BatchSize = 1, PollInterval = Second, PublishTimeout = Second,
     LeaseDuration = 60 * Second, BackoffBase = Second, BackoffMax = Minute, Concurrency = 1,
     cfg_Store = None, cfg_Publisher = None\<rparr>"

definition relay_world :: pg_world where
  "relay_world = \<lparr>pw_sys = demo1, pw_tick = 0, pw_acked = []\<rparr>"

abbreviation demo_relay_cfg :: "pg_world RelayConfig" where
  "demo_relay_cfg \<equiv> pg_config demo_store relay_script relay_cfg"

abbreviation demo_relay_rt :: "pg_world Runtime" where
  "demo_relay_rt \<equiv> pg_runtime relay_script"

lemma demo1_ok: "table_ok (sys_table demo1)"
  by code_simp

lemma relay_world_ok: "table_ok (pg_table relay_world)" "pg_inv relay_world"
  using demo1_ok by (simp_all add: relay_world_def pg_inv_def)

lemma relay_arrange: "arrange_law (pg_env relay_script w)"
  by (simp add: pg_env_def relay_script_def relay_env_def demo_env_def arrange_law_def)

lemma relay_batch:
  "fst (ProcessBatch demo_relay_cfg demo_relay_rt relay_world) = (1, None)"
  "map row_retry_count (pg_table (snd (ProcessBatch demo_relay_cfg demo_relay_rt relay_world))) = [1]"
  by code_simp+

text \<open>The worlds after one, two and three batches of a worker's drain loop.\<close>

definition relay_next :: "pg_world \<Rightarrow> pg_world" where
  "relay_next w = snd (ProcessBatch demo_relay_cfg demo_relay_rt w)"

definition relay_end :: pg_world where
  "relay_end = relay_next (pg_step (relay_next (pg_step (relay_next relay_world))))"

lemma relay_batches:
  "fst (ProcessBatch demo_relay_cfg demo_relay_rt (pg_step (relay_next relay_world))) = (1, None)"
  "fst (ProcessBatch demo_relay_cfg demo_relay_rt (pg_step (relay_next (pg_step (relay_next relay_world)))))
    = (0, None)"
  by code_simp+

lemma relay_end:
  "pw_acked relay_end = [1]" "status_of (pg_table relay_end) 1 = Some StatusPublished"
  "status_of (pg_table relay_world) 1 = Some StatusPending" "pw_acked relay_world = []"
  by code_simp+

lemma relay_split:
  "fst (ProcessBatch demo_relay_cfg demo_relay_rt w) = x \<Longrightarrow>
    ProcessBatch demo_relay_cfg demo_relay_rt w = (x, relay_next w)"
  by (auto simp: relay_next_def)

lemma relay_ctx: "rt_ctx_err demo_relay_rt w = (None, pg_step w)"
  by (simp add: relay_script_def)

lemma relay_worker:
  "runWorker demo_relay_cfg demo_relay_rt [TickerFired] relay_world = Some relay_end"
proof -
  note p = relay_split [OF relay_batch(1)] relay_split [OF relay_batches(1)] relay_split [OF relay_batches(2)]
  have b: "BatchSize demo_relay_cfg = 1" by (simp add: relay_cfg_def)
  have "drain demo_relay_cfg demo_relay_rt 0 relay_end = Some (False, relay_end)"
    by (subst drain.simps) (simp add: relay_cfg_def)
  then have "drain demo_relay_cfg demo_relay_rt 1 (relay_next (pg_step (relay_next relay_world)))
      = Some (False, relay_end)"
    by (subst drain.simps) (simp only: b simp_thms if_True relay_ctx p relay_end_def option.case prod.case)
  then have "drain demo_relay_cfg demo_relay_rt 1 (relay_next relay_world) = Some (False, relay_end)"
    by (subst drain.simps) (simp only: b simp_thms if_True relay_ctx p option.case prod.case)
  with p(1) show ?thesis by simp
qed

lemma relay_fresh: "fresh_tokens (pg_env relay_script relay_world) (pw_sys relay_world)"
  by code_simp

section \<open>The worker loop\<close>

text \<open>The outbox pattern's promise: however a worker runs (any sequence of ticks, failed fetches,
  failed or lost marks, expired leases, publisher errors and panics, cancelled contexts), an event that
  is PUBLISHED at the end was already so at the start, or the publisher returned nil for it during the
  run.  No event is marked published without having been delivered.\<close>

theorem relay_publishes_only_acknowledged:
  assumes "runWorker (pg_config s sc cfg) (pg_runtime sc) cs w = Some w'" and "table_ok (pg_table w)"
  shows "\<exists>new. pw_acked w' = new @ pw_acked w \<and>
    (\<forall>i. status_of (pg_table w') i = Some StatusPublished \<longrightarrow>
       status_of (pg_table w) i = Some StatusPublished \<or> i \<in> set new)"
  using pg.runWorker_ack [OF assms(1)] assms(2) by (auto simp: ack_only_def pg_inv_def pg_status_def)

theorem relay_publishes_only_acknowledged_witness:
  "\<exists>w'. runWorker demo_relay_cfg demo_relay_rt [TickerFired] relay_world = Some w'
    \<and> status_of (pg_table w') 1 = Some StatusPublished \<and> 1 \<in> set (pw_acked w')"
proof -
  from relay_publishes_only_acknowledged [OF relay_worker relay_world_ok(1)]
  have "status_of (pg_table relay_end) 1 = Some StatusPublished \<and> 1 \<in> set (pw_acked relay_end)"
    using relay_end by auto
  with relay_worker show ?thesis by blast
qed



section \<open>One batch\<close>

text \<open>C5. Refinement: a batch of the relay on the store is a run of the outbox system, all of whose
  marks carry a lease token.  Everything proved of such runs (the state machine, final terminal
  states, exclusive leases, no lost event) therefore holds of relays.\<close>

theorem relay_batch_refines_system:
  assumes "ProcessBatch (pg_config s sc cfg) (pg_runtime sc) w = (res, w')"
    and "table_ok (pg_table w)" and "fresh_tokens (pg_env sc w) (pw_sys w)"
    and "arrange_law (pg_env sc w)"
  shows "outbox_run s True (pw_sys w) (pw_sys w')"
  using ProcessBatch_run [OF assms] .

theorem relay_batch_refines_system_witness:
  "outbox_run demo_store True demo1
     (pw_sys (snd (ProcessBatch demo_relay_cfg demo_relay_rt relay_world)))"
  using relay_batch_refines_system [OF prod.collapse [symmetric] relay_world_ok(1) relay_fresh relay_arrange]
  by (simp add: relay_world_def)

text \<open>The count a batch returns is exact in this sense: if it equals the number of events fetched,
  there was no error and every one of those events has left its lease: it is PUBLISHED, PENDING again
  for a later retry, or DEAD_LETTER.\<close>

theorem relay_full_batch_settled:
  assumes "ProcessBatch (pg_config s sc cfg) (pg_runtime sc) w = ((m, err), w')"
    and "table_ok (pg_table w)" and "arrange_law (pg_env sc w)"
    and "FetchPendingBatch s (pg_env sc w) (BatchSize cfg) (pg_table w) = (Inr evs, t')"
    and "m = int (length evs)"
  shows "err = None \<and> (\<forall>ev\<in>set evs. status_of (pg_table w') (ID ev)
    \<in> Some ` {StatusPublished, StatusPending, StatusDeadLetter})"
proof (cases "evs = []")
  case True
  obtain r w1 where q: "pg_fetch s sc (BatchSize cfg) w = (r, w1)" by fastforce
  with pg_fetch_table [OF q] assms(4) True have "r = Inr []" by simp
  with q assms(1) True show ?thesis by (simp add: ProcessBatch_def)
next
  case False
  obtain r w1 where q: "pg_fetch s sc (BatchSize cfg) w = (r, w1)" by fastforce
  with pg_fetch_table [OF q] assms(4) have r: "r = Inr evs" "pg_table w1 = t'" by simp_all
  with assms(1) q False have p: "process_events (pg_config s sc cfg) (pg_runtime sc) evs 0 None w1 = ((m, err), w')"
    by (simp add: ProcessBatch_def)
  have "pg_inv w1" using table_ok_fetch [OF assms(4,2)] r(2) by (simp add: pg_inv_def)
  moreover have "distinct (map ID evs)" using snapshot_fetch [OF assms(4,3,2)] by (simp add: snapshot_def)
  ultimately show ?thesis using pg.process_events_full [OF _ p] assms(5) by (simp add: pg_status_def)
qed

theorem relay_full_batch_settled_witness:
  "status_of (pg_table (snd (ProcessBatch demo_relay_cfg demo_relay_rt relay_world))) 1
    \<in> Some ` {StatusPublished, StatusPending, StatusDeadLetter}"
proof -
  let ?w' = "snd (ProcessBatch demo_relay_cfg demo_relay_rt relay_world)"
  let ?f = "FetchPendingBatch demo_store (pg_env relay_script relay_world) 1 (sys_table demo1)"
  have p: "ProcessBatch demo_relay_cfg demo_relay_rt relay_world = ((1, None), ?w')"
    using relay_batch(1) by (metis prod.collapse)
  have "map_sum (\<lambda>_. ()) (map ID) (fst ?f) = Inr [1]" by code_simp
  then obtain evs where evs: "fst ?f = Inr evs" "map ID evs = [1]" by (cases "fst ?f") auto
  then have "?f = (Inr evs, snd ?f)" by (metis prod.collapse)
  moreover have "length evs = 1" using arg_cong [OF evs(2), of length] by simp
  ultimately have "\<forall>ev\<in>set evs. status_of (pg_table ?w') (ID ev)
      \<in> Some ` {StatusPublished, StatusPending, StatusDeadLetter}"
    using relay_full_batch_settled [OF p relay_world_ok(1) relay_arrange, of evs "snd ?f"]
    by (simp add: relay_world_def relay_cfg_def)
  with evs(2) show ?thesis by auto
qed

section \<open>A failed delivery\<close>

text \<open>A failure mark under the token of a leased row, when the database takes the statement.\<close>

lemma pg_mark_failed_leased:
  assumes "row_of (pg_table w) (ID ev) = Some r" and "ev = event_of_row r"
    and "row_lease_token r = Some k" and "k \<noteq> nil_uuid" and "store_guard s = None" and "ps_fault sc (pw_tick w) = DbOk"
  shows "\<exists>w'. pg_mark_failed s sc (ID ev) m nr ff (token_args ev) w = (None, w')
    \<and> pg_table w' = marked (ID ev) (token_args ev) (fail_row (fail_status ff) m nr) (pg_table w)
    \<and> mark_matches (ID ev) (fence_token (token_args ev)) r"
proof -
  obtain e w' where mf: "pg_mark_failed s sc (ID ev) m nr ff (token_args ev) w = (e, w')" by fastforce
  note t = pg_mark_failed_table [OF mf, THEN conjunct2]
  have "LeaseToken ev = Some k" using assms(2,3) by (simp add: event_of_row_def)
  then have mm: "mark_matches (ID ev) (fence_token (token_args ev)) r"
    using row_of_SomeD [OF assms(1)] assms(3,4) by (simp add: mark_matches_def fence_token_def token_args_def)
  then have "\<exists>r\<in>set (pg_table w). mark_matches (ID ev) (fence_token (token_args ev)) r"
    using row_of_SomeD [OF assms(1)] by blast
  then have "e = None"
    using t assms(5,6)
    by (auto simp: MarkFailed_def db_exec_def sql_update_def mark_result_def Let_def filter_empty_conv)
  with MarkFailed_ok t mf mm show ?thesis by fastforce
qed

text \<open>C13. What a refused (or panicking) delivery does, when the event is a leased row's copy, its
  lease is live on the relay's clock and the database takes the statement: the relay goes on with the
  next event and counts this one; the row loses its lease, its retry count goes up by one, it records the
  error's message, and it becomes DEAD_LETTER if the error is non-retryable or the attempt was the
  last one allowed, PENDING otherwise; the next attempt is due within the configured largest backoff
  from now; no other row changes.\<close>

theorem relay_failed_delivery_spec:
  assumes "table_ok (pg_table w)" and "row_of (pg_table w) (ID ev) = Some r" and "ev = event_of_row r"
    and "row_lease_token r = Some k" and "k \<noteq> nil_uuid" and "row_locked_until r = Some u"
    and "store_guard s = None"
    and "ps_ctx sc (pw_tick w) = None" and "ps_go_clock sc (pw_tick w + 1) < u"
    and "ps_publish sc (pw_tick w + 2) (PublishTimeout cfg) ev = out" and "out \<noteq> PubNil"
    and "pe = (case out of PubPanic v \<Rightarrow> Errorf (''publisher panic: '' @ v) | PubErr e \<Rightarrow> e)"
    and "int64n_law (ps_rand sc (pw_tick w + 3))" and "ps_fault sc (pw_tick w + 5) = DbOk"
    and "0 < sint (BackoffBase cfg)" and "sint (BackoffBase cfg) \<le> sint (BackoffMax cfg)"
  shows "\<exists>w' nr. process_event (pg_config s sc cfg) (pg_runtime sc) ev n be w = (Continue (n + 1) be, w')
    \<and> row_of (pg_table w') (ID ev) = Some (fail_row
        (if row_retry_count r + 1 \<ge> row_max_retries r \<or> errors_is pe ErrNonRetryable
         then StatusDeadLetter else StatusPending) (err_msg pe) nr r)
    \<and> ps_go_clock sc (pw_tick w + 4) \<le> nr
    \<and> nr \<le> ps_go_clock sc (pw_tick w + 4) + sint (BackoffMax cfg)
    \<and> (\<forall>j. j \<noteq> ID ev \<longrightarrow> row_of (pg_table w') j = row_of (pg_table w) j)"
proof -
  let ?cfg = "pg_config s sc cfg" and ?rt = "pg_runtime sc"
  let ?k = "pw_tick w"
  define nr where "nr = time_add (ps_go_clock sc (?k + 4))
    (BackoffWithJitter (ps_rand sc (?k + 3)) (RetryCount ev) (BackoffBase cfg) (BackoffMax cfg))"
  define w3 where "w3 = w\<lparr>pw_tick := ?k + 3\<rparr>"
  let ?w5 = "w\<lparr>pw_tick := ?k + 5\<rparr>"
  have ev: "LockedUntil ev = Some u" "LeaseToken ev = Some k"
    "RetryCount ev = row_retry_count r" "MaxRetries ev = row_max_retries r"
    using assms(3,4,6) by (simp_all add: event_of_row_def)
  have maxd: "retry_max_delay ?cfg = BackoffMax cfg"
    using assms(15,16) by (auto simp: retry_max_delay_def Let_def)
  have l: "lease_expired ?rt ev (pg_step w) = (False, w\<lparr>pw_tick := ?k + 2\<rparr>)"
    using assms(9) by (simp add: lease_expired_def ev pg_step_def time_sub_nonpos)
  have p: "publishWithRecovery ?cfg ev (w\<lparr>pw_tick := ?k + 2\<rparr>) = (Some pe, w3)"
    using assms(10-12) by (cases out)
      (auto simp: publishWithRecovery_def pg_publish_def pg_step_def w3_def Let_def)
  obtain w' where m: "pg_mark_failed s sc (ID ev) (err_msg pe) nr (final_fail ev pe) (token_args ev) ?w5 = (None, w')"
    and t': "pg_table w' = marked (ID ev) (token_args ev) (fail_row (fail_status (final_fail ev pe)) (err_msg pe) nr) (pg_table w)"
    and mm: "mark_matches (ID ev) (fence_token (token_args ev)) r"
    using pg_mark_failed_leased [of ?w5 ev r k s sc "err_msg pe" nr "final_fail ev pe", OF _ assms(3-5,7)] assms(2,14) by auto
  have q: "rt_rand ?rt w3 = (ps_rand sc (?k + 3), w\<lparr>pw_tick := ?k + 4\<rparr>)"
    "rt_now ?rt (w\<lparr>pw_tick := ?k + 4\<rparr>) = (ps_go_clock sc (?k + 4), ?w5)"
    by (simp_all add: pg_step_def w3_def)
  have "handlePublishFailure ?cfg ?rt ev pe w3
      = pg_mark_failed s sc (ID ev) (err_msg pe) nr (final_fail ev pe) (token_args ev) ?w5"
    by (simp only: handlePublishFailure_def Let_def q prod.case maxd nr_def pg_config_simps
        pg_store_simps option.sel)
  also note m
  finally have "handlePublishFailure ?cfg ?rt ev pe w3 = (None, w')" .
  then have "record_failure ?cfg ?rt ev pe n be w3 = (Continue (n + 1) be, w')"
    by (simp add: record_failure_def)
  with l p assms(8) have "process_event ?cfg ?rt ev n be w = (Continue (n + 1) be, w')"
    by (simp add: process_event_def)
  moreover have "fail_status (final_fail ev pe) = (if row_retry_count r + 1 \<ge> row_max_retries r
      \<or> errors_is pe ErrNonRetryable then StatusDeadLetter else StatusPending)"
    by (simp add: fail_status_def final_fail_def ev IsNonRetryable_iff)
  then have "row_of (pg_table w') (ID ev) = Some (fail_row
        (if row_retry_count r + 1 \<ge> row_max_retries r \<or> errors_is pe ErrNonRetryable
         then StatusDeadLetter else StatusPending) (err_msg pe) nr r)"
    using mm assms(2) by (simp add: t' row_of_marked)
  moreover have "ps_go_clock sc (?k + 4) \<le> nr \<and> nr \<le> ps_go_clock sc (?k + 4) + sint (BackoffMax cfg)"
    using backoff_bounds [OF assms(13), of "RetryCount ev" "BackoffBase cfg" "BackoffMax cfg"]
      backoff_le_max [OF assms(13), of "BackoffMax cfg" "RetryCount ev" "BackoffBase cfg"] assms(15,16)
    by (simp add: nr_def time_add_def)
  moreover have "\<forall>j. j \<noteq> ID ev \<longrightarrow> row_of (pg_table w') j = row_of (pg_table w) j"
    by (simp add: t' row_of_marked_other)
  ultimately show ?thesis by blast
qed

definition relay_leased :: pg_world where
  "relay_leased = \<lparr>pw_sys = demo2, pw_tick = 0, pw_acked = []\<rparr>"

theorem relay_failed_delivery_spec_witness:
  "\<exists>ev w'. process_event demo_relay_cfg demo_relay_rt ev 0 None relay_leased = (Continue 1 None, w')
    \<and> status_of (pg_table w') 1 = Some StatusPending
    \<and> (\<exists>r. row_of (pg_table w') 1 = Some r \<and> row_retry_count r = 1
        \<and> row_last_error r = Some ''publisher panic: broker down'')"
proof -
  have "map_option row_locked_until (row_of (pg_table relay_leased) 1) = Some (Some 60000000010)"
    "map_option row_lease_token (row_of (pg_table relay_leased) 1) = Some (Some 101)"
    "map_option row_retry_count (row_of (pg_table relay_leased) 1) = Some 0"
    "map_option row_max_retries (row_of (pg_table relay_leased) 1) = Some 5"
    by code_simp+
  then obtain r where r: "row_of (pg_table relay_leased) 1 = Some r"
    "row_locked_until r = Some 60000000010" "row_lease_token r = Some 101" "row_retry_count r = 0"
    "row_max_retries r = 5" by auto
  define ev where "ev = event_of_row r"
  have i: "ID ev = 1" using row_of_SomeD [OF r(1)] by (simp add: ev_def event_of_row_def)
  have ok: "table_ok (pg_table relay_leased)" by code_simp
  have env: "pw_tick relay_leased = 0" "ps_ctx relay_script 0 = None" "ps_go_clock relay_script 1 = 1000000000"
    "ps_publish relay_script (Suc (Suc 0)) (PublishTimeout relay_cfg) ev = PubPanic ''broker down''"
    "ps_fault relay_script 5 = DbOk" "int64n_law (ps_rand relay_script 3)"
    "BackoffBase relay_cfg = Second" "BackoffMax relay_cfg = Minute"
    using int64n_law_pred by (simp_all add: relay_leased_def relay_script_def relay_cfg_def)
  from relay_failed_delivery_spec [where s = demo_store and sc = relay_script and cfg = relay_cfg
      and n = 0 and be = None, OF ok _ ev_def r(3) _ r(2) demo_guard _ _ _ _ refl, of "PubPanic ''broker down''"]
  obtain w' nr where
    "process_event demo_relay_cfg demo_relay_rt ev 0 None relay_leased = (Continue 1 None, w')"
    "row_of (pg_table w') 1 = Some (fail_row StatusPending ''publisher panic: broker down'' nr r)"
    using r env i by auto
  moreover have "row_status (fail_row StatusPending m nr r) = StatusPending
      \<and> row_retry_count (fail_row StatusPending m nr r) = 1
      \<and> row_last_error (fail_row StatusPending m nr r) = Some m" for m nr
    using r(4) by (simp add: fail_row_def)
  ultimately show ?thesis unfolding status_of_def by (metis option.simps(9))
qed

text \<open>C32. The retry budget: batches keep every row's count of failures within its limit (at least one
  attempt is always given), and strictly below it while the event can still be attempted; an event
  enters the table with that property.\<close>

theorem relay_attempts_bounded:
  assumes "ProcessBatch (pg_config s sc cfg) (pg_runtime sc) w = (res, w')"
    and "table_ok (pg_table w)" and "arrange_law (pg_env sc w)"
    and "\<forall>r\<in>set (pg_table w). row_retry_count r \<le> max 1 (row_max_retries r)
      \<and> (\<not> IsTerminal (row_status r) \<longrightarrow> row_retry_count r < max 1 (row_max_retries r))"
  shows "\<forall>r\<in>set (pg_table w'). row_retry_count r \<le> max 1 (row_max_retries r)
      \<and> (\<not> IsTerminal (row_status r) \<longrightarrow> row_retry_count r < max 1 (row_max_retries r))"
  using ProcessBatch_attempts [OF assms(1-3)] assms(4) unfolding attempts_ok_def by blast

theorem relay_attempts_bounded_witness:
  "\<exists>r. pg_table (relay_next relay_world) = [r] \<and> row_retry_count r = 1
    \<and> row_retry_count r < max 1 (row_max_retries r)"
proof -
  have start: "\<forall>r\<in>set (pg_table relay_world). row_retry_count r \<le> max 1 (row_max_retries r)
      \<and> (\<not> IsTerminal (row_status r) \<longrightarrow> row_retry_count r < max 1 (row_max_retries r))"
    by code_simp
  have "map (\<lambda>r. (row_retry_count r, IsTerminal (row_status r))) (pg_table (relay_next relay_world))
      = [(1, False)]"
    by code_simp
  then obtain r where r: "pg_table (relay_next relay_world) = [r]" "row_retry_count r = 1"
    "\<not> IsTerminal (row_status r)" by auto
  with relay_attempts_bounded [OF relay_split [OF relay_batch(1)] relay_world_ok(1) relay_arrange start]
  show ?thesis by auto
qed

section \<open>Configuration\<close>

text \<open>The configuration \<open>validateConfig\<close> leaves behind, in closed form.\<close>

definition pos_or :: "duration \<Rightarrow> duration \<Rightarrow> duration" where
  "pos_or v d = (if sint v \<le> 0 then d else v)"

definition normalised :: "'w RelayConfig \<Rightarrow> 'w RelayConfig" where
  "normalised cfg =
     (let base = pos_or (BackoffBase cfg) (2 * Second); maxd = pos_or (BackoffMax cfg) (1 * Minute)
      in cfg\<lparr>BatchSize := (if BatchSize cfg \<le> 0 then 50 else BatchSize cfg),
             PollInterval := pos_or (PollInterval cfg) (1 * Second),
             PublishTimeout := pos_or (PublishTimeout cfg) (5 * Second),
             LeaseDuration := pos_or (LeaseDuration cfg) (60 * Second),
             BackoffBase := base, BackoffMax := (if sint maxd < sint base then base else maxd),
             Concurrency := (if Concurrency cfg \<le> 0 then 1 else Concurrency cfg)\<rparr>)"

definition config_usable :: "'w RelayConfig \<Rightarrow> bool" where
  "config_usable cfg \<longleftrightarrow> cfg_Store cfg \<noteq> None \<and> cfg_Publisher cfg \<noteq> None
     \<and> 0 < BatchSize cfg \<and> 0 < sint (PollInterval cfg) \<and> 0 < Concurrency cfg
     \<and> 0 < sint (PublishTimeout cfg) \<and> sint (PublishTimeout cfg) < sint (LeaseDuration cfg)
     \<and> 5000000000 \<le> sint (LeaseDuration cfg)
     \<and> 0 < sint (BackoffBase cfg) \<and> sint (BackoffBase cfg) \<le> sint (BackoffMax cfg)"

lemma update_if:
  "(if BatchSize c \<le> 0 then c\<lparr>BatchSize := n\<rparr> else c)
    = c\<lparr>BatchSize := (if BatchSize c \<le> 0 then n else BatchSize c)\<rparr>"
  "(if sint (PollInterval c) \<le> 0 then c\<lparr>PollInterval := d\<rparr> else c)
    = c\<lparr>PollInterval := pos_or (PollInterval c) d\<rparr>"
  "(if sint (PublishTimeout c) \<le> 0 then c\<lparr>PublishTimeout := d\<rparr> else c)
    = c\<lparr>PublishTimeout := pos_or (PublishTimeout c) d\<rparr>"
  "(if sint (LeaseDuration c) \<le> 0 then c\<lparr>LeaseDuration := d\<rparr> else c)
    = c\<lparr>LeaseDuration := pos_or (LeaseDuration c) d\<rparr>"
  "(if sint (BackoffBase c) \<le> 0 then c\<lparr>BackoffBase := d\<rparr> else c)
    = c\<lparr>BackoffBase := pos_or (BackoffBase c) d\<rparr>"
  "(if sint (BackoffMax c) \<le> 0 then c\<lparr>BackoffMax := d\<rparr> else c)
    = c\<lparr>BackoffMax := pos_or (BackoffMax c) d\<rparr>"
  "(if sint (BackoffMax c) < sint (BackoffBase c) then c\<lparr>BackoffMax := BackoffBase c\<rparr> else c)
    = c\<lparr>BackoffMax := (if sint (BackoffMax c) < sint (BackoffBase c) then BackoffBase c else BackoffMax c)\<rparr>"
  "(if Concurrency c \<le> 0 then c\<lparr>Concurrency := n\<rparr> else c)
    = c\<lparr>Concurrency := (if Concurrency c \<le> 0 then n else Concurrency c)\<rparr>"
  by (simp_all add: pos_or_def)

lemma let_eqI: "(\<And>x. x = a \<Longrightarrow> f x = y) \<Longrightarrow> Let a f = y"
  by simp

lemma validateConfig_form:
  "validateConfig sh cfg =
     (if cfg_Store cfg = None then Inl (Sentinel ErrMissingStore)
      else if cfg_Publisher cfg = None then Inl (Sentinel ErrMissingPublisher)
      else if sint (LeaseDuration (normalised cfg)) < 5000000000
          \<or> sint (LeaseDuration (normalised cfg)) \<le> sint (PublishTimeout (normalised cfg))
      then Inl (Wrapf [] (Sentinel ErrInvalidLeaseDuration)
             ('': lease_duration='' @ sh (LeaseDuration (normalised cfg))
               @ '', publish_timeout='' @ sh (PublishTimeout (normalised cfg))))
      else Inr (normalised cfg))"
  unfolding validateConfig_def update_if
  apply (rule if_cong refl let_eqI)+
    apply (simp add: normalised_def Let_def sint_five)
   apply (simp add: normalised_def Let_def)
  apply (rule let_eqI)+
  apply (simp add: normalised_def Let_def)
  done

lemma sint_pos_or: "0 < sint d \<Longrightarrow> 0 < sint (pos_or v d)"
  by (simp add: pos_or_def)

lemma normalised_usable:
  assumes "cfg_Store cfg \<noteq> None" and "cfg_Publisher cfg \<noteq> None"
    and "5000000000 \<le> sint (LeaseDuration (normalised cfg))"
    and "sint (PublishTimeout (normalised cfg)) < sint (LeaseDuration (normalised cfg))"
  shows "config_usable (normalised cfg)"
proof -
  have d: "0 < sint (1 * Second)" "0 < sint (2 * Second)" "0 < sint (5 * Second)" "0 < sint (1 * Minute)"
    by (simp_all add: Second_def)
  note p = d [THEN sint_pos_or]
  show ?thesis
    using assms p unfolding config_usable_def normalised_def Let_def by simp
qed

lemma usable_normalised: "config_usable cfg \<Longrightarrow> normalised cfg = cfg"
  by (simp add: config_usable_def normalised_def pos_or_def)

lemma normalised_keeps:
  "0 < BatchSize cfg \<longrightarrow> BatchSize (normalised cfg) = BatchSize cfg"
  "0 < sint (LeaseDuration cfg) \<longrightarrow> LeaseDuration (normalised cfg) = LeaseDuration cfg"
  "cfg_Store (normalised cfg) = cfg_Store cfg" "cfg_Publisher (normalised cfg) = cfg_Publisher cfg"
  by (simp_all add: normalised_def pos_or_def Let_def)



text \<open>The relay's own \<open>LeaseDuration\<close> setting has no effect once it has been validated: batches do
  not depend on it.  How long an event is leased is decided by the store's option alone.\<close>

theorem relay_lease_duration_inert:
  "ProcessBatch (cfg\<lparr>LeaseDuration := d\<rparr>) rt w = ProcessBatch cfg rt w"
proof -
  have r: "retry_max_delay (cfg\<lparr>LeaseDuration := d\<rparr>) = retry_max_delay cfg"
    by (simp add: retry_max_delay_def Let_def)
  have p: "publishWithRecovery (cfg\<lparr>LeaseDuration := d\<rparr>) = publishWithRecovery cfg"
    by (intro ext) (simp add: publishWithRecovery_def)
  have h: "handlePublishFailure (cfg\<lparr>LeaseDuration := d\<rparr>) = handlePublishFailure cfg"
    by (intro ext) (simp add: handlePublishFailure_def r)
  have f: "record_failure (cfg\<lparr>LeaseDuration := d\<rparr>) = record_failure cfg"
    by (intro ext) (simp add: record_failure_def h)
  have m: "record_published (cfg\<lparr>LeaseDuration := d\<rparr>) = record_published cfg"
    by (intro ext) (simp add: record_published_def)
  have e: "process_event (cfg\<lparr>LeaseDuration := d\<rparr>) = process_event cfg"
    by (intro ext) (unfold process_event_def p f m, rule refl)
  have "process_events (cfg\<lparr>LeaseDuration := d\<rparr>) rt evs n be w = process_events cfg rt evs n be w"
    for evs n be w
    by (induction evs arbitrary: n be w) (simp_all add: e split: prod.split loop_result.split)
  then show ?thesis by (simp add: ProcessBatch_def split: prod.split sum.split)
qed

end
