(* ===== verification/Relay_Start.thy ===== *)
theory Relay_Start
  imports Relay_Theorems
begin

text \<open>
  \<open>Start\<close> of \<^verbatim>\<open>outbox/relay.go\<close>: the workers of a relay running at the same time.  A worker is its
  program point, with the variables that are live there, and its step is the code up to and including the
  next call on the shared world (store, publisher, context, clock); the steps of the workers interleave in
  any order.  A worker may panic anywhere, which its deferred function recovers: the worker ends.
\<close>

section \<open>One worker in steps\<close>

text \<open>The flag says whether the batch is one of the inner loop; \<open>processedCount\<close> and \<open>batchErr\<close> go along.\<close>

datatype worker =
    Selecting
  | Fetching bool
  | Handling bool "OutboxEvent list" int "goerr option"
  | Publishing bool OutboxEvent "OutboxEvent list" int "goerr option"
  | Marking bool OutboxEvent "goerr option" "OutboxEvent list" int "goerr option"
  | Draining
  | Stopped

text \<open>A batch has come back: the inner loop goes on while batches are full, and breaks on an error; the
  error of the first batch is only logged.\<close>

definition batch_end :: "'w RelayConfig \<Rightarrow> bool \<Rightarrow> int \<Rightarrow> goerr option \<Rightarrow> worker" where
  "batch_end cfg inner n err =
     (if inner \<and> err \<noteq> None then Selecting else if n = BatchSize cfg then Draining else Selecting)"

definition after_mark :: "'w RelayConfig \<Rightarrow> bool \<Rightarrow> OutboxEvent list \<Rightarrow> loop_result \<Rightarrow> worker" where
  "after_mark cfg inner events r =
     (case r of Return n err \<Rightarrow> batch_end cfg inner n err | Continue n err \<Rightarrow> Handling inner events n err)"

fun worker_next :: "'w RelayConfig \<Rightarrow> 'w Runtime \<Rightarrow> select_case \<Rightarrow> worker \<Rightarrow> 'w \<Rightarrow> worker \<times> 'w" where
  "worker_next cfg rt CtxDone Selecting w = (Stopped, w)"
| "worker_next cfg rt TickerFired Selecting w = (Fetching False, w)"
| "worker_next cfg rt c (Fetching inner) w =
     (case st_FetchPendingBatch (the (cfg_Store cfg)) (BatchSize cfg) w of
        (Inl err, w') \<Rightarrow> (batch_end cfg inner 0 (Some (Wrapf ''relay batch fetch failed: '' err [])), w')
      | (Inr events, w') \<Rightarrow>
          (if length events = 0 then batch_end cfg inner 0 None else Handling inner events 0 None, w'))"
| "worker_next cfg rt c (Handling inner [] n err) w = (batch_end cfg inner n err, w)"
| "worker_next cfg rt c (Handling inner (event # events) n err) w =
     (case rt_ctx_err rt w of
        (Some e, w1) \<Rightarrow> (batch_end cfg inner n (Some e), w1)
      | (None, w1) \<Rightarrow>
          (case lease_expired rt event w1 of
             (True, w2) \<Rightarrow> (Handling inner events n err, w2)
           | (False, w2) \<Rightarrow> (Publishing inner event events n err, w2)))"
| "worker_next cfg rt c (Publishing inner event events n err) w =
     (case publishWithRecovery cfg event w of (e, w') \<Rightarrow> (Marking inner event e events n err, w'))"
| "worker_next cfg rt c (Marking inner event None events n err) w =
     (case record_published cfg rt event n err w of (r, w') \<Rightarrow> (after_mark cfg inner events r, w'))"
| "worker_next cfg rt c (Marking inner event (Some e) events n err) w =
     (case record_failure cfg rt event e n err w of (r, w') \<Rightarrow> (after_mark cfg inner events r, w'))"
| "worker_next cfg rt c Draining w =
     (case rt_ctx_err rt w of (Some e, w') \<Rightarrow> (Stopped, w') | (None, w') \<Rightarrow> (Fetching True, w'))"
| "worker_next cfg rt c Stopped w = (Stopped, w)"

fun worker_run :: "'w RelayConfig \<Rightarrow> 'w Runtime \<Rightarrow> select_case list \<Rightarrow> worker \<Rightarrow> 'w \<Rightarrow> worker \<times> 'w" where
  "worker_run cfg rt [] p w = (p, w)"
| "worker_run cfg rt (c # cs) p w = (case worker_next cfg rt c p w of (p', w') \<Rightarrow> worker_run cfg rt cs p' w')"

section \<open>The relay\<close>

text \<open>The goroutine of \<open>Start\<close>: blocked on the context, waiting for the workers, or returned.\<close>

datatype starter = Blocked | Joining | Returned "goerr option"

record 'w relay_sys =
  rs_starter :: starter
  rs_workers :: "worker list"
  rs_world :: 'w

definition Start :: "'w RelayConfig \<Rightarrow> 'w \<Rightarrow> 'w relay_sys" where
  "Start cfg w = \<lparr>rs_starter = Blocked, rs_workers = replicate (nat (Concurrency cfg)) Selecting, rs_world = w\<rparr>"

text \<open>The select takes the context's case only when the context is done.\<close>

definition selectable :: "'w Runtime \<Rightarrow> select_case \<Rightarrow> 'w \<Rightarrow> bool" where
  "selectable rt c w \<longleftrightarrow> (c = CtxDone \<longrightarrow> fst (rt_ctx_err rt w) \<noteq> None)"

inductive relay_step :: "'w RelayConfig \<Rightarrow> 'w Runtime \<Rightarrow> 'w relay_sys \<Rightarrow> 'w relay_sys \<Rightarrow> bool" for cfg rt where
  work: "i < length (rs_workers s) \<Longrightarrow> selectable rt c (rs_world s)
    \<Longrightarrow> worker_next cfg rt c (rs_workers s ! i) (rs_world s) = (p, w)
    \<Longrightarrow> relay_step cfg rt s (s\<lparr>rs_workers := (rs_workers s)[i := p], rs_world := w\<rparr>)"
| panic: "i < length (rs_workers s) \<Longrightarrow> relay_step cfg rt s (s\<lparr>rs_workers := (rs_workers s)[i := Stopped]\<rparr>)"
| cancelled: "rs_starter s = Blocked \<Longrightarrow> rt_ctx_err rt (rs_world s) = (Some e, w)
    \<Longrightarrow> relay_step cfg rt s (s\<lparr>rs_starter := Joining, rs_world := w\<rparr>)"
| join: "rs_starter s = Joining \<Longrightarrow> list_all (\<lambda>p. p = Stopped) (rs_workers s)
    \<Longrightarrow> rt_ctx_err rt (rs_world s) = (e, w)
    \<Longrightarrow> relay_step cfg rt s (s\<lparr>rs_starter := Returned e, rs_world := w\<rparr>)"

definition relay_run :: "'w RelayConfig \<Rightarrow> 'w Runtime \<Rightarrow> 'w relay_sys \<Rightarrow> 'w relay_sys \<Rightarrow> bool" where
  "relay_run cfg rt = (relay_step cfg rt)\<^sup>*\<^sup>*"

inductive_cases relay_stepE: "relay_step cfg rt s s'"

section \<open>A worker's steps are its code\<close>

lemma worker_run_append:
  "worker_run cfg rt (cs @ cs') p w = (case worker_run cfg rt cs p w of (p', w') \<Rightarrow> worker_run cfg rt cs' p' w')"
  by (induction cs arbitrary: p w) (auto split: prod.split)

definition reaches :: "'w RelayConfig \<Rightarrow> 'w Runtime \<Rightarrow> worker \<Rightarrow> 'w \<Rightarrow> worker \<Rightarrow> 'w \<Rightarrow> bool" where
  "reaches cfg rt p w p' w' \<longleftrightarrow> (\<exists>cs. worker_run cfg rt cs p w = (p', w'))"

lemma reaches_refl [simp]: "reaches cfg rt p w p w"
  unfolding reaches_def by (rule exI [of _ "[]"]) simp

lemma reaches_trans: "reaches cfg rt p w p' w' \<Longrightarrow> reaches cfg rt p' w' p'' w'' \<Longrightarrow> reaches cfg rt p w p'' w''"
  unfolding reaches_def
proof (elim exE)
  fix cs cs' assume "worker_run cfg rt cs p w = (p', w')" "worker_run cfg rt cs' p' w' = (p'', w'')"
  then have "worker_run cfg rt (cs @ cs') p w = (p'', w'')" by (simp add: worker_run_append)
  then show "\<exists>cs. worker_run cfg rt cs p w = (p'', w'')" ..
qed

lemma reaches_step: "worker_next cfg rt c p w = (p', w') \<Longrightarrow> reaches cfg rt p w p' w'"
  unfolding reaches_def by (rule exI [of _ "[c]"]) simp

lemma reaches_next:
  "worker_next cfg rt TickerFired p w = (p', w') \<Longrightarrow> reaches cfg rt p' w' q v \<Longrightarrow> reaches cfg rt p w q v"
  by (blast intro: reaches_step reaches_trans)

lemma reaches_event:
  assumes "process_event cfg rt ev n err w = (r, w')"
  shows "reaches cfg rt (Handling inner (ev # evs) n err) w (after_mark cfg inner evs r) w'"
proof -
  obtain c w1 x w2 p w3 where
    q: "rt_ctx_err rt w = (c, w1)" "lease_expired rt ev w1 = (x, w2)"
      "publishWithRecovery cfg ev w2 = (p, w3)" by (metis prod.exhaust)
  show ?thesis
  proof (cases "c = None \<and> \<not> x")
    case False
    with assms q show ?thesis
      by (intro reaches_next [OF _ reaches_refl]) (auto simp: process_event_def after_mark_def split: option.splits)
  next
    case True
    with q have "worker_next cfg rt TickerFired (Handling inner (ev # evs) n err) w = (Publishing inner ev evs n err, w2)"
      by simp
    moreover have "worker_next cfg rt TickerFired (Publishing inner ev evs n err) w2 = (Marking inner ev p evs n err, w3)"
      using q by simp
    moreover have "worker_next cfg rt TickerFired (Marking inner ev p evs n err) w3 = (after_mark cfg inner evs r, w')"
      using True assms q by (cases p) (simp_all add: process_event_def)
    ultimately show ?thesis by (blast intro: reaches_next reaches_refl)
  qed
qed

lemma reaches_events:
  assumes "process_events cfg rt evs n err w = ((m, e), w')"
  shows "reaches cfg rt (Handling inner evs n err) w (batch_end cfg inner m e) w'"
  using assms
proof (induction evs arbitrary: n err w)
  case Nil
  then show ?case by (intro reaches_next [OF _ reaches_refl]) simp
next
  case (Cons ev evs)
  obtain r w1 where q: "process_event cfg rt ev n err w = (r, w1)" by fastforce
  note h = reaches_event [OF q, of inner evs]
  show ?case
  proof (cases r)
    case (Return k e1)
    with q h Cons.prems show ?thesis by (simp add: after_mark_def)
  next
    case (Continue k e1)
    with q Cons have "reaches cfg rt (Handling inner evs k e1) w1 (batch_end cfg inner m e) w'" by simp
    with h Continue show ?thesis by (auto simp: after_mark_def intro: reaches_trans)
  qed
qed

lemma reaches_batch:
  assumes "ProcessBatch cfg rt w = ((m, e), w')"
  shows "reaches cfg rt (Fetching inner) w (batch_end cfg inner m e) w'"
proof -
  obtain r w1 where q: "st_FetchPendingBatch (the (cfg_Store cfg)) (BatchSize cfg) w = (r, w1)" by fastforce
  show ?thesis
  proof (cases "\<exists>evs. r = Inr evs \<and> evs \<noteq> []")
    case True
    then obtain evs where r: "r = Inr evs" "evs \<noteq> []" by blast
    with q assms have "process_events cfg rt evs 0 None w1 = ((m, e), w')" by (simp add: ProcessBatch_def)
    from reaches_next [OF _ reaches_events [OF this]] q r show ?thesis by simp
  next
    case False
    with q assms show ?thesis
      by (intro reaches_next [OF _ reaches_refl]) (auto simp: ProcessBatch_def split: sum.splits)
  qed
qed

lemma reaches_drain:
  assumes "drain cfg rt n w = Some res"
  shows "reaches cfg rt (if n = BatchSize cfg then Draining else Selecting) w
    (if fst res then Stopped else Selecting) (snd res)"
proof (rule drain.raw_induct [where P = "\<lambda>cfg rt n w res. reaches cfg rt
    (if n = BatchSize cfg then Draining else Selecting) w (if fst res then Stopped else Selecting) (snd res)", OF _ assms])
  fix dr and c :: "'a RelayConfig" and r n w res
  assume IH: "\<And>c r n w res. dr c r n w = Some res \<Longrightarrow> reaches c r
      (if n = BatchSize c then Draining else Selecting) w (if fst res then Stopped else Selecting) (snd res)"
    and eq: "(if n = BatchSize c
      then case rt_ctx_err r w of
          (None, w1) \<Rightarrow> (case ProcessBatch c r w1 of
            ((n', None), w2) \<Rightarrow> dr c r n' w2 | ((n', Some x), w2) \<Rightarrow> Some (False, w2))
        | (Some x, w1) \<Rightarrow> Some (True, w1)
      else Some (False, w)) = Some res"
  obtain e w1 where e: "rt_ctx_err r w = (e, w1)" by fastforce
  obtain m err w2 where pb: "ProcessBatch c r w1 = ((m, err), w2)" by (metis prod.exhaust)
  show "reaches c r (if n = BatchSize c then Draining else Selecting) w
      (if fst res then Stopped else Selecting) (snd res)"
  proof (cases "n = BatchSize c \<and> e = None")
    case True
    with e have "worker_next c r TickerFired Draining w = (Fetching True, w1)" by simp
    note b = reaches_next [OF this reaches_batch [OF pb]]
    show ?thesis
    proof (cases err)
      case None
      with eq e pb True have "dr c r m w2 = Some res" by simp
      from reaches_trans [OF b] IH [OF this] None True show ?thesis by (simp add: batch_end_def)
    next
      case (Some x)
      with eq e pb True b show ?thesis by (auto simp: batch_end_def)
    qed
  next
    case False
    with eq e reaches_step [of c r TickerFired Draining w Stopped w1] show ?thesis by (auto split: option.splits)
  qed
qed

lemma reaches_worker:
  "runWorker cfg rt cs w = Some w' \<Longrightarrow> \<exists>p. (p = Selecting \<or> p = Stopped) \<and> reaches cfg rt Selecting w p w'"
proof (induction cs arbitrary: w)
  case (Cons c cs)
  show ?case
  proof (cases c)
    case CtxDone
    with Cons.prems reaches_step [of cfg rt CtxDone Selecting w] show ?thesis by auto
  next
    case TickerFired
    obtain m err w1 where pb: "ProcessBatch cfg rt w = ((m, err), w1)" by (metis prod.exhaust)
    from TickerFired pb Cons.prems obtain b w2 where d: "drain cfg rt m w1 = Some (b, w2)"
      by (auto split: option.splits)
    have "worker_next cfg rt TickerFired Selecting w = (Fetching False, w)" by simp
    from reaches_next [OF this reaches_batch [OF pb]] reaches_drain [OF d]
    have r: "reaches cfg rt Selecting w (if b then Stopped else Selecting) w2"
      by (auto simp: batch_end_def intro: reaches_trans)
    with Cons.prems Cons.IH [of w2] TickerFired pb d show ?thesis by (cases b) (auto intro: reaches_trans)
  qed
qed auto

section \<open>Nothing is published without being delivered\<close>

text \<open>The event whose publication a worker has been told of and not yet recorded.\<close>

fun delivered :: "worker \<Rightarrow> uuid set" where
  "delivered (Marking inner ev None evs n err) = {ID ev}"
| "delivered p = {}"

lemma delivered_batch_end [simp]: "delivered (batch_end cfg inner n err) = {}"
  by (simp add: batch_end_def)

lemma delivered_after_mark [simp]: "delivered (after_mark cfg inner evs r) = {}"
  by (simp add: after_mark_def split: loop_result.split)

text \<open>One while a worker is about to call \<open>Publish\<close>.\<close>

fun publishing :: "worker \<Rightarrow> nat" where
  "publishing (Publishing inner ev evs n err) = 1"
| "publishing p = 0"

lemma publishing_batch_end [simp]: "publishing (batch_end cfg inner n err) = 0"
  by (simp add: batch_end_def)

lemma publishing_after_mark [simp]: "publishing (after_mark cfg inner evs r) = 0"
  by (simp add: after_mark_def split: loop_result.split)

context outbox_relay
begin

text \<open>What holds of a relay that started in \<open>w0\<close>.\<close>

definition covered :: "'w \<Rightarrow> 'w \<Rightarrow> worker list \<Rightarrow> bool" where
  "covered w0 w ps \<longleftrightarrow> inv w \<and> (\<exists>new. acked w = new @ acked w0
     \<and> (\<forall>i. status w i = Some StatusPublished \<longrightarrow> status w0 i = Some StatusPublished \<or> i \<in> set new)
     \<and> (\<forall>p\<in>set ps. delivered p \<subseteq> set new))"

lemma covered_mono:
  assumes "covered w0 w ps" and "inv w'" and "acked w' = new @ acked w"
    and "\<And>i. status w' i = Some StatusPublished \<Longrightarrow>
      status w i = Some StatusPublished \<or> i \<in> set new \<or> (\<exists>p\<in>set ps. i \<in> delivered p)"
    and "\<And>p. p \<in> set ps' \<Longrightarrow> delivered p \<subseteq> set new \<or> p \<in> set ps"
  shows "covered w0 w' ps'"
proof -
  from assms(1) obtain old where o: "acked w = old @ acked w0"
    "\<forall>i. status w i = Some StatusPublished \<longrightarrow> status w0 i = Some StatusPublished \<or> i \<in> set old"
    "\<forall>p\<in>set ps. delivered p \<subseteq> set old"
    unfolding covered_def by blast
  have "acked w' = (new @ old) @ acked w0" using o(1) assms(3) by simp
  moreover have "status w0 i = Some StatusPublished \<or> i \<in> set (new @ old)" if "status w' i = Some StatusPublished" for i
    using assms(4) [OF that] o(2,3) by auto
  moreover have "delivered p \<subseteq> set (new @ old)" if "p \<in> set ps'" for p
    using assms(5) [OF that] o(3) by auto
  ultimately show ?thesis unfolding covered_def using assms(2) by blast
qed

lemma worker_next_covered:
  assumes "inv w" and "worker_next cfg rt c p w = (p', w')"
  shows "inv w' \<and> (\<exists>new. acked w' = new @ acked w \<and> delivered p' \<subseteq> set new \<and> length new \<le> publishing p
    \<and> (\<forall>i. status w' i = Some StatusPublished \<longrightarrow> status w i = Some StatusPublished \<or> i \<in> delivered p))"
proof (cases p)
  case Selecting
  with assms show ?thesis by (cases c) auto
next
  case (Fetching inner)
  obtain r w1 where q: "st_FetchPendingBatch S (BatchSize cfg) w = (r, w1)" by fastforce
  with Fetching assms(2) have "w' = w1" "delivered p' = {}" by (auto simp: store split: sum.splits if_splits)
  with fetch [OF assms(1) q] show ?thesis by simp
next
  case (Handling inner evs n err)
  show ?thesis
  proof (cases evs)
    case Nil
    with Handling assms show ?thesis by auto
  next
    case (Cons ev rest)
    obtain e w1 x w2 where q: "rt_ctx_err rt w = (e, w1)" "lease_expired rt ev w1 = (x, w2)" by (metis prod.exhaust)
    note w1 = ctx [OF assms(1) q(1)]
    with lease_expired_quiet [OF _ q(2)] have w2: "inv w2 \<and> status w2 = status w \<and> acked w2 = acked w" by simp
    have "w' = w1 \<or> w' = w2" "delivered p' = {}"
      using assms(2) Handling Cons q by (auto split: option.splits bool.splits)
    with w1 w2 show ?thesis by auto
  qed
next
  case (Publishing inner ev evs n err)
  obtain e w1 where q: "publishWithRecovery cfg ev w = (e, w1)" by fastforce
  with publishWithRecovery_ack [OF assms(1) q] Publishing assms(2) show ?thesis by (cases e) auto
next
  case (Marking inner ev e evs n err)
  show ?thesis
  proof (cases e)
    case None
    obtain m w1 where q: "st_MarkPublished S (ID ev) (token_args ev) w = (m, w1)" by fastforce
    with Marking None assms(2) have "w' = w1" "delivered p' = {}"
      by (auto simp: record_published_def store split: option.splits)
    with mark_published [OF assms(1) q] Marking None show ?thesis by auto
  next
    case (Some pe)
    obtain m w1 where q: "handlePublishFailure cfg rt ev pe w = (m, w1)" by fastforce
    with Marking Some assms(2) have "w' = w1" "delivered p' = {}"
      by (auto simp: record_failure_def split: option.splits)
    moreover note handlePublishFailure_effect [OF assms(1) q]
    moreover have "status w i = Some StatusPublished" if "status w1 i = Some StatusPublished" for i
      using calculation that by (cases "i = ID ev") auto
    ultimately show ?thesis by (intro conjI exI [of _ "[]"]) auto
  qed
next
  case Draining
  obtain e w1 where q: "rt_ctx_err rt w = (e, w1)" by fastforce
  with ctx [OF assms(1) q] Draining assms(2) show ?thesis by (cases e) auto
next
  case Stopped
  with assms show ?thesis by auto
qed

lemma relay_step_covered:
  assumes "relay_step cfg rt s s'" and "covered w0 (rs_world s) (rs_workers s)"
  shows "covered w0 (rs_world s') (rs_workers s')"
  using assms(1)
proof cases
  case (work i c p w)
  have "inv (rs_world s)" using assms(2) by (simp add: covered_def)
  from worker_next_covered [OF this work(4)] obtain new where
    n: "inv w" "acked w = new @ acked (rs_world s)" "delivered p \<subseteq> set new"
      "\<And>j. status w j = Some StatusPublished \<Longrightarrow>
         status (rs_world s) j = Some StatusPublished \<or> j \<in> delivered (rs_workers s ! i)" by blast
  have m: "rs_workers s ! i \<in> set (rs_workers s)" using work(2) by simp
  show ?thesis
    unfolding work(1)
    by (simp, rule covered_mono [OF assms(2) n(1,2)])
      (use n(3,4) m set_update_subset_insert [of "rs_workers s" i p] in blast)+
next
  case (panic i)
  have "inv (rs_world s)" using assms(2) by (simp add: covered_def)
  with set_update_subset_insert [of "rs_workers s" i Stopped] show ?thesis
    unfolding panic(1) by (simp, intro covered_mono [OF assms(2), where new = "[]"]) auto
next
  case (cancelled e w)
  have "inv (rs_world s)" using assms(2) by (simp add: covered_def)
  from ctx [OF this cancelled(3)] show ?thesis
    unfolding cancelled(1) by (simp, intro covered_mono [OF assms(2), where new = "[]"]) auto
next
  case (join e w)
  have "inv (rs_world s)" using assms(2) by (simp add: covered_def)
  from ctx [OF this join(4)] show ?thesis
    unfolding join(1) by (simp, intro covered_mono [OF assms(2), where new = "[]"]) auto
qed

lemma relay_run_covered:
  assumes "relay_run cfg rt s s'" and "covered w0 (rs_world s) (rs_workers s)"
  shows "covered w0 (rs_world s') (rs_workers s')"
  using assms unfolding relay_run_def
  by (induction rule: rtranclp_induct) (auto intro: relay_step_covered)

lemma Start_covered: "inv w \<Longrightarrow> covered w w (rs_workers (Start cfg w))"
  by (simp add: covered_def Start_def)

text \<open>With the context done, no worker begins a publication.\<close>

lemma cancelled_publishing:
  assumes "\<And>w. fst (rt_ctx_err rt w) \<noteq> None" and "worker_next cfg rt c p w = (p', w')"
  shows "publishing p' = 0"
proof (cases p)
  case (Handling inner evs n err)
  with assms(1) [of w] assms(2) show ?thesis by (cases evs; cases "rt_ctx_err rt w") auto
next
  case (Marking inner ev e evs n err)
  with assms(2) show ?thesis by (cases e) (auto split: prod.splits)
next
  case Selecting
  with assms(2) show ?thesis by (cases c) auto
qed (use assms(2) in \<open>auto split: prod.splits sum.splits option.splits if_splits\<close>)

lemma cancelled_next:
  assumes "inv w" and "\<And>w. fst (rt_ctx_err rt w) \<noteq> None" and "worker_next cfg rt c p w = (p', w')"
  shows "inv w' \<and> publishing p' = 0 \<and> length (acked w') \<le> length (acked w) + publishing p"
  using worker_next_covered [OF assms(1,3)] cancelled_publishing [OF assms(2,3)] by fastforce

lemma cancelled_run:
  assumes "\<And>w. fst (rt_ctx_err rt w) \<noteq> None" and "inv w" and "worker_run cfg rt cs p w = (p', w')"
  shows "length (acked w') \<le> length (acked w) + publishing p"
  using assms(2,3)
proof (induction cs arbitrary: p w)
  case (Cons c cs)
  obtain p1 w1 where q: "worker_next cfg rt c p w = (p1, w1)" by fastforce
  from cancelled_next [OF Cons.prems(1) assms(1) q] Cons.IH [of w1 p1] Cons.prems(2) q show ?case by simp
qed simp

end

text \<open>How many steps a worker takes at most until it stops, once the context is done.\<close>

fun steps_left :: "worker \<Rightarrow> nat" where
  "steps_left Stopped = 0"
| "steps_left Selecting = 1"
| "steps_left Draining = 1"
| "steps_left (Handling inner evs n err) = 2"
| "steps_left (Fetching inner) = 3"
| "steps_left (Marking inner ev e evs n err) = 3"
| "steps_left (Publishing inner ev evs n err) = 4"

lemma steps_left_batch_end [simp]: "steps_left (batch_end cfg inner n err) = 1"
  by (simp add: batch_end_def)

lemma steps_left_after_mark: "steps_left (after_mark cfg inner evs r) \<le> 2"
  by (simp add: after_mark_def split: loop_result.split)

lemma cancelled_steps:
  assumes "\<And>w. fst (rt_ctx_err rt w) \<noteq> None"
  shows "steps_left (fst (worker_next cfg rt CtxDone p w)) \<le> steps_left p - 1"
proof (cases p)
  case (Handling inner evs n err)
  with assms [of w] show ?thesis by (cases evs; cases "rt_ctx_err rt w") auto
next
  case (Marking inner ev e evs n err)
  with steps_left_after_mark show ?thesis by (cases e) (auto split: prod.split)
next
  case Draining
  with assms [of w] show ?thesis by (cases "rt_ctx_err rt w") auto
qed (auto split: prod.split sum.split)

lemma cancelled_stops:
  assumes "\<And>w. fst (rt_ctx_err rt w) \<noteq> None" and "steps_left p \<le> n"
  shows "fst (worker_run cfg rt (replicate n CtxDone) p w) = Stopped"
  using assms(2)
proof (induction n arbitrary: p w)
  case 0
  then show ?case by (cases p) auto
next
  case (Suc n)
  obtain p1 w1 where q: "worker_next cfg rt CtxDone p w = (p1, w1)" by fastforce
  with cancelled_steps [OF assms(1), of cfg p w] Suc.prems have "steps_left p1 \<le> n" by simp
  with Suc.IH q show ?case by simp
qed

section \<open>Start and its workers\<close>

lemma relay_step_shape:
  assumes "relay_step cfg rt s s'"
    and "length (rs_workers s) = n \<and> (\<forall>e. rs_starter s = Returned e \<longrightarrow> list_all (\<lambda>p. p = Stopped) (rs_workers s))"
  shows "length (rs_workers s') = n \<and> (\<forall>e. rs_starter s' = Returned e \<longrightarrow> list_all (\<lambda>p. p = Stopped) (rs_workers s'))"
  using assms(1)
proof cases
  case (work i c p w)
  with assms(2) show ?thesis
    by (auto simp: list_all_length nth_list_update)
next
  case (panic i)
  with assms(2) show ?thesis by (auto simp: list_all_length nth_list_update)
qed (use assms(2) in auto)

lemma relay_run_shape:
  assumes "relay_run cfg rt s s'"
    and "length (rs_workers s) = n \<and> (\<forall>e. rs_starter s = Returned e \<longrightarrow> list_all (\<lambda>p. p = Stopped) (rs_workers s))"
  shows "length (rs_workers s') = n \<and> (\<forall>e. rs_starter s' = Returned e \<longrightarrow> list_all (\<lambda>p. p = Stopped) (rs_workers s'))"
  using assms unfolding relay_run_def
  by (induction rule: rtranclp_induct) (blast dest: relay_step_shape)+

lemma returned_step:
  assumes "relay_step cfg rt s s'" and "rs_starter s = Returned e" and "list_all (\<lambda>p. p = Stopped) (rs_workers s)"
  shows "s' = s"
  using assms(1)
proof cases
  case (work i c p w)
  with assms(3) have "rs_workers s ! i = Stopped" by (simp add: list_all_length)
  with work show ?thesis by (simp add: list_update_same_conv)
next
  case (panic i)
  with assms(3) have "rs_workers s ! i = Stopped" by (simp add: list_all_length)
  with panic show ?thesis by (simp add: list_update_same_conv)
qed (use assms(2) in auto)

lemma returned_run:
  assumes "relay_run cfg rt s s'" and "rs_starter s = Returned e" and "list_all (\<lambda>p. p = Stopped) (rs_workers s)"
  shows "s' = s"
  using assms(1) unfolding relay_run_def
  by (induction rule: rtranclp_induct) (use assms(2,3) in \<open>auto dest: returned_step\<close>)

lemma Start_shape:
  "length (rs_workers (Start cfg w)) = nat (Concurrency cfg)
    \<and> (\<forall>e. rs_starter (Start cfg w) = Returned e \<longrightarrow> list_all (\<lambda>p. p = Stopped) (rs_workers (Start cfg w)))"
  by (simp add: Start_def)

lemma Concurrency_pg [simp]: "Concurrency (pg_config s sc cfg) = Concurrency cfg"
  by (simp add: pg_config_def)

text \<open>A run of one worker, among others that stand still.\<close>

lemma worker_run_relay:
  assumes "worker_run cfg rt (replicate n TickerFired) p w = (p', w')" and "i < length ps" and "ps ! i = p"
  shows "relay_run cfg rt \<lparr>rs_starter = st, rs_workers = ps, rs_world = w\<rparr>
    \<lparr>rs_starter = st, rs_workers = ps[i := p'], rs_world = w'\<rparr>"
  using assms
proof (induction n arbitrary: p w ps)
  case 0
  then show ?case by (auto simp: relay_run_def list_update_same_conv)
next
  case (Suc n)
  obtain p1 w1 where q: "worker_next cfg rt TickerFired p w = (p1, w1)" by fastforce
  let ?s = "\<lparr>rs_starter = st, rs_workers = ps, rs_world = w\<rparr>"
  have "relay_step cfg rt ?s (?s\<lparr>rs_workers := (rs_workers ?s)[i := p1], rs_world := w1\<rparr>)"
    by (rule relay_step.work [where c = TickerFired]) (use Suc.prems q in \<open>auto simp: selectable_def\<close>)
  moreover have "relay_run cfg rt \<lparr>rs_starter = st, rs_workers = ps[i := p1], rs_world = w1\<rparr>
      \<lparr>rs_starter = st, rs_workers = ps[i := p1, i := p'], rs_world = w'\<rparr>"
    by (rule Suc.IH [of p1 w1]) (use Suc.prems q in auto)
  ultimately show ?case unfolding relay_run_def by (auto intro: converse_rtranclp_into_rtranclp)
qed

definition pair_cfg :: "pg_world RelayConfig" where
  "pair_cfg = pg_config demo_store relay_script (relay_cfg\<lparr>Concurrency := 2\<rparr>)"

definition pair_world :: pg_world where
  "pair_world = snd (worker_run pair_cfg demo_relay_rt (replicate 12 TickerFired) Selecting relay_world)"

lemma pair_published: "status_of (pg_table pair_world) 1 = Some StatusPublished" "pw_acked pair_world = [1]"
  by code_simp+

section \<open>Properties\<close>

text \<open>C2. The outbox pattern's promise, for a relay with any number of workers whose steps interleave in any
  order, among failed fetches, failed or lost marks, expired leases, errors and panics of the publisher,
  panics of the workers and a context cancelled at any point: an event that is PUBLISHED was already so
  when the relay started, or the publisher returned nil for it since.\<close>

theorem relay_start_publishes_only_acknowledged:
  assumes "relay_run (pg_config s sc cfg) (pg_runtime sc) (Start (pg_config s sc cfg) w) \<sigma>" and "table_ok (pg_table w)"
  shows "\<exists>new. pw_acked (rs_world \<sigma>) = new @ pw_acked w \<and>
    (\<forall>i. status_of (pg_table (rs_world \<sigma>)) i = Some StatusPublished \<longrightarrow>
       status_of (pg_table w) i = Some StatusPublished \<or> i \<in> set new)"
proof -
  have "pg_inv w" using assms(2) by (simp add: pg_inv_def)
  from pg.relay_run_covered [OF assms(1)] pg.Start_covered [OF this]
  have "pg.covered w (rs_world \<sigma>) (rs_workers \<sigma>)" by (simp add: Start_def)
  then show ?thesis unfolding pg.covered_def pg_status_def by blast
qed

theorem relay_start_publishes_only_acknowledged_witness:
  "\<exists>\<sigma>. relay_run pair_cfg demo_relay_rt (Start pair_cfg relay_world) \<sigma>
    \<and> status_of (pg_table (rs_world \<sigma>)) 1 = Some StatusPublished \<and> 1 \<in> set (pw_acked (rs_world \<sigma>))"
proof -
  let ?p = "fst (worker_run pair_cfg demo_relay_rt (replicate 12 TickerFired) Selecting relay_world)"
  let ?\<sigma> = "\<lparr>rs_starter = Blocked, rs_workers = [Selecting, Selecting][1 := ?p], rs_world = pair_world\<rparr>"
  have s: "Start pair_cfg relay_world = \<lparr>rs_starter = Blocked, rs_workers = [Selecting, Selecting], rs_world = relay_world\<rparr>"
    by (simp add: Start_def pair_cfg_def numeral_2_eq_2)
  have r: "relay_run pair_cfg demo_relay_rt (Start pair_cfg relay_world) ?\<sigma>"
    unfolding s pair_world_def by (rule worker_run_relay [of _ _ 12 Selecting]) simp_all
  from relay_start_publishes_only_acknowledged [OF r [unfolded pair_cfg_def] relay_world_ok(1)]
  have "1 \<in> set (pw_acked pair_world)" using pair_published(1) relay_end(3,4) by (auto simp: StatusPending_def StatusPublished_def)
  with r pair_published(1) show ?thesis by (intro exI [of _ ?\<sigma>]) simp
qed


definition cancelled_script :: pg_script where
  "cancelled_script = relay_script\<lparr>ps_ctx := (\<lambda>_. Some (Errorf ''context canceled''))\<rparr>"




text \<open>The steps are the code: whatever a run of \<open>runWorker\<close> does to the world, the worker does step by step,
  and ends at its select or stopped.\<close>

theorem relay_steps_run_worker:
  assumes "runWorker cfg rt cs w = Some w'"
  shows "\<exists>steps p. (p = Selecting \<or> p = Stopped) \<and> worker_run cfg rt steps Selecting w = (p, w')"
  using reaches_worker [OF assms] unfolding reaches_def by blast

theorem relay_steps_run_worker_witness:
  "\<exists>steps p. worker_run demo_relay_cfg demo_relay_rt steps Selecting relay_world = (p, relay_end)
    \<and> pw_acked relay_end = [1]"
  using relay_steps_run_worker [OF relay_worker] relay_end(1) by blast

end
