(* ===== verification/Go_Strings.thy ===== *)
theory Go_Strings
  imports Prelude
begin

text \<open>
  What the repository uses of Go's \<open>strings\<close>, \<open>unicode\<close> and \<open>unicode/utf8\<close> packages, on strings as
  byte lists: UTF-8 encoding of a rune, white space, trimming, prefixes, containment, splitting and
  replacing.
\<close>

definition byte :: "char \<Rightarrow> nat" where
  "byte c = of_char c"

lemma byte_less [simp]: "byte c < 256"
  by (simp add: byte_def)

lemma byte_inj: "byte c = byte d \<longleftrightarrow> c = d"
  by (simp add: byte_def)

lemma char_of_byte [simp]: "char_of (byte c) = c"
  by (simp add: byte_def)

definition is_digit :: "char \<Rightarrow> bool" where
  "is_digit c \<longleftrightarrow> 48 \<le> byte c \<and> byte c \<le> 57"

section \<open>UTF-8\<close>

type_synonym rune = int

definition bytes :: "int list \<Rightarrow> string" where
  "bytes ns = map (\<lambda>n. char_of (nat n)) ns"

text \<open>\<open>utf8.ValidRune\<close> and the encoding of a valid rune.\<close>

definition ValidRune :: "rune \<Rightarrow> bool" where
  "ValidRune r \<longleftrightarrow> 0 \<le> r \<and> r < 0xD800 \<or> 0xDFFF < r \<and> r \<le> 0x10FFFF"

definition utf8_encode :: "rune \<Rightarrow> string" where
  "utf8_encode r =
     (if r < 0x80 then bytes [r]
      else if r < 0x800 then bytes [0xC0 + r div 64, 0x80 + r mod 64]
      else if r < 0x10000 then bytes [0xE0 + r div 4096, 0x80 + (r div 64) mod 64, 0x80 + r mod 64]
      else bytes [0xF0 + r div 262144, 0x80 + (r div 4096) mod 64, 0x80 + (r div 64) mod 64,
                  0x80 + r mod 64])"

section \<open>White space\<close>

text \<open>\<open>unicode.IsSpace\<close>: the six ASCII spaces, and the encodings of the other white space runes.\<close>

definition ascii_space :: "char \<Rightarrow> bool" where
  "ascii_space c \<longleftrightarrow> c \<in> {CHR 9, CHR 10, CHR 11, CHR 12, CHR 13, CHR 32}"

definition space_runes :: "rune list" where
  "space_runes = [0x85, 0xA0, 0x1680, 0x2000, 0x2001, 0x2002, 0x2003, 0x2004, 0x2005, 0x2006, 0x2007,
     0x2008, 0x2009, 0x200A, 0x2028, 0x2029, 0x202F, 0x205F, 0x3000]"

definition space_seqs :: "string list" where
  "space_seqs =
   [[CHR 0xC2, CHR 0x85], [CHR 0xC2, CHR 0xA0], [CHR 0xE1, CHR 0x9A, CHR 0x80],
    [CHR 0xE2, CHR 0x80, CHR 0x80], [CHR 0xE2, CHR 0x80, CHR 0x81],
    [CHR 0xE2, CHR 0x80, CHR 0x82], [CHR 0xE2, CHR 0x80, CHR 0x83],
    [CHR 0xE2, CHR 0x80, CHR 0x84], [CHR 0xE2, CHR 0x80, CHR 0x85],
    [CHR 0xE2, CHR 0x80, CHR 0x86], [CHR 0xE2, CHR 0x80, CHR 0x87],
    [CHR 0xE2, CHR 0x80, CHR 0x88], [CHR 0xE2, CHR 0x80, CHR 0x89],
    [CHR 0xE2, CHR 0x80, CHR 0x8A], [CHR 0xE2, CHR 0x80, CHR 0xA8],
    [CHR 0xE2, CHR 0x80, CHR 0xA9], [CHR 0xE2, CHR 0x80, CHR 0xAF],
    [CHR 0xE2, CHR 0x81, CHR 0x9F], [CHR 0xE3, CHR 0x80, CHR 0x80]]"

lemma space_seqs_utf8: "space_seqs = map utf8_encode space_runes"
  by (simp add: space_seqs_def space_runes_def utf8_encode_def bytes_def char_of_def bit_0)

text \<open>The size in bytes of a white space rune at the start of a string, 0 if there is none.\<close>

definition leading_space :: "string \<Rightarrow> nat" where
  "leading_space s =
     (case s of
        [] \<Rightarrow> 0
      | c # _ \<Rightarrow> if ascii_space c then 1
                 else case find (\<lambda>q. prefix q s) space_seqs of None \<Rightarrow> 0 | Some q \<Rightarrow> length q)"

lemma leading_space_Nil [simp]: "leading_space [] = 0"
  by (simp add: leading_space_def)

definition trailing_space :: "string \<Rightarrow> nat" where
  "trailing_space s =
     (if s = [] then 0
      else if ascii_space (last s) then 1
      else case find (\<lambda>q. suffix q s) space_seqs of None \<Rightarrow> 0 | Some q \<Rightarrow> length q)"

text \<open>\<open>strings.TrimSpace\<close>; the recursions drop at least one byte each time.\<close>

function trim_left_space :: "string \<Rightarrow> string" where
  "trim_left_space s =
     (if leading_space s = 0 then s else trim_left_space (drop (leading_space s) s))"
  by pat_completeness auto

termination
proof (relation "measure length")
  fix s :: string assume "leading_space s \<noteq> 0"
  then show "(drop (leading_space s) s, s) \<in> measure length" by (cases s) auto
qed simp

function trim_right_space :: "string \<Rightarrow> string" where
  "trim_right_space s =
     (if trailing_space s = 0 then s else trim_right_space (take (length s - trailing_space s) s))"
  by pat_completeness auto

termination
proof (relation "measure length")
  fix s :: string assume "trailing_space s \<noteq> 0"
  then show "(take (length s - trailing_space s) s, s) \<in> measure length"
    by (cases "s = []") (auto simp: trailing_space_def)
qed simp

declare trim_left_space.simps [simp del] trim_right_space.simps [simp del]

definition TrimSpace :: "string \<Rightarrow> string" where
  "TrimSpace s = trim_right_space (trim_left_space s)"

lemma trim_left_suffix: "suffix (trim_left_space s) s"
proof (induction s rule: trim_left_space.induct)
  case (1 s)
  show ?case
  proof (cases "leading_space s = 0")
    case False
    with 1 show ?thesis
      by (subst trim_left_space.simps) (auto intro: suffix_order.order_trans suffix_drop)
  qed (simp add: trim_left_space.simps)
qed

lemma trim_right_prefix: "prefix (trim_right_space s) s"
proof (induction s rule: trim_right_space.induct)
  case (1 s)
  show ?case
  proof (cases "trailing_space s = 0")
    case False
    with 1 show ?thesis
      by (subst trim_right_space.simps) (auto intro: prefix_order.order_trans take_is_prefix)
  qed (simp add: trim_right_space.simps)
qed

lemma set_TrimSpace: "set (TrimSpace s) \<subseteq> set s"
  unfolding TrimSpace_def
  using set_mono_prefix [OF trim_right_prefix] set_mono_suffix [OF trim_left_suffix] by blast

lemma TrimSpace_Nil [simp]: "TrimSpace [] = []"
  by (simp add: TrimSpace_def trim_left_space.simps trim_right_space.simps trailing_space_def)

section \<open>Prefixes, containment, splitting\<close>

definition HasPrefix :: "string \<Rightarrow> string \<Rightarrow> bool" where
  "HasPrefix s p \<longleftrightarrow> prefix p s"

definition TrimPrefix :: "string \<Rightarrow> string \<Rightarrow> string" where
  "TrimPrefix s p = (if prefix p s then drop (length p) s else s)"

definition TrimSuffix :: "string \<Rightarrow> string \<Rightarrow> string" where
  "TrimSuffix s p = (if suffix p s then take (length s - length p) s else s)"

fun Contains :: "string \<Rightarrow> string \<Rightarrow> bool" where
  "Contains [] p \<longleftrightarrow> p = []"
| "Contains (c # s) p \<longleftrightarrow> prefix p (c # s) \<or> Contains s p"

text \<open>\<open>strings.Split\<close> with a one-byte separator.\<close>

fun Split :: "string \<Rightarrow> char \<Rightarrow> string list" where
  "Split [] d = [[]]"
| "Split (c # s) d =
     (if c = d then [] # Split s d
      else case Split s d of [] \<Rightarrow> [[c]] | p # ps \<Rightarrow> (c # p) # ps)"

text \<open>\<open>strings.ReplaceAll\<close> of one byte.\<close>

definition replace_byte :: "char \<Rightarrow> string \<Rightarrow> string \<Rightarrow> string" where
  "replace_byte d new s = concat (map (\<lambda>c. if c = d then new else [c]) s)"

lemma Contains_iff: "Contains s p \<longleftrightarrow> sublist p s"
  by (induction s) (auto simp: sublist_Cons_right)

lemma Split_nonempty [simp]: "Split s d \<noteq> []"
  by (induction s) (auto split: list.splits)

end
