(* ===== verification/Go_Csv.thy ===== *)
theory Go_Csv
  imports Go_Errors Go_Strings
begin

text \<open>
  What \<^verbatim>\<open>export/csv.go\<close> uses of \<open>io\<close>, \<open>bufio\<close> and \<open>encoding/csv\<close>: an output sink, the buffered writer
  in front of it, and the encoding of records; and a reference reader for the format (RFC 4180),
  against which the encoding is checked.
\<close>

section \<open>Sinks\<close>

text \<open>An \<open>io.Writer\<close>: a call takes some of the bytes, and an error if it took fewer than all.\<close>

type_synonym 's io_write = "string \<Rightarrow> 's \<Rightarrow> (nat \<times> goerr option) \<times> 's"

text \<open>The contract of \<open>io.Writer\<close>, through the bytes a sink has received so far.\<close>

locale io_writer =
  fixes wr :: "'s io_write" and got :: "'s \<Rightarrow> string"
  assumes wr_got: "wr p s = ((n, e), s') \<Longrightarrow> got s' = got s @ take n p"
    and wr_count: "wr p s = ((n, e), s') \<Longrightarrow> n \<le> length p"
    and wr_short: "wr p s = ((n, e), s') \<Longrightarrow> n < length p \<Longrightarrow> e \<noteq> None"

text \<open>A connection that takes a given number of bytes and then breaks; without a limit it is a
  \<open>bytes.Buffer\<close>.\<close>

record conn =
  cn_got :: string
  cn_left :: "nat option"

definition conn_write :: "goerr \<Rightarrow> conn io_write" where
  "conn_write broken p c =
     (case cn_left c of
        None \<Rightarrow> ((length p, None), c\<lparr>cn_got := cn_got c @ p\<rparr>)
      | Some k \<Rightarrow>
          let n = min k (length p)
          in ((n, if n < length p then Some broken else None),
              c\<lparr>cn_got := cn_got c @ take n p, cn_left := Some (k - n)\<rparr>))"

interpretation conn: io_writer "conn_write broken" cn_got for broken
  by unfold_locales (auto simp: conn_write_def Let_def split: option.splits)

section \<open>bufio.Writer\<close>

text \<open>
  The buffer holds at most 4096 bytes and goes to the sink when another byte does not fit; an error is
  latched.  (For a long string and a sink that implements \<open>io.StringWriter\<close> the library skips the
  buffer; the bytes and their order are the same.)
\<close>

record 's bufw =
  bw_sink :: 's
  bw_buf :: string
  bw_err :: "goerr option"

definition bw_flush :: "'s io_write \<Rightarrow> 's bufw \<Rightarrow> goerr option \<times> 's bufw" where
  "bw_flush wr b =
     (case bw_err b of
        Some e \<Rightarrow> (Some e, b)
      | None \<Rightarrow>
          if bw_buf b = [] then (None, b)
          else (case wr (bw_buf b) (bw_sink b) of
                  ((n, e), s') \<Rightarrow>
                    (case (if n < length (bw_buf b) \<and> e = None then Some (Sentinel ErrShortWrite) else e) of
                       Some err \<Rightarrow>
                         (Some err, b\<lparr>bw_sink := s', bw_buf := drop n (bw_buf b), bw_err := Some err\<rparr>)
                     | None \<Rightarrow> (None, b\<lparr>bw_sink := s', bw_buf := []\<rparr>))))"

fun bw_write :: "'s io_write \<Rightarrow> string \<Rightarrow> 's bufw \<Rightarrow> goerr option \<times> 's bufw" where
  "bw_write wr [] b = (bw_err b, b)"
| "bw_write wr (c # p) b =
     (if bw_err b \<noteq> None then (bw_err b, b)
      else if length (bw_buf b) \<ge> 4096
      then (case bw_flush wr b of
              (Some e, b') \<Rightarrow> (Some e, b')
            | (None, b') \<Rightarrow> bw_write wr p (b'\<lparr>bw_buf := bw_buf b' @ [c]\<rparr>))
      else bw_write wr p (b\<lparr>bw_buf := bw_buf b @ [c]\<rparr>))"

section \<open>csv.Writer\<close>

definition validDelim :: "rune \<Rightarrow> bool" where
  "validDelim r \<longleftrightarrow> r \<noteq> 0 \<and> r \<noteq> 34 \<and> r \<noteq> 13 \<and> r \<noteq> 10 \<and> ValidRune r \<and> r \<noteq> 0xFFFD"

definition fieldNeedsQuotes :: "rune \<Rightarrow> string \<Rightarrow> bool" where
  "fieldNeedsQuotes comma field =
     (if field = [] then False
      else if field = [CHR 92, CHR ''.''] then True
      else if (if comma < 0x80
               then \<exists>c\<in>set field. c \<in> {CHR 10, CHR 13, CHR 34} \<or> int (byte c) = comma
               else Contains field (utf8_encode comma) \<or> (\<exists>c\<in>set field. c \<in> {CHR 10, CHR 13, CHR 34}))
      then True
      else leading_space field \<noteq> 0)"

text \<open>The text between the quotes: quotes doubled; with CRLF line ends, bare \<open>\r\<close> dropped and \<open>\n\<close>
  written as \<open>\r\n\<close>.\<close>

definition csv_escape :: "bool \<Rightarrow> char \<Rightarrow> string" where
  "csv_escape crlf c =
     (if c = CHR 34 then [CHR 34, CHR 34]
      else if c = CHR 13 then (if crlf then [] else [CHR 13])
      else if c = CHR 10 then (if crlf then [CHR 13, CHR 10] else [CHR 10])
      else [c])"

definition csv_field :: "rune \<Rightarrow> bool \<Rightarrow> string \<Rightarrow> string" where
  "csv_field comma crlf field =
     (if \<not> fieldNeedsQuotes comma field then field
      else CHR 34 # concat (map (csv_escape crlf) field) @ [CHR 34])"

fun csv_fields :: "rune \<Rightarrow> bool \<Rightarrow> string list \<Rightarrow> string" where
  "csv_fields comma crlf [] = []"
| "csv_fields comma crlf [f] = csv_field comma crlf f"
| "csv_fields comma crlf (f # fs) = csv_field comma crlf f @ utf8_encode comma @ csv_fields comma crlf fs"

definition line_end :: "bool \<Rightarrow> string" where
  "line_end crlf = (if crlf then [CHR 13, CHR 10] else [CHR 10])"

definition csv_record :: "rune \<Rightarrow> bool \<Rightarrow> string list \<Rightarrow> string" where
  "csv_record comma crlf fs = csv_fields comma crlf fs @ line_end crlf"

definition csv_Write ::
  "'s io_write \<Rightarrow> rune \<Rightarrow> bool \<Rightarrow> string list \<Rightarrow> 's bufw \<Rightarrow> goerr option \<times> 's bufw" where
  "csv_Write wr comma crlf fs b =
     (if \<not> validDelim comma then (Some (Sentinel ErrInvalidDelim), b)
      else bw_write wr (csv_record comma crlf fs) b)"

section \<open>The buffered writer keeps the stream\<close>

context io_writer
begin

text \<open>Everything accepted so far, received or pending.\<close>

definition accepted :: "'s bufw \<Rightarrow> string" where
  "accepted b = got (bw_sink b) @ bw_buf b"

lemma flush_accepted:
  assumes "bw_flush wr b = (e, b')"
  shows "accepted b' = accepted b \<and> e = bw_err b' \<and> (e = None \<longrightarrow> bw_buf b' = [] \<and> bw_err b = None)
    \<and> (bw_err b \<noteq> None \<longrightarrow> b' = b)"
proof (cases "bw_err b = None \<and> bw_buf b \<noteq> []")
  case True
  obtain n we s' where w: "wr (bw_buf b) (bw_sink b) = ((n, we), s')" by (metis prod.exhaust)
  have "got s' = got (bw_sink b) @ take n (bw_buf b)" "n \<le> length (bw_buf b)"
    using wr_got [OF w] wr_count [OF w] by simp_all
  with True assms w wr_short [OF w] show ?thesis
    by (auto simp: bw_flush_def accepted_def split: option.splits if_splits)
next
  case False
  with assms show ?thesis by (auto simp: bw_flush_def split: option.splits)
qed

lemma write_accepted:
  assumes "bw_write wr p b = (e, b')"
  shows "\<exists>q. prefix q p \<and> accepted b' = accepted b @ q \<and> e = bw_err b' \<and> (e = None \<longrightarrow> q = p)
    \<and> (bw_err b \<noteq> None \<longrightarrow> b' = b)"
  using assms
proof (induction p arbitrary: b)
  case (Cons c p)
  have step: ?case if "bw_write wr p (b1\<lparr>bw_buf := bw_buf b1 @ [c]\<rparr>) = (e, b')" "accepted b1 = accepted b"
    "bw_err b = None" for b1
  proof -
    from Cons.IH [OF that(1)] obtain q where "prefix q p"
      "accepted b' = accepted (b1\<lparr>bw_buf := bw_buf b1 @ [c]\<rparr>) @ q" "e = bw_err b'" "e = None \<longrightarrow> q = p"
      by auto
    with that(2,3) show ?thesis by (intro exI [of _ "c # q"]) (simp add: accepted_def)
  qed
  show ?case
  proof (cases "bw_err b = None")
    case True
    show ?thesis
    proof (cases "length (bw_buf b) \<ge> 4096")
      case full: True
      obtain fe b1 where f: "bw_flush wr b = (fe, b1)" by fastforce
      note fa = flush_accepted [OF f]
      show ?thesis
      proof (cases fe)
        case None
        with Cons.prems True full f have "bw_write wr p (b1\<lparr>bw_buf := bw_buf b1 @ [c]\<rparr>) = (e, b')" by simp
        with fa True show ?thesis by (intro step [of b1]) simp_all
      next
        case (Some fe')
        with Cons.prems True full f have "e = Some fe'" "b' = b1" by simp_all
        moreover have "bw_err b1 = Some fe'" using fa Some by simp
        ultimately show ?thesis using fa True by (intro exI [of _ "[]"]) simp
      qed
    next
      case False
      with Cons.prems True have "bw_write wr p (b\<lparr>bw_buf := bw_buf b @ [c]\<rparr>) = (e, b')" by simp
      with True show ?thesis by (intro step [of b]) simp_all
    qed
  next
    case False
    with Cons.prems show ?thesis by (intro exI [of _ "[]"]) auto
  qed
qed auto

end

section \<open>A reference reader\<close>

text \<open>
  The format as RFC 4180 reads it, for a one-byte delimiter: fields are plain or quoted, a quote in a
  quoted field is doubled, and a record ends with \<open>\n\<close> or \<open>\r\n\<close>.
\<close>

fun read_quoted :: "string \<Rightarrow> (string \<times> string) option" where
  "read_quoted [] = None"
| "read_quoted (c # s) =
     (if c = CHR 34
      then (case s of
              d # s' \<Rightarrow> if d = CHR 34 then map_option (map_prod ((#) (CHR 34)) id) (read_quoted s')
                        else Some ([], s)
            | [] \<Rightarrow> Some ([], []))
      else map_option (map_prod ((#) c) id) (read_quoted s))"

definition plain_char :: "char \<Rightarrow> char \<Rightarrow> bool" where
  "plain_char d c \<longleftrightarrow> c \<noteq> d \<and> c \<noteq> CHR 34 \<and> c \<noteq> CHR 13 \<and> c \<noteq> CHR 10"

definition read_field :: "char \<Rightarrow> string \<Rightarrow> (string \<times> string) option" where
  "read_field d s =
     (case s of
        c # s' \<Rightarrow> if c = CHR 34 then read_quoted s'
                  else Some (takeWhile (plain_char d) s, dropWhile (plain_char d) s)
      | [] \<Rightarrow> Some ([], []))"

text \<open>Fields up to the end of the record; the fuel bounds the number of fields.\<close>

fun read_record :: "nat \<Rightarrow> char \<Rightarrow> string \<Rightarrow> (string list \<times> string) option" where
  "read_record 0 d s = None"
| "read_record (Suc k) d s =
     (case read_field d s of
        None \<Rightarrow> None
      | Some (f, r) \<Rightarrow>
          (case r of
             c # r' \<Rightarrow>
               if c = d then map_option (map_prod ((#) f) id) (read_record k d r')
               else if c = CHR 10 then Some ([f], r')
               else if c = CHR 13 \<and> r' \<noteq> [] \<and> hd r' = CHR 10 then Some ([f], tl r')
               else None
           | [] \<Rightarrow> Some ([f], [])))"

fun read_records :: "nat \<Rightarrow> char \<Rightarrow> string \<Rightarrow> string list list option" where
  "read_records 0 d s = None"
| "read_records (Suc k) d s =
     (if s = [] then Some []
      else case read_record (Suc (length s)) d s of
             None \<Rightarrow> None
           | Some (fs, r) \<Rightarrow> map_option ((#) fs) (read_records k d r))"

definition csv_read :: "char \<Rightarrow> string \<Rightarrow> string list list option" where
  "csv_read d s = read_records (Suc (length s)) d s"

text \<open>What the writer does to the content of a field.\<close>

definition csv_content :: "bool \<Rightarrow> string \<Rightarrow> string" where
  "csv_content crlf f =
     concat (map (\<lambda>c. if c = CHR 13 \<and> crlf then [] else if c = CHR 10 \<and> crlf then [CHR 13, CHR 10] else [c]) f)"

lemma csv_content_plain:
  "CHR 13 \<notin> set f \<Longrightarrow> CHR 10 \<notin> set f \<or> \<not> crlf \<Longrightarrow> csv_content crlf f = f"
  by (induction f) (auto simp: csv_content_def)

lemma csv_content_lf [simp]: "csv_content False f = f"
  by (induction f) (auto simp: csv_content_def)

lemma read_quoted_escape:
  assumes "r = [] \<or> hd r \<noteq> CHR 34"
  shows "read_quoted (concat (map (csv_escape crlf) f) @ CHR 34 # r) = Some (csv_content crlf f, r)"
proof (induction f)
  case Nil
  with assms show ?case by (cases r) (auto simp: csv_content_def)
next
  case (Cons c f)
  have "csv_content crlf (c # f) = csv_content crlf [c] @ csv_content crlf f"
    by (simp add: csv_content_def)
  moreover have "read_quoted (csv_escape crlf c @ s) = map_option (map_prod ((@) (csv_content crlf [c])) id) (read_quoted s)"
    for s
    by (cases "read_quoted s") (auto simp: csv_escape_def csv_content_def)
  ultimately show ?case using Cons by simp
qed

definition one_byte_delim :: "char \<Rightarrow> bool" where
  "one_byte_delim d \<longleftrightarrow> byte d < 128 \<and> validDelim (int (byte d))"

lemma one_byte_delim_neq:
  "one_byte_delim d \<Longrightarrow> d \<noteq> CHR 34 \<and> d \<noteq> CHR 13 \<and> d \<noteq> CHR 10"
  by (auto simp: one_byte_delim_def validDelim_def byte_def)

lemma utf8_one_byte: "byte d < 128 \<Longrightarrow> utf8_encode (int (byte d)) = [d]"
  by (simp add: utf8_encode_def bytes_def)

lemma unquoted_plain:
  assumes "\<not> fieldNeedsQuotes (int (byte d)) f" and "one_byte_delim d"
  shows "\<forall>c\<in>set f. plain_char d c"
  using assms by (auto simp: fieldNeedsQuotes_def plain_char_def one_byte_delim_def byte_inj split: if_splits)

lemma takeWhile_all_append:
  assumes "\<forall>c\<in>set f. P c" and "r = [] \<or> \<not> P (hd r)"
  shows "takeWhile P (f @ r) = f \<and> dropWhile P (f @ r) = r"
  using assms by (cases r) (auto simp: takeWhile_append2 dropWhile_append2)

lemma read_field_write:
  assumes "one_byte_delim d" and "r \<noteq> []" and "\<not> plain_char d (hd r)" and "hd r \<noteq> CHR 34"
  shows "read_field d (csv_field (int (byte d)) crlf f @ r) = Some (csv_content crlf f, r)"
proof (cases "fieldNeedsQuotes (int (byte d)) f")
  case True
  then show ?thesis using assms(2,4) read_quoted_escape [of r crlf f]
    by (simp add: csv_field_def read_field_def)
next
  case False
  note p = unquoted_plain [OF False assms(1)]
  then have c: "csv_content crlf f = f" by (auto intro!: csv_content_plain simp: plain_char_def)
  obtain x t where x: "f @ r = x # t" "x \<noteq> CHR 34"
    using p assms(2,4) by (cases f; cases r) (auto simp: plain_char_def)
  have "takeWhile (plain_char d) (f @ r) = f \<and> dropWhile (plain_char d) (f @ r) = r"
    using assms(3) by (intro takeWhile_all_append [OF p]) simp
  then have "read_field d (f @ r) = Some (f, r)" unfolding x(1) using x(2) by (simp add: read_field_def)
  with False c show ?thesis by (simp add: csv_field_def)
qed

lemma read_record_write:
  assumes "one_byte_delim d" and "fs \<noteq> []" and "length fs \<le> k"
  shows "read_record k d (csv_record (int (byte d)) crlf fs @ r) = Some (map (csv_content crlf) fs, r)"
  using assms(2,3)
proof (induction "int (byte d)" crlf fs arbitrary: k rule: csv_fields.induct)
  case (2 crlf f)
  then obtain k' where "k = Suc k'" by (cases k) auto
  moreover have "line_end crlf @ r \<noteq> []" "\<not> plain_char d (hd (line_end crlf @ r))"
    "hd (line_end crlf @ r) \<noteq> CHR 34" by (auto simp: line_end_def plain_char_def)
  ultimately show ?case
    using read_field_write [OF assms(1), of "line_end crlf @ r" crlf f] one_byte_delim_neq [OF assms(1)]
    by (auto simp: csv_record_def line_end_def)
next
  case (3 crlf f f' fs)
  then obtain k' where k: "k = Suc k'" "length (f' # fs) \<le> k'" by (cases k) auto
  have d: "utf8_encode (int (byte d)) = [d]" using assms(1) by (simp add: one_byte_delim_def utf8_one_byte)
  show ?case
    using read_field_write [OF assms(1), of "d # csv_fields (int (byte d)) crlf (f' # fs) @ line_end crlf @ r" crlf f]
      one_byte_delim_neq [OF assms(1)] 3(1) [OF _ k(2)] k(1)
    by (simp add: csv_record_def d plain_char_def)
qed simp

lemma csv_record_length: "length fs \<le> length (csv_record comma crlf fs)"
proof -
  have "length fs \<le> Suc (length (csv_fields comma crlf fs))"
    by (induction comma crlf fs rule: csv_fields.induct)
      (auto simp: utf8_encode_def bytes_def)
  then show ?thesis by (auto simp: csv_record_def line_end_def)
qed

text \<open>Reading what the writer wrote gives back the records, up to the writer's treatment of line
  breaks inside fields.\<close>

lemma read_records_write:
  assumes "one_byte_delim d" and "\<forall>fs\<in>set recs. fs \<noteq> []" and "length recs < k"
  shows "read_records k d (concat (map (csv_record (int (byte d)) crlf) recs))
    = Some (map (map (csv_content crlf)) recs)"
  using assms(2,3)
proof (induction recs arbitrary: k)
  case Nil
  then show ?case by (cases k) auto
next
  case (Cons fs recs)
  then obtain k' where k: "k = Suc k'" "length recs < k'" by (cases k) auto
  let ?r = "concat (map (csv_record (int (byte d)) crlf) recs)"
  have "read_record (Suc (length (csv_record (int (byte d)) crlf fs @ ?r))) d
      (csv_record (int (byte d)) crlf fs @ ?r) = Some (map (csv_content crlf) fs, ?r)"
    using Cons.prems(1) csv_record_length [of fs "int (byte d)" crlf]
    by (intro read_record_write [OF assms(1)]) auto
  moreover have "csv_record (int (byte d)) crlf fs \<noteq> []" by (simp add: csv_record_def line_end_def)
  ultimately show ?case using Cons k by simp
qed

lemma csv_read_write:
  assumes "one_byte_delim d" and "\<forall>fs\<in>set recs. fs \<noteq> []"
  shows "csv_read d (concat (map (csv_record (int (byte d)) crlf) recs)) = Some (map (map (csv_content crlf)) recs)"
proof -
  have "length recs \<le> length (concat (map (csv_record (int (byte d)) crlf) recs))"
    by (induction recs) (auto simp: csv_record_def line_end_def intro: le_SucI)
  then show ?thesis unfolding csv_read_def by (intro read_records_write assms) simp
qed

end
