(* ===== verification/Go_ParseFloat.thy ===== *)
theory Go_ParseFloat
  imports Go_Strings
begin

text \<open>
  \<open>strconv.ParseFloat(s, 64)\<close> as far as the repository looks at it: whether it returns an error.  The
  scanner follows the library's: an optional sign, \<open>inf\<close>, \<open>infinity\<close> or \<open>nan\<close> in any case, or a
  decimal or hexadecimal mantissa with an optional exponent and underscores between digits.  The
  value is kept exactly (all digits of the mantissa and a power of the base), so that the range error
  is the comparison with the number halfway past the largest float64.
\<close>

section \<open>Characters\<close>

definition is_hex_letter :: "char \<Rightarrow> bool" where
  "is_hex_letter c \<longleftrightarrow> 97 \<le> byte c \<and> byte c \<le> 102 \<or> 65 \<le> byte c \<and> byte c \<le> 70"

definition digit_value :: "char \<Rightarrow> int" where
  "digit_value c = int (if is_digit c then byte c - 48
     else if byte c \<le> 70 then byte c - 55 else byte c - 87)"

definition ascii_lower :: "char \<Rightarrow> char" where
  "ascii_lower c = (if 65 \<le> byte c \<and> byte c \<le> 90 then char_of (byte c + 32) else c)"

section \<open>inf, infinity, nan\<close>

fun common_prefix_ci :: "string \<Rightarrow> string \<Rightarrow> nat" where
  "common_prefix_ci (c # s) (p # ps) = (if ascii_lower c = p then Suc (common_prefix_ci s ps) else 0)"
| "common_prefix_ci _ _ = 0"

definition special_inf :: "nat \<Rightarrow> string \<Rightarrow> nat option" where
  "special_inf nsign s =
     (let n = common_prefix_ci s ''infinity'';
          n = (if 3 < n \<and> n < 8 then 3 else n)
      in if n = 3 \<or> n = 8 then Some (nsign + n) else None)"

definition special :: "string \<Rightarrow> nat option" where
  "special s =
     (case s of
        [] \<Rightarrow> None
      | c # r \<Rightarrow>
          if c = CHR ''+'' \<or> c = CHR ''-'' then special_inf 1 r
          else if c = CHR ''i'' \<or> c = CHR ''I'' then special_inf 0 s
          else if c = CHR ''n'' \<or> c = CHR ''N''
          then (if common_prefix_ci s ''nan'' = 3 then Some 3 else None)
          else None)"

section \<open>Underscores\<close>

datatype seen = SawStart | SawDigit | SawUnderscore | SawOther

fun underscore_loop :: "bool \<Rightarrow> seen \<Rightarrow> string \<Rightarrow> bool" where
  "underscore_loop hex saw [] \<longleftrightarrow> saw \<noteq> SawUnderscore"
| "underscore_loop hex saw (c # s) \<longleftrightarrow>
     (if is_digit c \<or> hex \<and> is_hex_letter c then underscore_loop hex SawDigit s
      else if c = CHR ''_'' then (if saw \<noteq> SawDigit then False else underscore_loop hex SawUnderscore s)
      else if saw = SawUnderscore then False
      else underscore_loop hex SawOther s)"

definition drop_sign :: "string \<Rightarrow> string" where
  "drop_sign s = (case s of c # r \<Rightarrow> if c = CHR ''+'' \<or> c = CHR ''-'' then r else s | [] \<Rightarrow> [])"

definition underscoreOK :: "string \<Rightarrow> bool" where
  "underscoreOK s =
     (case drop_sign s of
        a # b # r \<Rightarrow>
          if a = CHR ''0'' \<and> ascii_lower b \<in> set ''box''
          then underscore_loop (ascii_lower b = CHR ''x'') SawDigit r
          else underscore_loop False SawStart (a # b # r)
      | t \<Rightarrow> underscore_loop False SawStart t)"

section \<open>The scanner\<close>

record float_scan =
  fs_dot :: bool
  fs_digits :: bool
  fs_under :: bool
  fs_nd :: int
  fs_dp :: int
  fs_mant :: int

fun scan_mantissa :: "bool \<Rightarrow> string \<Rightarrow> float_scan \<Rightarrow> float_scan \<times> string" where
  "scan_mantissa hex [] st = (st, [])"
| "scan_mantissa hex (c # s) st =
     (if c = CHR ''_'' then scan_mantissa hex s (st\<lparr>fs_under := True\<rparr>)
      else if c = CHR ''.''
      then (if fs_dot st then (st, c # s)
            else scan_mantissa hex s (st\<lparr>fs_dot := True, fs_dp := fs_nd st\<rparr>))
      else if is_digit c
      then (if c = CHR ''0'' \<and> fs_nd st = 0
            then scan_mantissa hex s (st\<lparr>fs_digits := True, fs_dp := fs_dp st - 1\<rparr>)
            else scan_mantissa hex s (st\<lparr>fs_digits := True, fs_nd := fs_nd st + 1,
                   fs_mant := fs_mant st * (if hex then 16 else 10) + digit_value c\<rparr>))
      else if hex \<and> is_hex_letter c
      then scan_mantissa hex s (st\<lparr>fs_digits := True, fs_nd := fs_nd st + 1,
             fs_mant := fs_mant st * 16 + digit_value c\<rparr>)
      else (st, c # s))"

fun scan_exponent :: "string \<Rightarrow> int \<Rightarrow> bool \<Rightarrow> int \<times> bool \<times> string" where
  "scan_exponent [] e us = (e, us, [])"
| "scan_exponent (c # s) e us =
     (if c = CHR ''_'' then scan_exponent s e True
      else if is_digit c then scan_exponent s (if e < 10000 then e * 10 + digit_value c else e) us
      else (e, us, c # s))"

text \<open>The optional exponent: its value, whether it has underscores, and what is left; \<open>None\<close> if it is
  malformed, or missing although the mantissa is hexadecimal.\<close>

definition read_exponent :: "bool \<Rightarrow> string \<Rightarrow> (int \<times> bool \<times> string) option" where
  "read_exponent hex s =
     (case s of
        [] \<Rightarrow> if hex then None else Some (0, False, [])
      | c # r \<Rightarrow>
          if ascii_lower c = (if hex then CHR ''p'' else CHR ''e'')
          then (let esign = (if r \<noteq> [] \<and> hd r = CHR ''-'' then - 1 else 1 :: int);
                    r = drop_sign r
                in if r = [] \<or> \<not> is_digit (hd r) then None
                   else (case scan_exponent r 0 False of (e, u, rest) \<Rightarrow> Some (esign * e, u, rest)))
          else if hex then None
          else Some (0, False, s))"

text \<open>The number scanned, \<open>mantissa * base ^ exponent\<close>, and the rest of the string.\<close>

definition readFloat :: "string \<Rightarrow> (int \<times> int \<times> int \<times> string) option" where
  "readFloat s =
     (let t = drop_sign s;
          hex = (length t > 2 \<and> t ! 0 = CHR ''0'' \<and> ascii_lower (t ! 1) = CHR ''x'');
          t = (if hex then drop 2 t else t);
          (st, r) = scan_mantissa hex t \<lparr>fs_dot = False, fs_digits = False, fs_under = False,
            fs_nd = 0, fs_dp = 0, fs_mant = 0\<rparr>;
          dp = (if fs_dot st then fs_dp st else fs_nd st)
      in if \<not> fs_digits st then None
         else (case read_exponent hex r of
                 None \<Rightarrow> None
               | Some (e, u, rest) \<Rightarrow>
                   if (fs_under st \<or> u) \<and> \<not> underscoreOK (take (length s - length rest) s) then None
                   else if hex then Some (fs_mant st, 2, 4 * dp - 4 * fs_nd st + e, rest)
                   else Some (fs_mant st, 10, dp - fs_nd st + e, rest)))"

text \<open>Half a unit in the last place above the largest float64, \<open>2^1024 - 2^970\<close>, rounds to infinity.\<close>

definition float_overflows :: "int \<Rightarrow> int \<Rightarrow> int \<Rightarrow> bool" where
  "float_overflows m b k \<longleftrightarrow>
     (let t = 2 ^ 1024 - 2 ^ 970
      in if 0 \<le> k then m * b ^ nat k \<ge> t else m \<ge> t * b ^ nat (- k))"

datatype parse_error = ErrSyntax | ErrRange

definition ParseFloat_err :: "string \<Rightarrow> parse_error option" where
  "ParseFloat_err s =
     (case special s of
        Some n \<Rightarrow> if n = length s then None else Some ErrSyntax
      | None \<Rightarrow>
          (case readFloat s of
             None \<Rightarrow> Some ErrSyntax
           | Some (m, b, k, rest) \<Rightarrow>
               if rest \<noteq> [] then Some ErrSyntax
               else if float_overflows m b k then Some ErrRange else None))"

section \<open>What an accepted string is made of\<close>

definition float_chars :: "char set" where
  "float_chars = set ''0123456789abcdefABCDEF+-._xXpPiInNtTyY''"

lemma char_range:
  assumes "a \<le> byte c" and "byte c < b"
  shows "c \<in> set (map char_of [a..<b])"
proof -
  have "byte c \<in> set [a..<b]" using assms by simp
  then have "char_of (byte c) \<in> char_of ` set [a..<b]" by blast
  then show ?thesis by simp
qed

lemma digit_chars: "is_digit c \<Longrightarrow> c \<in> set ''0123456789''"
proof -
  assume "is_digit c"
  then have "c \<in> set (map char_of [48..<58])" by (intro char_range) (auto simp: is_digit_def)
  also have "map char_of [48..<58 :: nat] = ''0123456789''" by code_simp
  finally show ?thesis .
qed

lemma hex_letter_chars: "is_hex_letter c \<Longrightarrow> c \<in> set ''abcdefABCDEF''"
proof -
  assume "is_hex_letter c"
  then have "c \<in> set (map char_of [97..<103]) \<or> c \<in> set (map char_of [65..<71])"
    using char_range [of 97 c 103] char_range [of 65 c 71] by (auto simp: is_hex_letter_def)
  moreover have "map char_of [97..<103 :: nat] = ''abcdef''" "map char_of [65..<71 :: nat] = ''ABCDEF''"
    by code_simp+
  ultimately show ?thesis by auto
qed

lemma float_chars_lit [simp]:
  "CHR ''_'' \<in> float_chars" "CHR ''.'' \<in> float_chars" "CHR ''+'' \<in> float_chars"
  "CHR ''-'' \<in> float_chars" "CHR ''0'' \<in> float_chars"
  by (simp_all add: float_chars_def)

lemma digit_float_char [simp]: "is_digit c \<Longrightarrow> c \<in> float_chars"
  using digit_chars by (force simp: float_chars_def)

lemma hex_float_char [simp]: "is_hex_letter c \<Longrightarrow> c \<in> float_chars"
  using hex_letter_chars by (force simp: float_chars_def)

text \<open>A byte whose lower case is one of the letters of \<open>inf\<close>, \<open>infinity\<close>, \<open>nan\<close> or a marker.\<close>

lemma lower_float_char:
  assumes "ascii_lower c \<in> set ''abcdefpxinty''"
  shows "c \<in> float_chars"
proof (cases "65 \<le> byte c \<and> byte c \<le> 90")
  case True
  then have "c \<in> set (map char_of [65..<91])" by (intro char_range) auto
  also have "map char_of [65..<91 :: nat] = ''ABCDEFGHIJKLMNOPQRSTUVWXYZ''" by code_simp
  finally have "c \<in> set ''ABCDEFGHIJKLMNOPQRSTUVWXYZ''" .
  moreover have "\<forall>c\<in>set ''ABCDEFGHIJKLMNOPQRSTUVWXYZ''.
      ascii_lower c \<in> set ''abcdefpxinty'' \<longrightarrow> c \<in> float_chars"
    unfolding float_chars_def by code_simp
  ultimately show ?thesis using assms by blast
next
  case False
  with assms show ?thesis by (auto simp: ascii_lower_def float_chars_def)
qed

lemma scan_mantissa_chars:
  "scan_mantissa hex s st = (st', r) \<Longrightarrow> \<exists>p. s = p @ r \<and> set p \<subseteq> float_chars"
proof (induction hex s st arbitrary: st' r rule: scan_mantissa.induct)
  case (2 hex c s st)
  show ?case
  proof (cases "r = c # s")
    case False
    with 2 have "c \<in> float_chars \<and> (\<exists>p. s = p @ r \<and> set p \<subseteq> float_chars)"
      by (auto split: if_splits)
    then show ?thesis by (metis append_Cons insert_subset list.simps(15))
  qed simp
qed simp

lemma scan_exponent_chars:
  "scan_exponent s e us = (e', us', r) \<Longrightarrow> \<exists>p. s = p @ r \<and> set p \<subseteq> float_chars"
proof (induction s e us arbitrary: e' us' r rule: scan_exponent.induct)
  case (2 c s e us)
  show ?case
  proof (cases "r = c # s")
    case False
    with 2 have "c \<in> float_chars \<and> (\<exists>p. s = p @ r \<and> set p \<subseteq> float_chars)"
      by (auto split: if_splits)
    then show ?thesis by (metis append_Cons insert_subset list.simps(15))
  qed simp
qed simp

lemma drop_sign_chars: "\<exists>p. s = p @ drop_sign s \<and> set p \<subseteq> float_chars"
  by (cases s) (auto simp: drop_sign_def)

lemma read_exponent_chars:
  assumes "read_exponent hex s = Some (e, us, r)"
  shows "\<exists>p. s = p @ r \<and> set p \<subseteq> float_chars"
proof (cases "r = s")
  case False
  with assms obtain c t where s: "s = c # t" and c: "ascii_lower c = (if hex then CHR ''p'' else CHR ''e'')"
    and ex: "\<exists>e' us'. scan_exponent (drop_sign t) 0 False = (e', us', r)"
    by (auto simp: read_exponent_def Let_def split: list.splits if_splits prod.splits)
  have "c \<in> float_chars" by (rule lower_float_char) (use c in \<open>simp split: if_splits\<close>)
  moreover obtain p1 where "t = p1 @ drop_sign t" "set p1 \<subseteq> float_chars" using drop_sign_chars by blast
  moreover obtain p2 where "drop_sign t = p2 @ r" "set p2 \<subseteq> float_chars"
    using ex scan_exponent_chars by blast
  ultimately have "s = (c # p1 @ p2) @ r \<and> set (c # p1 @ p2) \<subseteq> float_chars" using s by auto
  then show ?thesis by blast
qed simp

lemma readFloat_chars:
  assumes "readFloat s = Some (m, b, k, r)"
  shows "\<exists>p. s = p @ r \<and> set p \<subseteq> float_chars"
proof -
  let ?t = "drop_sign s"
  let ?hex = "length ?t > 2 \<and> ?t ! 0 = CHR ''0'' \<and> ascii_lower (?t ! 1) = CHR ''x''"
  obtain p0 where p0: "s = p0 @ ?t" "set p0 \<subseteq> float_chars" using drop_sign_chars by blast
  obtain t p1 where t: "t = (if ?hex then drop 2 ?t else ?t)" "?t = p1 @ t" "set p1 \<subseteq> float_chars"
  proof (cases ?hex)
    case True
    then obtain x y z where x: "?t = x # y # z" by (cases ?t rule: remdups_adj.cases) auto
    with True have "x \<in> float_chars" "y \<in> float_chars" by (auto intro: lower_float_char)
    with x that [of z "[x, y]"] True show ?thesis by simp
  next
    case False
    then show ?thesis using that [of ?t "[]"] by auto
  qed
  obtain st q where sc: "scan_mantissa ?hex t \<lparr>fs_dot = False, fs_digits = False, fs_under = False,
      fs_nd = 0, fs_dp = 0, fs_mant = 0\<rparr> = (st, q)" by fastforce
  obtain p2 where p2: "t = p2 @ q" "set p2 \<subseteq> float_chars" using scan_mantissa_chars [OF sc] by blast
  from assms sc t(1) obtain e us where "read_exponent ?hex q = Some (e, us, r)"
    unfolding readFloat_def Let_def by (auto split: option.splits prod.splits if_splits)
  then obtain p3 where p3: "q = p3 @ r" "set p3 \<subseteq> float_chars" using read_exponent_chars by blast
  have "s = (p0 @ p1 @ p2 @ p3) @ r" using p0(1) t(2) p2(1) p3(1) by simp
  then show ?thesis using p0(2) t(3) p2(2) p3(2) by (metis Un_subset_iff set_append)
qed

lemma common_prefix_chars:
  assumes "set p \<subseteq> set ''abcdefpxinty''"
  shows "set (take (common_prefix_ci s p) s) \<subseteq> float_chars"
  using assms by (induction s p rule: common_prefix_ci.induct) (auto intro: lower_float_char)

lemma special_inf_chars:
  "special_inf k s = Some n \<Longrightarrow> k \<le> n \<and> set (take (n - k) s) \<subseteq> float_chars"
proof -
  assume n: "special_inf k s = Some n"
  let ?n = "common_prefix_ci s ''infinity''"
  have t: "set (take ?n s) \<subseteq> float_chars" by (rule common_prefix_chars) simp
  from n have "k \<le> n" "n - k \<le> ?n"
    by (auto simp: special_inf_def Let_def split: if_splits)
  with t set_take_subset_set_take [of "n - k" ?n s] show ?thesis by blast
qed

lemma special_cases:
  assumes "special (c # r) = Some n"
  shows "c \<in> float_chars \<and> special_inf 1 r = Some n \<or> special_inf 0 (c # r) = Some n
    \<or> common_prefix_ci (c # r) ''nan'' = 3 \<and> n = 3"
  using assms by (auto simp only: special_def list.case split: if_splits) simp_all

lemma special_chars: "special s = Some (length s) \<Longrightarrow> set s \<subseteq> float_chars"
proof (cases s)
  case (Cons c r)
  assume "special s = Some (length s)"
  then consider "c \<in> float_chars" "special_inf 1 r = Some (length s)" | "special_inf 0 s = Some (length s)"
    | "common_prefix_ci s ''nan'' = 3" "length s = 3"
    using special_cases [of c r "length s"] unfolding Cons by metis
  then show ?thesis
  proof cases
    case 1
    then show ?thesis using special_inf_chars [OF 1(2)] Cons by auto
  next
    case 2
    then show ?thesis using special_inf_chars [OF 2] by simp
  next
    case 3
    have "set (take (common_prefix_ci s ''nan'') s) \<subseteq> float_chars"
      by (rule common_prefix_chars) simp
    with 3 show ?thesis by simp
  qed
qed simp

text \<open>Everything \<open>ParseFloat\<close> accepts is written with digits, signs, points, underscores and the
  letters of hexadecimal digits, exponents, \<open>inf\<close>, \<open>infinity\<close> and \<open>nan\<close>.\<close>

lemma ParseFloat_chars: "ParseFloat_err s = None \<Longrightarrow> set s \<subseteq> float_chars"
  using special_chars readFloat_chars
  by (fastforce simp: ParseFloat_err_def split: option.splits prod.splits if_splits)

end
