(* ===== verification/Export_Csv.thy ===== *)
theory Export_Csv
  imports Go_Csv Go_ParseFloat
begin

text \<open>
  \<^verbatim>\<open>export/export.go\<close>, \<^verbatim>\<open>export/csv.go\<close> and \<^verbatim>\<open>export/http.go\<close>: columns, the CSV options, the
  sanitization of cells against formula injection, and the streamer with its header, rows and flushes.
  The row counter is an unbounded integer here (an \<open>int64\<close> in the code).
\<close>

section \<open>Columns and options\<close>

record 't Column =
  Header :: string
  Extractor :: "'t \<Rightarrow> string"

record CSVOptions =
  Delimiter :: rune
  UseCRLF :: bool
  IncludeBOM :: bool
  FlushInterval :: int
  SanitizeFormulas :: bool

type_synonym CSVOption = "CSVOptions \<Rightarrow> CSVOptions"

definition DefaultCSVOptions :: CSVOptions where
  "DefaultCSVOptions = \<lparr>Delimiter = 44, UseCRLF = True, IncludeBOM = True, FlushInterval = 100,
     SanitizeFormulas = True\<rparr>"

definition WithDelimiter :: "rune \<Rightarrow> CSVOption" where
  "WithDelimiter d o1 = o1\<lparr>Delimiter := d\<rparr>"

definition WithCRLF :: "bool \<Rightarrow> CSVOption" where
  "WithCRLF crlf o1 = o1\<lparr>UseCRLF := crlf\<rparr>"

definition WithBOM :: "bool \<Rightarrow> CSVOption" where
  "WithBOM bom o1 = o1\<lparr>IncludeBOM := bom\<rparr>"

definition WithFlushInterval :: "int \<Rightarrow> CSVOption" where
  "WithFlushInterval n o1 = o1\<lparr>FlushInterval := n\<rparr>"

definition WithFormulaSanitization :: "bool \<Rightarrow> CSVOption" where
  "WithFormulaSanitization enabled o1 = o1\<lparr>SanitizeFormulas := enabled\<rparr>"

section \<open>Sanitization\<close>

text \<open>Spaces, newlines, \<open>\r\n\<close> and non-breaking spaces (\<open>C2 A0\<close> in UTF-8) at the start.\<close>

fun trimLeadingCSVWhitespace :: "string \<Rightarrow> string" where
  "trimLeadingCSVWhitespace [] = []"
| "trimLeadingCSVWhitespace (c # s) =
     (if c = CHR 32 \<or> c = CHR 10 then trimLeadingCSVWhitespace s
      else case s of
             d # s' \<Rightarrow>
               if c = CHR 13 \<and> d = CHR 10 then trimLeadingCSVWhitespace s'
               else if c = CHR 0xC2 \<and> d = CHR 0xA0 then trimLeadingCSVWhitespace s'
               else c # s
           | [] \<Rightarrow> c # s)"

definition SanitizeCSVCell :: "string \<Rightarrow> string" where
  "SanitizeCSVCell val =
     (if val = [] then val
      else let trimmed = trimLeadingCSVWhitespace val
           in if trimmed = [] then val
              else if hd trimmed \<in> {CHR ''='', CHR ''@'', CHR 9, CHR 13} then CHR 39 # val
              else if hd trimmed \<in> {CHR ''+'', CHR ''-''}
              then (let allTrimmed = TrimSpace trimmed
                    in if ParseFloat_err allTrimmed = None then val else CHR 39 # val)
              else val)"

section \<open>The streamer\<close>

record ('t, 's) CSVStreamer =
  cs_writer :: "'s bufw"
  cs_columns :: "'t Column list"
  cs_options :: CSVOptions
  headerWritten :: bool
  rowCount :: int

text \<open>The sink of the buffered writer is \<open>s.w\<close>; the delimiter and the line ends are read from the
  options, from which \<open>NewCSVStreamer\<close> copies them.\<close>

definition NewCSVStreamer :: "'s \<Rightarrow> 't Column list \<Rightarrow> CSVOption list \<Rightarrow> ('t, 's) CSVStreamer" where
  "NewCSVStreamer w columns opts =
     \<lparr>cs_writer = \<lparr>bw_sink = w, bw_buf = [], bw_err = None\<rparr>, cs_columns = columns,
      cs_options = foldl (\<lambda>cfg opt. opt cfg) DefaultCSVOptions opts,
      headerWritten = False, rowCount = 0\<rparr>"

definition csv_put ::
  "'s io_write \<Rightarrow> string list \<Rightarrow> ('t, 's) CSVStreamer \<Rightarrow> goerr option \<times> ('t, 's) CSVStreamer" where
  "csv_put wr fs s =
     (case csv_Write wr (Delimiter (cs_options s)) (UseCRLF (cs_options s)) fs (cs_writer s) of
        (e, b) \<Rightarrow> (e, s\<lparr>cs_writer := b\<rparr>))"

definition Flush :: "'s io_write \<Rightarrow> ('t, 's) CSVStreamer \<Rightarrow> goerr option \<times> ('t, 's) CSVStreamer" where
  "Flush wr s = (case bw_flush wr (cs_writer s) of (_, b) \<Rightarrow> (bw_err b, s\<lparr>cs_writer := b\<rparr>))"

definition BOM :: string where
  "BOM = [CHR 0xEF, CHR 0xBB, CHR 0xBF]"

definition sanitized :: "CSVOptions \<Rightarrow> string \<Rightarrow> string" where
  "sanitized o1 cell = (if SanitizeFormulas o1 then SanitizeCSVCell cell else cell)"

text \<open>\<open>WriteHeader\<close>: the byte order mark goes to the sink directly, before the buffer is used.\<close>

definition write_bom :: "'s io_write \<Rightarrow> ('t, 's) CSVStreamer \<Rightarrow> goerr option \<times> ('t, 's) CSVStreamer" where
  "write_bom wr s =
     (if IncludeBOM (cs_options s)
      then (case wr BOM (bw_sink (cs_writer s)) of
              ((_, e), w) \<Rightarrow> (e, s\<lparr>cs_writer := (cs_writer s)\<lparr>bw_sink := w\<rparr>\<rparr>))
      else (None, s))"

definition WriteHeader :: "'s io_write \<Rightarrow> ('t, 's) CSVStreamer \<Rightarrow> goerr option \<times> ('t, 's) CSVStreamer" where
  "WriteHeader wr s =
     (if headerWritten s then (None, s)
      else case write_bom wr s of
        (Some err, s) \<Rightarrow> (Some (Wrapf ''failed to write UTF-8 BOM: '' err []), s)
      | (None, s) \<Rightarrow>
          (let headers = map (\<lambda>col. sanitized (cs_options s) (Header col)) (cs_columns s)
           in case csv_put wr headers s of
                (Some err, s) \<Rightarrow> (Some (Wrapf ''failed to write CSV header: '' err []), s)
              | (None, s) \<Rightarrow>
                  (case Flush wr s of
                     (Some err, s) \<Rightarrow> (Some (Wrapf ''flush error writing CSV header: '' err []), s)
                   | (None, s) \<Rightarrow> (None, s\<lparr>headerWritten := True\<rparr>))))"

definition put_row :: "'s io_write \<Rightarrow> 't \<Rightarrow> ('t, 's) CSVStreamer \<Rightarrow> goerr option \<times> ('t, 's) CSVStreamer" where
  "put_row wr item s =
     (let row = map (\<lambda>col. sanitized (cs_options s) (Extractor col item)) (cs_columns s)
      in case csv_put wr row s of
           (Some err, s) \<Rightarrow> (Some (Wrapf ''failed to write CSV row: '' err []), s)
         | (None, s) \<Rightarrow>
             (let s = s\<lparr>rowCount := rowCount s + 1\<rparr>; n = FlushInterval (cs_options s)
              in if n > 0 \<and> rowCount s mod n = 0
                 then (case Flush wr s of
                         (Some err, s) \<Rightarrow> (Some (Wrapf ''flush error writing CSV row: '' err []), s)
                       | (None, s) \<Rightarrow> (None, s))
                 else (None, s)))"

definition WriteRow :: "'s io_write \<Rightarrow> 't \<Rightarrow> ('t, 's) CSVStreamer \<Rightarrow> goerr option \<times> ('t, 's) CSVStreamer" where
  "WriteRow wr item s =
     (if \<not> headerWritten s
      then (case WriteHeader wr s of (Some err, s) \<Rightarrow> (Some err, s) | (None, s) \<Rightarrow> put_row wr item s)
      else put_row wr item s)"

fun WriteRows :: "'s io_write \<Rightarrow> 't list \<Rightarrow> ('t, 's) CSVStreamer \<Rightarrow> goerr option \<times> ('t, 's) CSVStreamer" where
  "WriteRows wr [] s = (None, s)"
| "WriteRows wr (item # items) s =
     (case WriteRow wr item s of (Some err, s) \<Rightarrow> (Some err, s) | (None, s) \<Rightarrow> WriteRows wr items s)"

definition RowCount :: "('t, 's) CSVStreamer \<Rightarrow> int" where
  "RowCount s = rowCount s"

definition Close :: "'s io_write \<Rightarrow> ('t, 's) CSVStreamer \<Rightarrow> goerr option \<times> ('t, 's) CSVStreamer" where
  "Close wr s = Flush wr s"

section \<open>StreamHTTP\<close>

text \<open>The response's headers and its body; \<open>quote\<close> is the \<open>%q\<close> verb.\<close>

definition StreamHTTP ::
  "(string \<Rightarrow> string) \<Rightarrow> 's io_write \<Rightarrow> string \<Rightarrow> 't Column list \<Rightarrow> 't list
    \<Rightarrow> (string \<rightharpoonup> string) \<times> 's \<Rightarrow> goerr option \<times> (string \<rightharpoonup> string) \<times> 's" where
  "StreamHTTP quote wr filename columns items w =
     (let hdrs = (fst w)(''Content-Type'' \<mapsto> ''text/csv; charset=utf-8'',
                         ''Content-Disposition'' \<mapsto> ''attachment; filename='' @ quote filename,
                         ''Cache-Control'' \<mapsto> ''no-cache, no-store, must-revalidate'',
                         ''Pragma'' \<mapsto> ''no-cache'',
                         ''Expires'' \<mapsto> ''0'');
          streamer = NewCSVStreamer (snd w) columns [WithBOM True, WithCRLF True]
      in case WriteHeader wr streamer of
           (Some err, s) \<Rightarrow>
             (Some (Wrapf ''failed to write CSV headers: '' err []), hdrs, bw_sink (cs_writer s))
         | (None, s) \<Rightarrow>
             (case WriteRows wr items s of
                (Some err, s) \<Rightarrow>
                  (Some (Wrapf ''failed to stream CSV rows: '' err []), hdrs, bw_sink (cs_writer s))
              | (None, s) \<Rightarrow> (case Flush wr s of (e, s) \<Rightarrow> (e, hdrs, bw_sink (cs_writer s)))))"

section \<open>Lemmas on sanitization\<close>

declare trimLeadingCSVWhitespace.simps(2) [simp del]

lemma trim_csv_quote [simp]: "trimLeadingCSVWhitespace (CHR 39 # s) = CHR 39 # s"
  by (cases s) (simp_all add: trimLeadingCSVWhitespace.simps(2))

definition inert_cell :: "string \<Rightarrow> bool" where
  "inert_cell v \<longleftrightarrow> (let t = trimLeadingCSVWhitespace v in
     t = [] \<or> hd t \<notin> {CHR ''='', CHR ''@'', CHR 9, CHR 13, CHR ''+'', CHR ''-''}
     \<or> hd t \<in> {CHR ''+'', CHR ''-''} \<and> ParseFloat_err (TrimSpace t) = None)"

lemma quoted_inert: "inert_cell (CHR 39 # v)"
  by (simp add: inert_cell_def)

text \<open>The four branches of the code come to two: inert cells are kept, the others are quoted.\<close>

lemma SanitizeCSVCell_inert: "SanitizeCSVCell v = (if inert_cell v then v else CHR 39 # v)"
proof (cases "v = [] \<or> trimLeadingCSVWhitespace v = []")
  case True
  then show ?thesis by (auto simp: SanitizeCSVCell_def inert_cell_def Let_def)
next
  case False
  let ?t = "hd (trimLeadingCSVWhitespace v)"
  consider "?t \<in> {CHR ''='', CHR ''@'', CHR 9, CHR 13}" | "?t \<in> {CHR ''+'', CHR ''-''}"
    | "?t \<notin> {CHR ''='', CHR ''@'', CHR 9, CHR 13, CHR ''+'', CHR ''-''}" by auto
  then show ?thesis
  proof cases
    case 1
    then have "?t \<notin> {CHR ''+'', CHR ''-''}" by auto
    with 1 False show ?thesis by (simp add: SanitizeCSVCell_def inert_cell_def Let_def)
  next
    case 2
    then have "?t \<notin> {CHR ''='', CHR ''@'', CHR 9, CHR 13}" by auto
    with 2 False show ?thesis by (simp add: SanitizeCSVCell_def inert_cell_def Let_def)
  next
    case 3
    with False show ?thesis by (simp add: SanitizeCSVCell_def inert_cell_def Let_def)
  qed
qed

lemma sanitize_inert: "inert_cell (SanitizeCSVCell v)"
  by (simp add: SanitizeCSVCell_inert quoted_inert)

end
