(* ===== verification/Export_Theorems.thy ===== *)
theory Export_Theorems
  imports Export_Csv
begin

text \<open>
  What the CSV export guarantees: the bytes a client receives are the document, or a part of its
  beginning if the connection breaks; the document reads back as the cells; no cell starts a formula.
\<close>

section \<open>The document\<close>

definition csv_header :: "CSVOptions \<Rightarrow> 't Column list \<Rightarrow> string" where
  "csv_header o1 cols = (if IncludeBOM o1 then BOM else [])
     @ csv_record (Delimiter o1) (UseCRLF o1) (map (\<lambda>col. sanitized o1 (Header col)) cols)"

definition csv_row :: "CSVOptions \<Rightarrow> 't Column list \<Rightarrow> 't \<Rightarrow> string" where
  "csv_row o1 cols x =
     csv_record (Delimiter o1) (UseCRLF o1) (map (\<lambda>col. sanitized o1 (Extractor col x)) cols)"

definition csv_document :: "CSVOptions \<Rightarrow> 't Column list \<Rightarrow> 't list \<Rightarrow> string" where
  "csv_document o1 cols items = csv_header o1 cols @ concat (map (csv_row o1 cols) items)"

text \<open>Two states of one streamer.\<close>

definition same_setup :: "('t, 's) CSVStreamer \<Rightarrow> ('t, 's) CSVStreamer \<Rightarrow> bool" where
  "same_setup s s' \<longleftrightarrow> cs_options s' = cs_options s \<and> cs_columns s' = cs_columns s"

section \<open>The operations on the stream\<close>

context io_writer
begin

abbreviation streamed :: "('t, 's) CSVStreamer \<Rightarrow> string" where
  "streamed s \<equiv> accepted (cs_writer s)"

text \<open>An operation adds a part of the beginning of the given bytes to the stream, and all of them if it
  returns nil.\<close>

definition adds :: "goerr option \<Rightarrow> ('t, 's) CSVStreamer \<Rightarrow> ('t, 's) CSVStreamer \<Rightarrow> string \<Rightarrow> bool" where
  "adds e s s' p \<longleftrightarrow> same_setup s s'
     \<and> (\<exists>q. prefix q p \<and> streamed s' = streamed s @ q \<and> (e = None \<longrightarrow> q = p))"

lemma adds_trans:
  assumes "adds None s s1 p" and "adds e s1 s2 p'"
  shows "adds e s s2 (p @ p')"
proof -
  from assms obtain q where "streamed s1 = streamed s @ p" "prefix q p'" "streamed s2 = streamed s1 @ q"
    "e = None \<longrightarrow> q = p'" by (auto simp: adds_def)
  then have "prefix (p @ q) (p @ p') \<and> streamed s2 = streamed s @ (p @ q) \<and> (e = None \<longrightarrow> p @ q = p @ p')"
    by simp
  moreover have "same_setup s s2" using assms by (simp add: adds_def same_setup_def)
  ultimately show ?thesis unfolding adds_def by blast
qed

lemma adds_prefix: "adds e s s' p \<Longrightarrow> e \<noteq> None \<Longrightarrow> adds e s s' (p @ p')"
  by (auto simp: adds_def intro: prefix_prefix)

lemma adds_error: "adds (Some e) s s' p \<Longrightarrow> adds (Some e') s s' p"
  by (auto simp: adds_def)

lemma adds_fail: "adds (Some e) s s' p \<Longrightarrow> adds (Some e') s s' (p @ p')"
  by (rule adds_prefix [OF adds_error]) simp_all

lemma csv_put_adds:
  assumes "csv_put wr fs s = (e, s')" and "validDelim (Delimiter (cs_options s))"
  shows "adds e s s' (csv_record (Delimiter (cs_options s)) (UseCRLF (cs_options s)) fs)
    \<and> headerWritten s' = headerWritten s \<and> rowCount s' = rowCount s"
proof -
  let ?r = "csv_record (Delimiter (cs_options s)) (UseCRLF (cs_options s)) fs"
  obtain b where b: "bw_write wr ?r (cs_writer s) = (e, b)" "s' = s\<lparr>cs_writer := b\<rparr>"
    using assms by (auto simp: csv_put_def csv_Write_def split: prod.splits)
  with write_accepted [OF b(1)] show ?thesis by (auto simp: adds_def same_setup_def)
qed

lemma Flush_adds:
  assumes "Flush wr s = (e, s')"
  shows "adds e s s' [] \<and> headerWritten s' = headerWritten s \<and> rowCount s' = rowCount s
    \<and> (e = None \<longrightarrow> bw_buf (cs_writer s') = [])"
proof -
  obtain fe b where b: "bw_flush wr (cs_writer s) = (fe, b)" "s' = s\<lparr>cs_writer := b\<rparr>" "e = bw_err b"
    using assms by (auto simp: Flush_def split: prod.splits)
  with flush_accepted [OF b(1)] show ?thesis by (auto simp: adds_def same_setup_def)
qed

lemma write_bom_adds:
  assumes "write_bom wr s = (e, s')" and "bw_buf (cs_writer s) = []"
  shows "adds e s s' (if IncludeBOM (cs_options s) then BOM else [])
    \<and> headerWritten s' = headerWritten s \<and> rowCount s' = rowCount s"
proof (cases "IncludeBOM (cs_options s)")
  case True
  obtain n we w where w: "wr BOM (bw_sink (cs_writer s)) = ((n, we), w)" by (metis prod.exhaust)
  with assms(1) True have "e = we" "s' = s\<lparr>cs_writer := (cs_writer s)\<lparr>bw_sink := w\<rparr>\<rparr>"
    by (simp_all add: write_bom_def)
  moreover have "e = None \<longrightarrow> take n BOM = BOM"
    using wr_short [OF w] wr_count [OF w] calculation(1) by (cases "n < length BOM") auto
  ultimately show ?thesis
    using True wr_got [OF w] assms(2) by (simp add: adds_def same_setup_def accepted_def take_is_prefix)
next
  case False
  with assms(1) show ?thesis by (auto simp: write_bom_def adds_def same_setup_def)
qed

lemma WriteHeader_adds:
  assumes "WriteHeader wr s = (e, s')" and "\<not> headerWritten s" and "bw_buf (cs_writer s) = []"
    and "validDelim (Delimiter (cs_options s))"
  shows "adds e s s' (csv_header (cs_options s) (cs_columns s)) \<and> rowCount s' = rowCount s
    \<and> (e = None \<longrightarrow> headerWritten s')"
proof -
  let ?bom = "if IncludeBOM (cs_options s) then BOM else []"
  let ?h = "csv_record (Delimiter (cs_options s)) (UseCRLF (cs_options s))
    (map (\<lambda>col. sanitized (cs_options s) (Header col)) (cs_columns s))"
  have hd: "csv_header (cs_options s) (cs_columns s) = ?bom @ ?h @ []" by (simp add: csv_header_def)
  obtain e1 s1 where 1: "write_bom wr s = (e1, s1)" by fastforce
  note a1 = write_bom_adds [OF 1 assms(3)]
  show ?thesis
  proof (cases e1)
    case (Some err)
    with 1 assms(1,2) obtain err' where "s' = s1" "e = Some err'" by (auto simp: WriteHeader_def)
    with a1 Some adds_fail [of err s s1 ?bom err'] show ?thesis unfolding hd by simp
  next
    case None
    with a1 have set: "cs_options s1 = cs_options s" "cs_columns s1 = cs_columns s"
      by (simp_all add: adds_def same_setup_def)
    obtain e2 s2 where 2: "csv_put wr (map (\<lambda>col. sanitized (cs_options s) (Header col)) (cs_columns s)) s1
        = (e2, s2)" by fastforce
    have a2: "adds e2 s1 s2 ?h \<and> headerWritten s2 = headerWritten s1 \<and> rowCount s2 = rowCount s1"
      using csv_put_adds [OF 2] assms(4) set by simp
    have a12: "adds e2 s s2 (?bom @ ?h)" using adds_trans a1 a2 None by blast
    show ?thesis
    proof (cases e2)
      case (Some err)
      with 1 2 None set assms(1,2) obtain err' where "s' = s2" "e = Some err'"
        by (auto simp: WriteHeader_def Let_def)
      with a12 a1 a2 Some adds_error [of err s s2 "?bom @ ?h" err'] show ?thesis unfolding hd by simp
    next
      case e2: None
      obtain e3 s3 where 3: "Flush wr s2 = (e3, s3)" by fastforce
      note a3 = Flush_adds [OF 3]
      have a123: "adds e3 s s3 (?bom @ ?h @ [])"
        using adds_trans [OF a12 [unfolded e2] a3 [THEN conjunct1]] by (simp only: append_assoc)
      show ?thesis
      proof (cases e3)
        case (Some err)
        with 1 2 3 None e2 set assms(1,2) have "s' = s3" "\<exists>err'. e = Some err'"
          by (auto simp: WriteHeader_def Let_def)
        with a123 a1 a2 a3 Some show ?thesis unfolding hd by (auto intro: adds_error)
      next
        case e3: None
        with 1 2 3 None e2 set assms(1,2) have "s' = s3\<lparr>headerWritten := True\<rparr>" "e = None"
          by (auto simp: WriteHeader_def Let_def)
        with a123 a1 a2 a3 e3 show ?thesis unfolding hd by (auto simp: adds_def same_setup_def)
      qed
    qed
  qed
qed

lemma put_row_adds:
  assumes "put_row wr x s = (e, s')" and "validDelim (Delimiter (cs_options s))"
  shows "adds e s s' (csv_row (cs_options s) (cs_columns s) x) \<and> headerWritten s' = headerWritten s
    \<and> (e = None \<longrightarrow> rowCount s' = rowCount s + 1)"
proof -
  obtain e1 s1 where 1: "csv_put wr (map (\<lambda>col. sanitized (cs_options s) (Extractor col x)) (cs_columns s)) s
      = (e1, s1)" by fastforce
  have a1: "adds e1 s s1 (csv_row (cs_options s) (cs_columns s) x) \<and> headerWritten s1 = headerWritten s
      \<and> rowCount s1 = rowCount s"
    using csv_put_adds [OF 1 assms(2)] by (simp add: csv_row_def)
  show ?thesis
  proof (cases e1)
    case (Some err)
    with 1 assms(1) have "s' = s1" "\<exists>err'. e = Some err'" by (auto simp: put_row_def Let_def)
    with a1 Some show ?thesis by (auto intro: adds_error)
  next
    case None
    let ?s2 = "s1\<lparr>rowCount := rowCount s1 + 1\<rparr>"
    have a2: "adds None s ?s2 (csv_row (cs_options s) (cs_columns s) x)"
      using a1 None by (auto simp: adds_def same_setup_def)
    obtain e3 s3 where 3: "Flush wr ?s2 = (e3, s3)" by fastforce
    note a3 = Flush_adds [OF 3]
    have a23: "adds e3 s s3 (csv_row (cs_options s) (cs_columns s) x)"
      using adds_trans [OF a2, of e3 s3 "[]"] a3 by simp
    consider "e = None" "s' = ?s2" | "e3 = None" "e = None" "s' = s3" | err err' where "e3 = Some err" "e = Some err'" "s' = s3"
      using 1 3 None assms(1)
      by (cases e3) (auto simp: put_row_def Let_def split: if_splits)
    then show ?thesis
    proof cases
      case 1
      with a1 a2 show ?thesis by simp
    next
      case 2
      with a1 a23 a3 show ?thesis by simp
    next
      case 3
      with a1 a23 a3 show ?thesis by (auto intro: adds_error)
    qed
  qed
qed

lemma WriteRows_adds:
  assumes "WriteRows wr xs s = (e, s')" and "headerWritten s" and "validDelim (Delimiter (cs_options s))"
  shows "adds e s s' (concat (map (csv_row (cs_options s) (cs_columns s)) xs)) \<and> headerWritten s'
    \<and> (e = None \<longrightarrow> rowCount s' = rowCount s + int (length xs))"
  using assms
proof (induction xs arbitrary: s)
  case Nil
  then show ?case by (simp add: adds_def same_setup_def)
next
  case (Cons x xs)
  obtain e1 s1 where 1: "put_row wr x s = (e1, s1)" by fastforce
  note a1 = put_row_adds [OF 1 Cons.prems(3)]
  show ?case
  proof (cases e1)
    case (Some err)
    with 1 Cons.prems have "s' = s1" "e = Some err" by (simp_all add: WriteRow_def)
    with a1 Some Cons.prems(2) show ?thesis by (auto intro!: adds_prefix)
  next
    case None
    with a1 have set: "cs_options s1 = cs_options s" "cs_columns s1 = cs_columns s"
      by (simp_all add: adds_def same_setup_def)
    from 1 None Cons.prems have "WriteRows wr xs s1 = (e, s')" by (simp add: WriteRow_def)
    from Cons.IH [OF this] a1 set Cons.prems(2,3)
    have a2: "adds e s1 s' (concat (map (csv_row (cs_options s) (cs_columns s)) xs)) \<and> headerWritten s'
      \<and> (e = None \<longrightarrow> rowCount s' = rowCount s1 + int (length xs))" by simp
    with a1 None adds_trans [of s s1 "csv_row (cs_options s) (cs_columns s) x" e s'] show ?thesis by simp
  qed
qed

text \<open>A header written once is not written again.\<close>

lemma WriteHeader_again: "headerWritten s \<Longrightarrow> WriteHeader wr s = (None, s)"
  by (simp add: WriteHeader_def)

end

section \<open>Formula injection\<close>



section \<open>What a client receives\<close>

lemma stream_options:
  "cs_options (NewCSVStreamer w cols [WithBOM True, WithCRLF True]) = DefaultCSVOptions"
  by (simp add: NewCSVStreamer_def WithBOM_def WithCRLF_def DefaultCSVOptions_def)

lemma NewCSVStreamer_simps [simp]:
  "cs_columns (NewCSVStreamer w cols opts) = cols" "\<not> headerWritten (NewCSVStreamer w cols opts)"
  "bw_buf (cs_writer (NewCSVStreamer w cols opts)) = []" "bw_sink (cs_writer (NewCSVStreamer w cols opts)) = w"
  "rowCount (NewCSVStreamer w cols opts) = 0"
  by (simp_all add: NewCSVStreamer_def)

lemma default_delim: "validDelim (Delimiter DefaultCSVOptions)"
  by (simp add: DefaultCSVOptions_def validDelim_def ValidRune_def)

context io_writer
begin

lemma accepted_new [simp]: "accepted (cs_writer (NewCSVStreamer w cols opts)) = got w"
  by (simp add: accepted_def NewCSVStreamer_def)

lemma adds_received:
  assumes "adds e s s' p"
  shows "prefix (got (bw_sink (cs_writer s'))) (streamed s @ p)"
    and "e = None \<Longrightarrow> bw_buf (cs_writer s') = [] \<Longrightarrow> got (bw_sink (cs_writer s')) = streamed s @ p"
proof -
  from assms obtain q where q: "prefix q p" "streamed s' = streamed s @ q" "e = None \<longrightarrow> q = p"
    by (auto simp: adds_def)
  have "prefix (got (bw_sink (cs_writer s'))) (streamed s')" by (simp add: accepted_def)
  also have "prefix (streamed s') (streamed s @ p)" using q by simp
  finally show "prefix (got (bw_sink (cs_writer s'))) (streamed s @ p)" .
  show "got (bw_sink (cs_writer s')) = streamed s @ p" if "e = None" "bw_buf (cs_writer s') = []"
    using q that by (simp add: accepted_def)
qed

text \<open>Header, rows and flush, as \<open>StreamHTTP\<close> performs them, on any streamer that is still fresh.\<close>

lemma stream_adds:
  assumes "WriteHeader wr s = (e1, s1)" and "e1 = None \<longrightarrow> WriteRows wr items s1 = (e2, s2)"
    and "e1 = None \<longrightarrow> e2 = None \<longrightarrow> Flush wr s2 = (e3, s3)"
    and "\<not> headerWritten s" "bw_buf (cs_writer s) = []" "validDelim (Delimiter (cs_options s))"
  shows "e1 \<noteq> None \<longrightarrow> adds e1 s s1 (csv_document (cs_options s) (cs_columns s) items)"
    and "e1 = None \<and> e2 \<noteq> None \<longrightarrow> adds e2 s s2 (csv_document (cs_options s) (cs_columns s) items)"
    and "e1 = None \<and> e2 = None \<longrightarrow> adds e3 s s3 (csv_document (cs_options s) (cs_columns s) items)
      \<and> rowCount s3 = rowCount s + int (length items) \<and> headerWritten s3
      \<and> (e3 = None \<longrightarrow> bw_buf (cs_writer s3) = [])"
proof -
  note a1 = WriteHeader_adds [OF assms(1,4,5,6)]
  then show "e1 \<noteq> None \<longrightarrow> adds e1 s s1 (csv_document (cs_options s) (cs_columns s) items)"
    by (simp add: csv_document_def adds_prefix)
  have a2: "adds e2 s s2 (csv_document (cs_options s) (cs_columns s) items) \<and> headerWritten s2
    \<and> (e2 = None \<longrightarrow> rowCount s2 = rowCount s + int (length items))" if e1: "e1 = None"
  proof -
    have set: "cs_options s1 = cs_options s" "cs_columns s1 = cs_columns s"
      using a1 by (simp_all add: adds_def same_setup_def)
    have "WriteRows wr items s1 = (e2, s2)" using assms(2) e1 by simp
    from WriteRows_adds [OF this] a1 e1 set assms(6)
    have "adds e2 s1 s2 (concat (map (csv_row (cs_options s) (cs_columns s)) items)) \<and> headerWritten s2
      \<and> (e2 = None \<longrightarrow> rowCount s2 = rowCount s1 + int (length items))" by simp
    then show ?thesis using a1 e1 unfolding csv_document_def by (auto intro: adds_trans)
  qed
  then show "e1 = None \<and> e2 \<noteq> None \<longrightarrow> adds e2 s s2 (csv_document (cs_options s) (cs_columns s) items)"
    by blast
  show "e1 = None \<and> e2 = None \<longrightarrow> adds e3 s s3 (csv_document (cs_options s) (cs_columns s) items)
      \<and> rowCount s3 = rowCount s + int (length items) \<and> headerWritten s3
      \<and> (e3 = None \<longrightarrow> bw_buf (cs_writer s3) = [])"
  proof
    assume e: "e1 = None \<and> e2 = None"
    with assms(3) have "Flush wr s2 = (e3, s3)" by simp
    note a3 = Flush_adds [OF this]
    with a2 e adds_trans [of s s2 "csv_document (cs_options s) (cs_columns s) items" e3 s3 "[]"]
    show "adds e3 s s3 (csv_document (cs_options s) (cs_columns s) items)
      \<and> rowCount s3 = rowCount s + int (length items) \<and> headerWritten s3
      \<and> (e3 = None \<longrightarrow> bw_buf (cs_writer s3) = [])" by simp
  qed
qed

lemma StreamHTTP_received:
  assumes "StreamHTTP quote wr filename cols items (hdrs, w) = (e, hdrs', w')"
  shows "prefix (got w') (got w @ csv_document DefaultCSVOptions cols items)
    \<and> (e = None \<longrightarrow> got w' = got w @ csv_document DefaultCSVOptions cols items)"
proof -
  let ?s = "NewCSVStreamer w cols [WithBOM True, WithCRLF True]"
  let ?doc = "csv_document DefaultCSVOptions cols items"
  obtain e1 s1 e2 s2 e3 s3 where r: "WriteHeader wr ?s = (e1, s1)" "WriteRows wr items s1 = (e2, s2)"
    "Flush wr s2 = (e3, s3)" by (metis prod.exhaust)
  have o1: "cs_options ?s = DefaultCSVOptions" by (rule stream_options)
  have d: "validDelim (Delimiter (cs_options ?s))" unfolding o1 by (rule default_delim)
  note a = stream_adds [of ?s e1 s1 items e2 s2 e3 s3, simplified r, OF refl _ _ _ _ d, simplified, unfolded o1]
  consider err where "e1 = Some err" "\<exists>err'. e = Some err'" "w' = bw_sink (cs_writer s1)"
    | err where "e1 = None" "e2 = Some err" "\<exists>err'. e = Some err'" "w' = bw_sink (cs_writer s2)"
    | "e1 = None" "e2 = None" "e = e3" "w' = bw_sink (cs_writer s3)"
    using assms r by (cases e1; cases e2) (auto simp: StreamHTTP_def Let_def)
  then show ?thesis
  proof cases
    case 1
    with a(1) adds_received(1) [of e1 ?s s1 ?doc] show ?thesis by auto
  next
    case 2
    with a(2) adds_received(1) [of e2 ?s s2 ?doc] show ?thesis by auto
  next
    case 3
    with a(3) adds_received [of e3 ?s s3 ?doc] show ?thesis by auto
  qed
qed

end

context io_writer
begin

lemma rows_fresh:
  assumes "WriteRows wr (x # xs) s = (None, s')" and "\<not> headerWritten s"
    and "bw_buf (cs_writer s) = []" "validDelim (Delimiter (cs_options s))"
  obtains s1 where "WriteHeader wr s = (None, s1)" and "WriteRows wr (x # xs) s1 = (None, s')"
proof -
  obtain e1 s1 where 1: "WriteHeader wr s = (e1, s1)" by fastforce
  with assms(1,2) have "e1 = None" by (cases e1) (simp_all add: WriteRow_def)
  moreover from this have "headerWritten s1" using WriteHeader_adds [OF 1 assms(2-4)] by simp
  ultimately have "WriteRows wr (x # xs) s1 = (None, s')" using assms(1,2) 1 by (simp add: WriteRow_def)
  with that 1 \<open>e1 = None\<close> show ?thesis by simp
qed

lemma streamer_document:
  assumes "s = NewCSVStreamer w cols opts" and "validDelim (Delimiter (cs_options s))"
    and "items \<noteq> []" and "WriteRows wr items s = (None, s')" and "Close wr s' = (None, s'')"
  shows "got (bw_sink (cs_writer s'')) = got w @ csv_document (cs_options s) cols items
    \<and> RowCount s'' = int (length items) \<and> WriteHeader wr s'' = (None, s'')"
proof -
  have f: "\<not> headerWritten s" "bw_buf (cs_writer s) = []" using assms(1) by simp_all
  from assms(3) obtain x xs where x: "items = x # xs" by (cases items) auto
  obtain s1 where r: "WriteHeader wr s = (None, s1)" "WriteRows wr items s1 = (None, s')"
    by (rule rows_fresh [OF assms(4) [unfolded x] f assms(2)]) (simp add: x)
  from stream_adds(3) [OF r(1) _ _ f assms(2), of items None s' None s''] r(2) assms(5)
  have "adds None s s'' (csv_document (cs_options s) (cs_columns s) items)
      \<and> rowCount s'' = rowCount s + int (length items) \<and> headerWritten s'' \<and> bw_buf (cs_writer s'') = []"
    by (simp add: Close_def)
  with adds_received(2) [of None s s'' "csv_document (cs_options s) (cs_columns s) items"]
  show ?thesis using assms(1) by (simp add: RowCount_def WriteHeader_again)
qed

end

text \<open>A sample export: two columns, one row, into a connection that takes everything, and into one that
  breaks after twelve bytes.\<close>

definition demo_cols :: "(string \<times> string) Column list" where
  "demo_cols = [\<lparr>Header = ''id'', Extractor = fst\<rparr>, \<lparr>Header = ''note'', Extractor = snd\<rparr>]"

definition demo_items :: "(string \<times> string) list" where
  "demo_items = [(''-1'', ''=a,b'')]"

definition demo_export :: "nat option \<Rightarrow> goerr option \<times> (string \<rightharpoonup> string) \<times> conn" where
  "demo_export k = StreamHTTP id (conn_write (Errorf ''broken pipe'')) ''f.csv'' demo_cols demo_items
     (Map.empty, \<lparr>cn_got = [], cn_left = k\<rparr>)"

lemma demo_export_runs:
  "fst (demo_export None) = None" "fst (demo_export (Some 12)) \<noteq> None"
  "length (cn_got (snd (snd (demo_export (Some 12))))) = 12"
  by code_simp+

text \<open>C37. The bytes a client of \<open>StreamHTTP\<close> receives, for every writer that keeps the contract of
  \<open>io.Writer\<close> and wherever it fails: they are a part of the beginning of the document (byte order
  mark, header, rows), never anything else, and they are the whole document if nil is returned.\<close>

theorem export_stream_is_document_prefix:
  assumes "io_writer wr got" and "StreamHTTP quote wr filename cols items (hdrs, w) = (e, hdrs', w')"
  shows "prefix (got w') (got w @ csv_document DefaultCSVOptions cols items)
    \<and> (e = None \<longrightarrow> got w' = got w @ csv_document DefaultCSVOptions cols items)"
  using io_writer.StreamHTTP_received [OF assms] .

theorem export_stream_is_document_prefix_witness:
  "cn_got (snd (snd (demo_export None))) = csv_document DefaultCSVOptions demo_cols demo_items
    \<and> prefix (cn_got (snd (snd (demo_export (Some 12))))) (csv_document DefaultCSVOptions demo_cols demo_items)"
proof -
  have "demo_export k = (fst (demo_export k), fst (snd (demo_export k)), snd (snd (demo_export k)))" for k
    by simp
  note this [unfolded demo_export_def [of k for k]]
  from export_stream_is_document_prefix [OF conn.io_writer_axioms this] demo_export_runs(1)
  show ?thesis by (simp add: demo_export_def)
qed

text \<open>C18. Round trip: what a completed \<open>StreamHTTP\<close> sent, after its byte order mark, reads back under
  RFC 4180 as one record of sanitized headers and one record per item of its sanitized cells, in
  order, with the line breaks inside cells written as \<open>\r\n\<close> (a cell without line breaks comes back
  as it was).\<close>

theorem export_roundtrip:
  assumes "io_writer wr got" and "cols \<noteq> []"
    and "StreamHTTP quote wr filename cols items (hdrs, w) = (None, hdrs', w')"
  shows "\<exists>body. got w' = got w @ BOM @ body
    \<and> csv_read (CHR '','') body = Some (map (map (csv_content True))
        (map (\<lambda>c. SanitizeCSVCell (Header c)) cols
         # map (\<lambda>x. map (\<lambda>c. SanitizeCSVCell (Extractor c x)) cols) items))
    \<and> (\<forall>v. CHR 13 \<notin> set v \<and> CHR 10 \<notin> set v \<longrightarrow> csv_content True v = v)"
proof -
  let ?recs = "map (\<lambda>c. SanitizeCSVCell (Header c)) cols
    # map (\<lambda>x. map (\<lambda>c. SanitizeCSVCell (Extractor c x)) cols) items"
  let ?body = "concat (map (csv_record 44 True) ?recs)"
  have "csv_document DefaultCSVOptions cols items = BOM @ ?body"
    by (simp add: csv_document_def csv_header_def csv_row_def [abs_def] DefaultCSVOptions_def sanitized_def comp_def)
  moreover have "int (byte (CHR '','')) = 44" by (simp add: byte_def)
  then have "csv_read (CHR '','') ?body = Some (map (map (csv_content True)) ?recs)"
    using csv_read_write [of "CHR '',''" ?recs True] assms(2)
    by (auto simp: one_byte_delim_def validDelim_def ValidRune_def byte_def)
  ultimately show ?thesis
    using io_writer.StreamHTTP_received [OF assms(1,3)] csv_content_plain
    by (intro exI [of _ ?body]) auto
qed

theorem export_roundtrip_witness:
  "\<exists>body. cn_got (snd (snd (demo_export None))) = BOM @ body
    \<and> csv_read (CHR '','') body = Some [[''id'', ''note''], [''-1'', CHR 39 # ''=a,b'']]"
proof -
  have r: "StreamHTTP id (conn_write (Errorf ''broken pipe'')) ''f.csv'' demo_cols demo_items
      (Map.empty, \<lparr>cn_got = [], cn_left = None\<rparr>)
      = (None, fst (snd (demo_export None)), snd (snd (demo_export None)))"
    using demo_export_runs(1) by (simp add: demo_export_def prod_eq_iff)
  have cells: "map (map (csv_content True)) (map (\<lambda>c. SanitizeCSVCell (Header c)) demo_cols
      # map (\<lambda>x. map (\<lambda>c. SanitizeCSVCell (Extractor c x)) demo_cols) demo_items)
      = [[''id'', ''note''], [''-1'', CHR 39 # ''=a,b'']]"
    by code_simp
  have "demo_cols \<noteq> []" by (simp add: demo_cols_def)
  from export_roundtrip [OF conn.io_writer_axioms this r] show ?thesis unfolding cells by auto
qed

text \<open>Any streamer, with any options whose delimiter is valid: \<open>WriteRows\<close> on a fresh one writes the
  header by itself, once (\<open>WriteHeader\<close> afterwards does nothing), and after \<open>Close\<close> the writer has
  received the whole document, whatever the flush interval; \<open>RowCount\<close> is the number of items.\<close>

theorem csv_streamer_document:
  assumes "io_writer wr got" and "s = NewCSVStreamer w cols opts" and "validDelim (Delimiter (cs_options s))"
    and "items \<noteq> []" and "WriteRows wr items s = (None, s')" and "Close wr s' = (None, s'')"
  shows "got (bw_sink (cs_writer s'')) = got w @ csv_document (cs_options s) cols items
    \<and> RowCount s'' = int (length items) \<and> WriteHeader wr s'' = (None, s'')"
  using io_writer.streamer_document [OF assms] .

definition demo_streamer :: "(string \<times> string, conn) CSVStreamer" where
  "demo_streamer = NewCSVStreamer \<lparr>cn_got = [], cn_left = None\<rparr> demo_cols
     [WithDelimiter 59, WithBOM False, WithCRLF False, WithFlushInterval 1]"

theorem csv_streamer_document_witness:
  "\<exists>s' s''. WriteRows (conn_write (Errorf [])) demo_items demo_streamer = (None, s')
    \<and> Close (conn_write (Errorf [])) s' = (None, s'') \<and> RowCount s'' = 1
    \<and> cn_got (bw_sink (cs_writer s'')) = csv_document (cs_options demo_streamer) demo_cols demo_items"
proof -
  let ?w = "conn_write (Errorf [])"
  let ?r = "WriteRows ?w demo_items demo_streamer"
  have "fst ?r = None" "fst (Close ?w (snd ?r)) = None" "validDelim (Delimiter (cs_options demo_streamer))"
    by code_simp+
  then have r: "?r = (None, snd ?r)" "Close ?w (snd ?r) = (None, snd (Close ?w (snd ?r)))"
    "validDelim (Delimiter (cs_options demo_streamer))" by (simp_all add: prod_eq_iff)
  have "demo_items \<noteq> []" by (simp add: demo_items_def)
  from csv_streamer_document [OF conn.io_writer_axioms demo_streamer_def r(3) this r(1,2)] r(1,2)
  have "RowCount (snd (Close ?w (snd ?r))) = 1
      \<and> cn_got (bw_sink (cs_writer (snd (Close ?w (snd ?r))))) = csv_document (cs_options demo_streamer) demo_cols demo_items"
    by (simp add: demo_items_def)
  with r(1,2) show ?thesis by blast
qed

text \<open>A delimiter that \<open>encoding/csv\<close> refuses (a quote, a line break, an invalid rune): \<open>WriteHeader\<close>
  reports \<open>ErrInvalidDelim\<close>, but only after the byte order mark has gone out, and since the header is
  not marked as written a second attempt sends the mark again.\<close>

theorem csv_bad_delimiter_repeats_bom:
  assumes "io_writer wr got" and "\<not> validDelim (Delimiter (cs_options s))" and "\<not> headerWritten s"
    and "IncludeBOM (cs_options s)"
    and "wr BOM (bw_sink (cs_writer s)) = ((3, None), w1)" and "wr BOM w1 = ((3, None), w2)"
  shows "\<exists>e1 s1 e2 s2. WriteHeader wr s = (Some e1, s1) \<and> WriteHeader wr s1 = (Some e2, s2)
    \<and> errors_is e1 ErrInvalidDelim \<and> errors_is e2 ErrInvalidDelim
    \<and> got (bw_sink (cs_writer s2)) = got (bw_sink (cs_writer s)) @ BOM @ BOM"
proof -
  have "got w2 = got (bw_sink (cs_writer s)) @ BOM @ BOM"
    using io_writer.wr_got [OF assms(1,5)] io_writer.wr_got [OF assms(1,6)] by (simp add: BOM_def)
  with assms(2-6) show ?thesis
    by (simp add: WriteHeader_def write_bom_def csv_put_def csv_Write_def Let_def)
qed

theorem csv_bad_delimiter_repeats_bom_witness:
  "\<exists>e1 s1 e2 s2. WriteHeader (conn_write (Errorf []))
      (NewCSVStreamer \<lparr>cn_got = [], cn_left = None\<rparr> demo_cols [WithDelimiter 34]) = (Some e1, s1)
    \<and> WriteHeader (conn_write (Errorf [])) s1 = (Some e2, s2)
    \<and> cn_got (bw_sink (cs_writer s2)) = BOM @ BOM"
proof -
  let ?s = "NewCSVStreamer \<lparr>cn_got = [], cn_left = None\<rparr> demo_cols [WithDelimiter 34]"
  have "\<not> validDelim (Delimiter (cs_options ?s))" "IncludeBOM (cs_options ?s)" by code_simp+
  from csv_bad_delimiter_repeats_bom [OF conn.io_writer_axioms this(1) _ this(2),
      of "Errorf []" "\<lparr>cn_got = BOM, cn_left = None\<rparr>" "\<lparr>cn_got = BOM @ BOM, cn_left = None\<rparr>"]
  show ?thesis by (auto simp: conn_write_def BOM_def)
qed

text \<open>Where the guard leaks: the cell is checked before \<open>encoding/csv\<close> drops bare carriage
  returns from it (with CRLF line ends).  For a cell whose carriage return splits the two bytes of a
  non-breaking space, the sanitized cell is inert but what a reader of the file gets is not: its
  first byte after white space is \<open>=\<close>.\<close>

theorem sanitize_misses_split_nbsp:
  "\<exists>v. inert_cell (SanitizeCSVCell v) \<and> \<not> inert_cell (csv_content True (SanitizeCSVCell v))
    \<and> hd (trimLeadingCSVWhitespace (csv_content True (SanitizeCSVCell v))) = CHR ''=''"
proof -
  let ?v = "[CHR 0xC2, CHR 13, CHR 0xA0, CHR ''='', CHR ''1'']"
  have "SanitizeCSVCell ?v = ?v" "csv_content True ?v = [CHR 0xC2, CHR 0xA0, CHR ''='', CHR ''1'']"
    by code_simp+
  moreover have "hd (trimLeadingCSVWhitespace [CHR 0xC2, CHR 0xA0, CHR ''='', CHR ''1'']) = CHR ''=''"
    "\<not> inert_cell [CHR 0xC2, CHR 0xA0, CHR ''='', CHR ''1'']"
    by code_simp+
  ultimately show ?thesis using sanitize_inert [of ?v] by (intro exI [of _ ?v]) simp
qed

end
