(* ===== verification/Go_Time.thy ===== *)
theory Go_Time
  imports Go_Strings
begin

text \<open>
  Decimal integers (\<open>strconv.ParseInt\<close> and \<open>FormatInt\<close> in base 10) and the parts of package \<open>time\<close>
  on them: Unix seconds and milliseconds, and \<open>time.Parse\<close> for the layout \<open>time.RFC3339\<close>.
\<close>

section \<open>Decimal integers\<close>

definition digit_val :: "char \<Rightarrow> int" where
  "digit_val c = int (byte c) - 48"

definition digit_char :: "int \<Rightarrow> char" where
  "digit_char d = char_of (nat d + 48)"

definition dec_value :: "string \<Rightarrow> int" where
  "dec_value ds = foldl (\<lambda>n c. n * 10 + digit_val c) 0 ds"

definition split_sign :: "string \<Rightarrow> bool \<times> string" where
  "split_sign s = (case s of
     c # r \<Rightarrow> if c = CHR ''-'' then (True, r) else if c = CHR ''+'' then (False, r) else (False, s)
   | [] \<Rightarrow> (False, []))"

definition ParseInt :: "string \<Rightarrow> int option" where
  "ParseInt s = (case split_sign s of (neg, ds) \<Rightarrow>
     if ds = [] \<or> \<not> list_all is_digit ds then None
     else let v = (if neg then - dec_value ds else dec_value ds)
          in if MinInt64 \<le> v \<and> v \<le> MaxInt64 then Some v else None)"

function dec_text :: "int \<Rightarrow> string" where
  "dec_text n = (if n < 10 then [digit_char n] else dec_text (n div 10) @ [digit_char (n mod 10)])"
  by pat_completeness auto

termination
  by (relation "measure nat") auto

declare dec_text.simps [simp del]

definition FormatInt :: "int \<Rightarrow> string" where
  "FormatInt n = (if n < 0 then CHR ''-'' # dec_text (- n) else dec_text n)"

lemma dec_value_snoc [simp]: "dec_value (ds @ [c]) = dec_value ds * 10 + digit_val c"
  by (simp add: dec_value_def)

lemma byte_digit_char: "0 \<le> d \<Longrightarrow> d < 10 \<Longrightarrow> byte (digit_char d) = nat d + 48"
  by (simp add: byte_def digit_char_def)

lemma digit_char_simps [simp]:
  "0 \<le> d \<Longrightarrow> d < 10 \<Longrightarrow> is_digit (digit_char d)"
  "0 \<le> d \<Longrightarrow> d < 10 \<Longrightarrow> digit_val (digit_char d) = d"
  by (simp_all add: is_digit_def digit_val_def byte_digit_char)

lemma dec_text_digits:
  "0 \<le> n \<Longrightarrow> dec_text n \<noteq> [] \<and> list_all is_digit (dec_text n) \<and> dec_value (dec_text n) = n"
proof (induction n rule: dec_text.induct)
  case (1 n)
  show ?case
  proof (cases "n < 10")
    case True
    with 1 show ?thesis by (simp add: dec_text.simps [of n] dec_value_def)
  next
    case False
    with 1 show ?thesis by (simp add: dec_text.simps [of n])
  qed
qed

lemma not_is_digit [simp]: "\<not> is_digit (CHR ''-'')" "\<not> is_digit (CHR ''+'')"
  by (simp_all add: is_digit_def byte_def)

lemma split_sign_digits: "list_all is_digit ds \<Longrightarrow> split_sign ds = (False, ds)"
  by (cases ds) (auto simp: split_sign_def)

lemma ParseInt_FormatInt:
  assumes "MinInt64 \<le> n" and "n \<le> MaxInt64"
  shows "ParseInt (FormatInt n) = Some n"
proof (cases "n < 0")
  case True
  with dec_text_digits [of "- n"] assms show ?thesis
    by (simp add: FormatInt_def ParseInt_def split_sign_def)
next
  case False
  with dec_text_digits [of n] assms show ?thesis
    by (simp add: FormatInt_def ParseInt_def split_sign_digits)
qed

lemma ParseInt_range: "ParseInt s = Some n \<Longrightarrow> MinInt64 \<le> n \<and> n \<le> MaxInt64"
  by (auto simp: ParseInt_def Let_def split: prod.splits if_splits)

section \<open>Unix time\<close>

text \<open>The Unix epoch in nanoseconds since the zero time; \<open>time.Unix(sec, 0)\<close>, \<open>time.UnixMilli\<close> and
  \<open>Time.Unix()\<close>.\<close>

definition unix_epoch :: gotime where
  "unix_epoch = 62135596800000000000"

definition time_Unix :: "int \<Rightarrow> gotime" where
  "time_Unix s = unix_epoch + s * 1000000000"

definition time_UnixMilli :: "int \<Rightarrow> gotime" where
  "time_UnixMilli ms = unix_epoch + ms * 1000000"

definition Unix :: "gotime \<Rightarrow> int" where
  "Unix t = (t - unix_epoch) div 1000000000"

lemma Unix_time_Unix: "t - 1000000000 < time_Unix (Unix t)" "time_Unix (Unix t) \<le> t"
proof -
  have "(t - unix_epoch) div 1000000000 * 1000000000 + (t - unix_epoch) mod 1000000000 = t - unix_epoch"
    by (rule div_mult_mod_eq)
  moreover have "0 \<le> (t - unix_epoch) mod 1000000000" "(t - unix_epoch) mod 1000000000 < 1000000000"
    by simp_all
  ultimately show "t - 1000000000 < time_Unix (Unix t)" "time_Unix (Unix t) \<le> t"
    unfolding time_Unix_def Unix_def by linarith+
qed

section \<open>RFC 3339\<close>

definition is_leap :: "int \<Rightarrow> bool" where
  "is_leap y \<longleftrightarrow> y mod 4 = 0 \<and> (y mod 100 \<noteq> 0 \<or> y mod 400 = 0)"

definition days_in :: "int \<Rightarrow> int \<Rightarrow> int" where
  "days_in m y = (if m = 2 then (if is_leap y then 29 else 28)
                  else if m = 4 \<or> m = 6 \<or> m = 9 \<or> m = 11 then 30 else 31)"

definition days_before_month :: "int \<Rightarrow> int \<Rightarrow> int" where
  "days_before_month m y = sum_list (map (\<lambda>i. days_in i y) [1..m - 1])"

text \<open>Days since 1 January of year 1 (proleptic Gregorian calendar), and \<open>time.Date\<close> in UTC.\<close>

definition civil_days :: "int \<Rightarrow> int \<Rightarrow> int \<Rightarrow> int" where
  "civil_days y m d =
     365 * (y - 1) + (y - 1) div 4 - (y - 1) div 100 + (y - 1) div 400 + days_before_month m y + (d - 1)"

definition time_Date :: "int \<Rightarrow> int \<Rightarrow> int \<Rightarrow> int \<Rightarrow> int \<Rightarrow> int \<Rightarrow> int \<Rightarrow> gotime" where
  "time_Date y mo d h mi s ns =
     (((civil_days y mo d * 24 + h) * 60 + mi) * 60 + s) * 1000000000 + ns"

text \<open>The scanner's steps; each takes a value off the front of the text or fails.\<close>

definition getnum :: "bool \<Rightarrow> string \<Rightarrow> (int \<times> string) option" where
  "getnum fixed s = (case s of
     c # r \<Rightarrow>
       if \<not> is_digit c then None
       else (case r of
               d # r' \<Rightarrow> if is_digit d then Some (digit_val c * 10 + digit_val d, r')
                         else if fixed then None else Some (digit_val c, r)
             | [] \<Rightarrow> if fixed then None else Some (digit_val c, []))
   | [] \<Rightarrow> None)"

definition getnum_in :: "bool \<Rightarrow> int \<Rightarrow> int \<Rightarrow> string \<Rightarrow> (int \<times> string) option" where
  "getnum_in fixed lo hi s =
     Option.bind (getnum fixed s) (\<lambda>(n, r). if lo \<le> n \<and> n \<le> hi then Some (n, r) else None)"

definition skip_char :: "char \<Rightarrow> string \<Rightarrow> string option" where
  "skip_char c s = (case s of d # r \<Rightarrow> if c = d then Some r else None | [] \<Rightarrow> None)"

definition get_year :: "string \<Rightarrow> (int \<times> string) option" where
  "get_year s = (if length s < 4 \<or> \<not> list_all is_digit (take 4 s) then None
                 else Some (dec_value (take 4 s), drop 4 s))"

text \<open>A fraction is read if it is there, of any length; the digits after the ninth are dropped.\<close>

definition get_nanos :: "string \<Rightarrow> int \<times> string" where
  "get_nanos s = (case s of
     c # d # r \<Rightarrow>
       if (c = CHR ''.'' \<or> c = CHR '','') \<and> is_digit d
       then (let ds = take 9 (takeWhile is_digit (d # r))
             in (dec_value ds * 10 ^ (9 - length ds), dropWhile is_digit (d # r)))
       else (0, s)
   | _ \<Rightarrow> (0, s))"

text \<open>The offset from UTC in seconds; it must be the last part of the text.\<close>

definition get_zone :: "string \<Rightarrow> int option" where
  "get_zone s =
     (if s = ''Z'' then Some 0
      else if length s = 6 \<and> s ! 3 = CHR '':'' \<and> (s ! 0 = CHR ''+'' \<or> s ! 0 = CHR ''-'')
      then Option.bind (getnum_in True 0 24 (take 2 (drop 1 s))) (\<lambda>(hr, _).
           Option.bind (getnum_in True 0 60 (drop 4 s)) (\<lambda>(mm, _).
             Some ((if s ! 0 = CHR ''-'' then - 1 else 1) * (hr * 60 + mm) * 60)))
      else None)"

definition time_Parse_RFC3339 :: "string \<Rightarrow> gotime option" where
  "time_Parse_RFC3339 s =
     Option.bind (get_year s) (\<lambda>(y, s). Option.bind (skip_char CHR ''-'' s) (\<lambda>s.
     Option.bind (getnum_in True 1 12 s) (\<lambda>(mo, s). Option.bind (skip_char CHR ''-'' s) (\<lambda>s.
     Option.bind (getnum True s) (\<lambda>(d, s). Option.bind (skip_char CHR ''T'' s) (\<lambda>s.
     Option.bind (getnum_in False 0 23 s) (\<lambda>(h, s). Option.bind (skip_char CHR '':'' s) (\<lambda>s.
     Option.bind (getnum_in True 0 59 s) (\<lambda>(mi, s). Option.bind (skip_char CHR '':'' s) (\<lambda>s.
     Option.bind (getnum_in True 0 59 s) (\<lambda>(sec, s).
       (case get_nanos s of (ns, s) \<Rightarrow>
          Option.bind (get_zone s) (\<lambda>off.
            if d < 1 \<or> d > days_in mo y then None
            else Some (time_Date y mo d h mi sec ns - off * 1000000000))))))))))))))"

end
