(* ===== verification/Notif_Types.thy ===== *)
theory Notif_Types
  imports Go_Errors Go_Strings Go_Time
begin

text \<open>
  \<^verbatim>\<open>notifications/types.go\<close> and the vocabulary the HTTP senders share: messages and attachments,
  HTTP requests with their canonical header names, responses, clients, and JSON values.  A map that
  the code ranges over is the list of its entries in the order the loop meets them.
\<close>

section \<open>Messages\<close>

type_synonym Channel = string
type_synonym Priority = string

definition ChannelEmail :: Channel where "ChannelEmail = ''EMAIL''"
definition ChannelSlack :: Channel where "ChannelSlack = ''SLACK''"
definition ChannelWebhook :: Channel where "ChannelWebhook = ''WEBHOOK''"
definition ChannelInApp :: Channel where "ChannelInApp = ''IN_APP''"
definition ChannelWhatsApp :: Channel where "ChannelWhatsApp = ''WHATSAPP''"
definition ChannelSMS :: Channel where "ChannelSMS = ''SMS''"

definition PriorityLow :: Priority where "PriorityLow = ''LOW''"
definition PriorityNormal :: Priority where "PriorityNormal = ''NORMAL''"
definition PriorityHigh :: Priority where "PriorityHigh = ''HIGH''"
definition PriorityCritical :: Priority where "PriorityCritical = ''CRITICAL''"

record Attachment =
  Filename :: string
  ContentType :: string
  Data :: string

record Message =
  ID :: string
  Title :: string
  Body :: string
  HTMLBody :: string
  msg_Priority :: Priority
  Channels :: "Channel list"
  Recipients :: "string list"
  Metadata :: "(string \<times> string) list"
  Attachments :: "Attachment list"
  CreatedAt :: gotime

section \<open>HTTP\<close>

text \<open>\<open>textproto.CanonicalMIMEHeaderKey\<close>: in a name made of token characters the first letter and every
  letter after a hyphen is upper case, the others lower case; other names are kept.\<close>

definition is_upper :: "char \<Rightarrow> bool" where "is_upper c \<longleftrightarrow> 65 \<le> byte c \<and> byte c \<le> 90"
definition is_lower :: "char \<Rightarrow> bool" where "is_lower c \<longleftrightarrow> 97 \<le> byte c \<and> byte c \<le> 122"

definition token_char :: "char \<Rightarrow> bool" where
  "token_char c \<longleftrightarrow> is_digit c \<or> is_upper c \<or> is_lower c \<or> c \<in> set ''!#$%&*+-.^_`|~'' \<or> c = CHR 39"

fun canonical_from :: "bool \<Rightarrow> string \<Rightarrow> string" where
  "canonical_from up [] = []"
| "canonical_from up (c # s) =
     (if up \<and> is_lower c then char_of (byte c - 32)
      else if \<not> up \<and> is_upper c then char_of (byte c + 32) else c) # canonical_from (c = CHR ''-'') s"

definition CanonicalHeaderKey :: "string \<Rightarrow> string" where
  "CanonicalHeaderKey k = (if list_all token_char k then canonical_from True k else k)"

type_synonym headers = "string \<rightharpoonup> string"

definition Header_Set :: "string \<Rightarrow> string \<Rightarrow> headers \<Rightarrow> headers" where
  "Header_Set k v h = h(CanonicalHeaderKey k \<mapsto> v)"

definition Header_Get :: "headers \<Rightarrow> string \<Rightarrow> string" where
  "Header_Get h k = (case h (CanonicalHeaderKey k) of Some v \<Rightarrow> v | None \<Rightarrow> [])"

record http_request =
  rq_method :: string
  rq_url :: string
  rq_header :: headers
  rq_body :: string

record http_response =
  StatusCode :: int
  rs_body :: string

type_synonym 'w http_do = "http_request \<Rightarrow> 'w \<Rightarrow> (goerr + http_response) \<times> 'w"

section \<open>JSON values\<close>

text \<open>The values given to \<open>json.Marshal\<close>; an object is the list of its fields.\<close>

datatype json =
    JStr string
  | JInt int
  | JBool bool
  | JTime gotime
  | JNull
  | JArr "json list"
  | JObj "(string \<times> json) list"

definition omitempty :: "bool \<Rightarrow> string \<times> json \<Rightarrow> (string \<times> json) list" where
  "omitempty e f = (if e then [] else [f])"

text \<open>What the senders use of \<open>net/http\<close> and \<open>encoding/json\<close> beside the client: whether a URL makes a
  request, and the encoder.\<close>

record http_env =
  new_request_err :: "string \<Rightarrow> goerr option"
  json_Marshal :: "json \<Rightarrow> goerr + string"

lemma canonical_fixed:
  assumes "CanonicalHeaderKey k \<noteq> CanonicalHeaderKey k'"
  shows "Header_Set k v h (CanonicalHeaderKey k') = h (CanonicalHeaderKey k')"
  using assms by (simp add: Header_Set_def)

section \<open>Trimming text without white space\<close>

definition plain_char :: "char \<Rightarrow> bool" where
  "plain_char c \<longleftrightarrow> 33 \<le> byte c \<and> byte c < 128"

lemma plain_not_space: "plain_char c \<Longrightarrow> \<not> ascii_space c"
  by (auto simp: plain_char_def ascii_space_def byte_def)

lemma space_seqs_high: "q \<in> set space_seqs \<Longrightarrow> q \<noteq> [] \<and> 128 \<le> byte (hd q) \<and> 128 \<le> byte (last q)"
  by (auto simp: space_seqs_def byte_def)

lemma leading_plain: "plain_char (hd s) \<Longrightarrow> leading_space s = 0"
proof (cases s)
  case (Cons c r)
  assume p: "plain_char (hd s)"
  have "find (\<lambda>q. prefix q s) space_seqs = None"
    unfolding find_None_iff
  proof safe
    fix q assume q: "q \<in> set space_seqs" "prefix q s"
    with space_seqs_high [OF q(1)] have "hd q = c" using Cons by (cases q) auto
    with space_seqs_high [OF q(1)] p Cons show False by (simp add: plain_char_def)
  qed
  with plain_not_space p Cons show ?thesis by (simp add: leading_space_def)
qed simp

lemma trailing_plain: "s \<noteq> [] \<Longrightarrow> plain_char (last s) \<Longrightarrow> trailing_space s = 0"
proof -
  assume s: "s \<noteq> []" and p: "plain_char (last s)"
  have "find (\<lambda>q. suffix q s) space_seqs = None"
    unfolding find_None_iff
  proof safe
    fix q assume q: "q \<in> set space_seqs" "suffix q s"
    then have "last q = last s" using space_seqs_high [OF q(1)] by (auto simp: suffix_def)
    with space_seqs_high [OF q(1)] p show False by (simp add: plain_char_def)
  qed
  with plain_not_space p s show ?thesis by (simp add: trailing_space_def)
qed

lemma TrimSpace_ends:
  assumes "s \<noteq> []" and "plain_char (hd s)" and "plain_char (last s)"
  shows "TrimSpace s = s"
  using assms
  by (simp add: TrimSpace_def trim_left_space.simps leading_plain trim_right_space.simps trailing_plain)

lemma TrimSpace_plain: "list_all plain_char s \<Longrightarrow> TrimSpace s = s"
  by (cases "s = []") (simp_all add: TrimSpace_ends list_all_iff)

end
