(* ===== verification/Go_Hash.thy ===== *)
theory Go_Hash
  imports Go_Strings
begin

text \<open>
  What the webhook code uses of \<open>crypto/sha256\<close>, \<open>crypto/hmac\<close>, \<open>crypto/subtle\<close> and
  \<open>encoding/hex\<close>: SHA-256 (FIPS 180-4) on 32-bit words, HMAC (FIPS 198-1) over it, and lower-case
  hexadecimal text.
\<close>

unbundle bit_operations_syntax

section \<open>SHA-256\<close>

definition sha_k :: "32 word list" where
  "sha_k =
   [0x428a2f98, 0x71374491, 0xb5c0fbcf, 0xe9b5dba5, 0x3956c25b, 0x59f111f1, 0x923f82a4, 0xab1c5ed5,
    0xd807aa98, 0x12835b01, 0x243185be, 0x550c7dc3, 0x72be5d74, 0x80deb1fe, 0x9bdc06a7, 0xc19bf174,
    0xe49b69c1, 0xefbe4786, 0x0fc19dc6, 0x240ca1cc, 0x2de92c6f, 0x4a7484aa, 0x5cb0a9dc, 0x76f988da,
    0x983e5152, 0xa831c66d, 0xb00327c8, 0xbf597fc7, 0xc6e00bf3, 0xd5a79147, 0x06ca6351, 0x14292967,
    0x27b70a85, 0x2e1b2138, 0x4d2c6dfc, 0x53380d13, 0x650a7354, 0x766a0abb, 0x81c2c92e, 0x92722c85,
    0xa2bfe8a1, 0xa81a664b, 0xc24b8b70, 0xc76c51a3, 0xd192e819, 0xd6990624, 0xf40e3585, 0x106aa070,
    0x19a4c116, 0x1e376c08, 0x2748774c, 0x34b0bcb5, 0x391c0cb3, 0x4ed8aa4a, 0x5b9cca4f, 0x682e6ff3,
    0x748f82ee, 0x78a5636f, 0x84c87814, 0x8cc70208, 0x90befffa, 0xa4506ceb, 0xbef9a3f7, 0xc67178f2]"

type_synonym sha_state = "32 word list"

definition sha_init :: sha_state where
  "sha_init = [0x6a09e667, 0xbb67ae85, 0x3c6ef372, 0xa54ff53a, 0x510e527f, 0x9b05688c, 0x1f83d9ab, 0x5be0cd19]"

definition rotr :: "nat \<Rightarrow> 32 word \<Rightarrow> 32 word" where
  "rotr n x = drop_bit n x OR push_bit (32 - n) x"

definition sha_ch :: "32 word \<Rightarrow> 32 word \<Rightarrow> 32 word \<Rightarrow> 32 word" where
  "sha_ch x y z = (x AND y) XOR (NOT x AND z)"

definition sha_maj :: "32 word \<Rightarrow> 32 word \<Rightarrow> 32 word \<Rightarrow> 32 word" where
  "sha_maj x y z = (x AND y) XOR (x AND z) XOR (y AND z)"

definition sha_S0 :: "32 word \<Rightarrow> 32 word" where
  "sha_S0 x = rotr 2 x XOR rotr 13 x XOR rotr 22 x"

definition sha_S1 :: "32 word \<Rightarrow> 32 word" where
  "sha_S1 x = rotr 6 x XOR rotr 11 x XOR rotr 25 x"

definition sha_s0 :: "32 word \<Rightarrow> 32 word" where
  "sha_s0 x = rotr 7 x XOR rotr 18 x XOR drop_bit 3 x"

definition sha_s1 :: "32 word \<Rightarrow> 32 word" where
  "sha_s1 x = rotr 17 x XOR rotr 19 x XOR drop_bit 10 x"

text \<open>The message schedule: the sixteen words of the block, then forty-eight more, each from the
  words 2, 7, 15 and 16 places before it.\<close>

fun sha_extend :: "nat \<Rightarrow> 32 word list \<Rightarrow> 32 word list" where
  "sha_extend 0 ws = ws"
| "sha_extend (Suc n) ws =
     (let t = length ws
      in sha_extend n (ws @ [sha_s1 (ws ! (t - 2)) + ws ! (t - 7) + sha_s0 (ws ! (t - 15)) + ws ! (t - 16)]))"

fun sha_round :: "sha_state \<Rightarrow> 32 word \<times> 32 word \<Rightarrow> sha_state" where
  "sha_round [a, b, c, d, e, f, g, h] (k, w) =
     (let t1 = h + sha_S1 e + sha_ch e f g + k + w; t2 = sha_S0 a + sha_maj a b c
      in [t1 + t2, a, b, c, d + t1, e, f, g])"
| "sha_round st _ = st"

definition sha_block :: "sha_state \<Rightarrow> 32 word list \<Rightarrow> sha_state" where
  "sha_block st ws = map2 (+) st (foldl sha_round st (zip sha_k (sha_extend 48 ws)))"

text \<open>Padding to a multiple of 64 bytes: a one bit, zeros, and the length in bits in eight bytes.\<close>

definition be_bytes :: "nat \<Rightarrow> nat \<Rightarrow> string" where
  "be_bytes k n = map (\<lambda>i. char_of (n div 256 ^ i)) (rev [0..<k])"

definition sha_pad :: "string \<Rightarrow> string" where
  "sha_pad m = m @ CHR 0x80 # replicate ((119 - length m mod 64) mod 64) (CHR 0x00) @ be_bytes 8 (8 * length m)"

fun be_words :: "string \<Rightarrow> 32 word list" where
  "be_words (a # b # c # d # s) =
     word_of_nat (((byte a * 256 + byte b) * 256 + byte c) * 256 + byte d) # be_words s"
| "be_words _ = []"

function sha_blocks :: "sha_state \<Rightarrow> 32 word list \<Rightarrow> sha_state" where
  "sha_blocks st ws = (if length ws < 16 then st else sha_blocks (sha_block st (take 16 ws)) (drop 16 ws))"
  by pat_completeness auto

termination
  by (relation "measure (length \<circ> snd)") auto

declare sha_blocks.simps [simp del]

definition sha256_Sum :: "string \<Rightarrow> string" where
  "sha256_Sum m = concat (map (\<lambda>w. be_bytes 4 (unat w)) (sha_blocks sha_init (be_words (sha_pad m))))"

section \<open>HMAC, hexadecimal text, comparison\<close>

definition xor_byte :: "nat \<Rightarrow> char \<Rightarrow> char" where
  "xor_byte n c = char_of (n XOR byte c)"

definition hmac_sha256 :: "string \<Rightarrow> string \<Rightarrow> string" where
  "hmac_sha256 key m =
     (let k = (if length key > 64 then sha256_Sum key else key);
          kp = k @ replicate (64 - length k) (CHR 0x00)
      in sha256_Sum (map (xor_byte 0x5c) kp @ sha256_Sum (map (xor_byte 0x36) kp @ m)))"

definition hex_table :: string where
  "hex_table = ''0123456789abcdef''"

definition hex_digit :: "nat \<Rightarrow> char" where
  "hex_digit n = hex_table ! n"

definition hex_EncodeToString :: "string \<Rightarrow> string" where
  "hex_EncodeToString s = concat (map (\<lambda>c. [hex_digit (byte c div 16), hex_digit (byte c mod 16)]) s)"

definition hex_chars :: "char set" where
  "hex_chars = set hex_table"

text \<open>\<open>subtle.ConstantTimeCompare(x, y) == 1\<close>: equal lengths and no differing byte.\<close>

definition ConstantTimeCompare :: "string \<Rightarrow> string \<Rightarrow> bool" where
  "ConstantTimeCompare x y \<longleftrightarrow>
     length x = length y \<and> foldl (\<lambda>v (a, b). v OR (byte a XOR byte b)) 0 (zip x y) = 0"

section \<open>Lemmas\<close>

lemma length_be_bytes [simp]: "length (be_bytes k n) = k"
  by (simp add: be_bytes_def)

lemma length_sha_round [simp]: "length (sha_round st kw) = length st"
  by (induction st kw rule: sha_round.induct) (auto simp: Let_def)

lemma length_foldl_round [simp]: "length (foldl sha_round st kws) = length st"
  by (induction kws arbitrary: st) auto

lemma length_sha_blocks [simp]: "length (sha_blocks st ws) = length st"
proof (induction st ws rule: sha_blocks.induct)
  case (1 st ws)
  then show ?case by (cases "length ws < 16") (simp_all add: sha_blocks.simps [of st ws] sha_block_def)
qed

lemma length_sha_init [simp]: "length sha_init = 8"
  by (simp add: sha_init_def)

lemma length_sha256 [simp]: "length (sha256_Sum m) = 32"
  by (simp add: sha256_Sum_def length_concat o_def sum_list_triv length_sha_init)

lemma length_hmac [simp]: "length (hmac_sha256 key m) = 32"
  by (simp add: hmac_sha256_def Let_def)

text \<open>Padding fills whole blocks, so no byte of a message is left out of its hash.\<close>

lemma length_sha_pad: "length (sha_pad m) mod 64 = 0"
proof -
  obtain q r where m: "length m = 64 * q + r" "r < 64"
    by (metis mult_div_mod_eq mod_less_divisor zero_less_numeral)
  then have l: "length (sha_pad m) = 64 * q + (r + 9 + (119 - r) mod 64)"
    by (simp add: sha_pad_def)
  have "(r + 9 + (119 - r) mod 64) mod 64 = 0"
  proof (cases "r \<le> 55")
    case True
    then have "(119 - r) mod 64 = 55 - r" using le_mod_geq [of 64 "119 - r"] by simp
    with True show ?thesis by simp
  qed (use m in simp)
  then show ?thesis unfolding l by (metis mod_mult_self4)
qed

lemma byte_div16 [simp]: "byte c div 16 < 16"
  by (rule less_mult_imp_div_less) simp

lemma length_hex [simp]: "length (hex_EncodeToString s) = 2 * length s"
  by (induction s) (simp_all add: hex_EncodeToString_def)

lemma set_hex: "set (hex_EncodeToString s) \<subseteq> hex_chars"
proof -
  have "hex_digit n \<in> hex_chars" if "n < 16" for n
    using that unfolding hex_digit_def hex_chars_def by (intro nth_mem) (simp add: hex_table_def)
  then show ?thesis by (auto simp: hex_EncodeToString_def)
qed

lemma hex_digit_inj: "m < 16 \<Longrightarrow> n < 16 \<Longrightarrow> hex_digit m = hex_digit n \<longleftrightarrow> m = n"
  unfolding hex_digit_def by (rule nth_eq_iff_index_eq) (simp_all add: hex_table_def)

lemma hex_inj: "hex_EncodeToString s = hex_EncodeToString t \<longleftrightarrow> s = t"
proof (induction s arbitrary: t)
  case Nil
  then show ?case by (cases t) (simp_all add: hex_EncodeToString_def)
next
  case (Cons c s)
  show ?case
  proof (cases t)
    case Nil
    then show ?thesis by (simp add: hex_EncodeToString_def)
  next
    case (Cons d t')
    have "byte c div 16 = byte d div 16 \<and> byte c mod 16 = byte d mod 16 \<longleftrightarrow> c = d"
      by (metis byte_inj div_mult_mod_eq)
    with Cons Cons.IH [of t'] show ?thesis
      by (auto simp: hex_EncodeToString_def hex_digit_inj)
  qed
qed

lemma or_zero_nat: "(a OR b) = 0 \<longleftrightarrow> a = 0 \<and> (b :: nat) = 0"
  by (auto simp: bit_eq_iff bit_or_iff)

lemma xor_zero_nat: "(a XOR b) = 0 \<longleftrightarrow> a = (b :: nat)"
  by (auto simp: bit_eq_iff bit_xor_iff)

lemma ConstantTimeCompare_eq: "ConstantTimeCompare x y \<longleftrightarrow> x = y"
proof -
  have *: "foldl (\<lambda>v (a, b). v OR (byte a XOR byte b)) v (zip x y) = 0 \<longleftrightarrow> v = 0 \<and> x = y"
    if "length x = length y" for v
    using that by (induction x y arbitrary: v rule: list_induct2) (auto simp: or_zero_nat xor_zero_nat byte_inj)
  show ?thesis
  proof (cases "length x = length y")
    case True
    with * [of 0] show ?thesis by (simp add: ConstantTimeCompare_def)
  qed (auto simp: ConstantTimeCompare_def)
qed

end
