(* ===== verification/Notif_Webhook.thy ===== *)
theory Notif_Webhook
  imports Notif_Types Go_Hash
begin

text \<open>
  \<^verbatim>\<open>notifications/webhook.go\<close>: the signature of a payload, the timestamps a receiver accepts, the
  verifier, and the sender.  Quoted values and durations in error texts are not formatted as the
  code does; the error trees and their sentinels are the code's.
\<close>

section \<open>Constants and signatures\<close>

definition HeaderWebhookTimestamp :: string where "HeaderWebhookTimestamp = ''X-Webhook-Timestamp''"
definition HeaderSignatureSHA256 :: string where "HeaderSignatureSHA256 = ''X-Signature-SHA256''"
definition HeaderSignatureVersion :: string where "HeaderSignatureVersion = ''X-Signature-Version''"
definition SignatureVersionV1 :: string where "SignatureVersionV1 = ''v1''"

definition DefaultWebhookTolerance :: duration where
  "DefaultWebhookTolerance = 5 * Minute"

definition ComputeWebhookSignature :: "string \<Rightarrow> string \<Rightarrow> string \<Rightarrow> string" where
  "ComputeWebhookSignature secret timestamp payload =
     ''v1='' @ hex_EncodeToString (hmac_sha256 secret ((timestamp @ ''.'') @ payload))"

section \<open>The receiving side\<close>

definition ParseWebhookTimestamp :: "string \<Rightarrow> goerr + gotime" where
  "ParseWebhookTimestamp timestampStr =
     (let clean = TrimSpace timestampStr
      in if clean = [] then Inl (Sentinel ErrMissingTimestamp)
         else case ParseInt clean of
           Some sec \<Rightarrow> if sec > 100000000000 then Inr (time_UnixMilli sec) else Inr (time_Unix sec)
         | None \<Rightarrow>
             (case time_Parse_RFC3339 clean of
                Some t \<Rightarrow> Inr t
              | None \<Rightarrow> Inl (Wrapf [] (Sentinel ErrInvalidTimestamp) ('': '' @ timestampStr))))"

record WebhookVerifier =
  Secret :: string
  Tolerance :: duration

definition NewWebhookVerifier :: "string \<Rightarrow> duration \<Rightarrow> WebhookVerifier" where
  "NewWebhookVerifier secret tolerance =
     \<lparr>Secret = secret,
      Tolerance = (if sint tolerance \<le> 0 then DefaultWebhookTolerance else tolerance)\<rparr>"

text \<open>One comma-separated part of a tagged signature: the first \<open>t=\<close> is taken if there is no timestamp
  yet, the last \<open>v1=\<close> wins.\<close>

definition tagged_part :: "string \<times> string \<Rightarrow> string \<Rightarrow> string \<times> string" where
  "tagged_part st part = (case st of (sigV1, ts) \<Rightarrow>
     (let part = TrimSpace part
      in if HasPrefix part ''t='' \<and> ts = [] then (sigV1, TrimPrefix part ''t='')
         else if HasPrefix part ''v1='' then (TrimPrefix part ''v1='', ts)
         else (sigV1, ts)))"

definition parseTaggedSignature :: "string \<Rightarrow> string \<Rightarrow> string \<times> string" where
  "parseTaggedSignature sig currentTS =
     (if Contains sig ''t='' \<and> Contains sig ''v1=''
      then (case foldl tagged_part ([], currentTS) (Split sig CHR '','') of
              (sigV1, ts) \<Rightarrow> (if sigV1 \<noteq> [] then ''v1='' @ sigV1 else sig, ts))
      else (sig, currentTS))"

definition verifyLegacyWebhookSignature :: "string \<Rightarrow> string \<Rightarrow> bool" where
  "verifyLegacyWebhookSignature cleanSig v1Hex = ConstantTimeCompare (''sha256='' @ v1Hex) cleanSig"

text \<open>\<open>time.Since\<close> at the instant \<open>now\<close>, made non-negative by a negation that wraps around.\<close>

definition time_diff :: "gotime \<Rightarrow> gotime \<Rightarrow> duration" where
  "time_diff now ts = (let diff = time_sub now ts in if sint diff < 0 then - diff else diff)"

definition Verify :: "gotime \<Rightarrow> WebhookVerifier \<Rightarrow> string \<Rightarrow> string \<Rightarrow> string \<Rightarrow> goerr option" where
  "Verify now v timestamp signature payload =
     (let cleanSig = TrimSpace signature
      in if cleanSig = [] \<or> Secret v = [] then Some (Sentinel ErrInvalidSignature)
         else case parseTaggedSignature cleanSig (TrimSpace timestamp) of (cleanSig, cleanTS) \<Rightarrow>
           if cleanTS = [] then Some (Sentinel ErrMissingTimestamp)
           else case ParseWebhookTimestamp cleanTS of
             Inl err \<Rightarrow> Some err
           | Inr ts \<Rightarrow>
               (let tolerance = (if sint (Tolerance v) \<le> 0 then DefaultWebhookTolerance else Tolerance v);
                    diff = time_diff now ts
                in if sint diff > sint tolerance
                   then Some (Wrapf [] (Sentinel ErrTimestampExpired) '': delta exceeds tolerance'')
                   else (let expectedV1 = ComputeWebhookSignature (Secret v) cleanTS payload
                         in if ConstantTimeCompare expectedV1 cleanSig then None
                            else if verifyLegacyWebhookSignature cleanSig (TrimPrefix expectedV1 ''v1='')
                            then None
                            else Some (Sentinel ErrInvalidSignature))))"

definition VerifyWebhook :: "gotime \<Rightarrow> string \<Rightarrow> string \<Rightarrow> string \<Rightarrow> string \<Rightarrow> goerr option" where
  "VerifyWebhook now secret timestamp signature payload =
     Verify now (NewWebhookVerifier secret DefaultWebhookTolerance) timestamp signature payload"

section \<open>The sending side\<close>

text \<open>A nil \<open>HTTPClient\<close> is \<^const>\<open>None\<close>; the constructor puts the standard client in its place.\<close>

record 'w WebhookConfig =
  EndpointURL :: string
  wh_Secret :: string
  wh_Headers :: "(string \<times> string) list"
  wh_HTTPClient :: "'w http_do option"

definition NewWebhookSender :: "'w http_do \<Rightarrow> 'w WebhookConfig \<Rightarrow> 'w WebhookConfig" where
  "NewWebhookSender default_client cfg =
     (if wh_HTTPClient cfg = None then cfg\<lparr>wh_HTTPClient := Some default_client\<rparr> else cfg)"

definition webhook_Channel :: "'w WebhookConfig \<Rightarrow> Channel" where
  "webhook_Channel s = ChannelWebhook"

text \<open>\<open>json.Marshal(msg)\<close>: the fields with their tags; attachments are not encoded.\<close>

definition message_json :: "Message \<Rightarrow> json" where
  "message_json msg = JObj (
     [(''id'', JStr (ID msg)), (''title'', JStr (Title msg)), (''body'', JStr (Body msg))]
     @ omitempty (HTMLBody msg = []) (''html_body'', JStr (HTMLBody msg))
     @ [(''priority'', JStr (msg_Priority msg)), (''channels'', JArr (map JStr (Channels msg))),
        (''recipients'', JArr (map JStr (Recipients msg)))]
     @ omitempty (Metadata msg = []) (''metadata'', JObj (map (\<lambda>(k, v). (k, JStr v)) (Metadata msg)))
     @ [(''created_at'', JTime (CreatedAt msg))])"

definition set_headers :: "(string \<times> string) list \<Rightarrow> headers \<Rightarrow> headers" where
  "set_headers kvs h = foldl (\<lambda>h (k, v). Header_Set k v h) h kvs"

definition webhook_request :: "gotime \<Rightarrow> 'w WebhookConfig \<Rightarrow> string \<Rightarrow> http_request" where
  "webhook_request now cfg payload =
     (let h = Header_Set ''User-Agent'' ''go-app-kit-webhook/1.0''
                (Header_Set ''Content-Type'' ''application/json'' (\<lambda>_. None));
          timestamp = FormatInt (Unix now);
          h = Header_Set HeaderSignatureVersion SignatureVersionV1
                (Header_Set HeaderWebhookTimestamp timestamp h);
          h = (if wh_Secret cfg \<noteq> []
               then Header_Set HeaderSignatureSHA256
                      (ComputeWebhookSignature (wh_Secret cfg) timestamp payload) h
               else h)
      in \<lparr>rq_method = ''POST'', rq_url = EndpointURL cfg,
          rq_header = set_headers (wh_Headers cfg) h, rq_body = payload\<rparr>)"

definition webhook_Send ::
  "http_env \<Rightarrow> gotime \<Rightarrow> 'w WebhookConfig \<Rightarrow> Message \<Rightarrow> 'w \<Rightarrow> goerr option \<times> 'w" where
  "webhook_Send env now cfg msg w =
     (if EndpointURL cfg = [] then (Some (Errorf ''webhook endpoint URL cannot be empty''), w)
      else case json_Marshal env (message_json msg) of
        Inl err \<Rightarrow> (Some (Wrapf ''failed to marshal webhook payload: '' err []), w)
      | Inr payload \<Rightarrow>
          (case new_request_err env (EndpointURL cfg) of
             Some err \<Rightarrow> (Some (Wrapf ''failed to create webhook request: '' err []), w)
           | None \<Rightarrow>
               (case the (wh_HTTPClient cfg) (webhook_request now cfg payload) w of
                  (Inl err, w) \<Rightarrow> (Some (Wrapf ''webhook HTTP request failed: '' err []), w)
                | (Inr resp, w) \<Rightarrow>
                    if StatusCode resp \<ge> 400
                    then (Some (Errorf (''webhook returned status '' @ FormatInt (StatusCode resp)
                                        @ '': '' @ rs_body resp)), w)
                    else (None, w))))"

end
