(* ===== verification/Webhook_Theorems.thy ===== *)
theory Webhook_Theorems
  imports Notif_Webhook
begin

text \<open>
  Properties of the webhook signatures: exactly which requests a verifier accepts, that what the sender
  sends is accepted, and the timestamps that never expire.
\<close>

section \<open>Freshness\<close>

text \<open>The age of a timestamp, unless it lies so far in the future that the subtraction saturates: then
  the negation of the smallest duration is itself and negative.\<close>

lemma sint_time_diff:
  "sint (time_diff now ts) = (if now - ts \<le> MinInt64 then MinInt64 else min MaxInt64 \<bar>now - ts\<bar>)"
proof -
  let ?d = "time_sub now ts"
  have d: "sint ?d = max MinInt64 (min MaxInt64 (now - ts))" by (rule sint_time_sub)
  have m: "MinInt64 < 0" "0 < MaxInt64" "MinInt64 = - MaxInt64 - 1"
    by (simp_all add: MinInt64_def MaxInt64_def)
  show ?thesis
  proof (cases "now - ts \<le> MinInt64")
    case True
    then have s: "sint ?d = MinInt64" using d m by simp
    have "?d = word_of_int (sint ?d)" by simp
    then have w: "?d = word_of_int MinInt64" using s by simp
    have "- word_of_int MinInt64 = (word_of_int MinInt64 :: int64)" by (simp add: MinInt64_def)
    then have "- ?d = ?d" using w by metis
    then have "time_diff now ts = ?d" by (simp only: time_diff_def Let_def if_cancel)
    with s True show ?thesis by simp
  next
    case False
    show ?thesis
    proof (cases "sint ?d < 0")
      case True
      with d m False have e: "sint ?d = now - ts" by (auto simp: max_def min_def split: if_splits)
      have "- ?d = word_of_int (- sint ?d)" by simp
      then have "sint (- ?d) = - sint ?d"
        using sint_of_int64 [of "- sint ?d"] e False True m by simp
      with e True False m show ?thesis by (simp add: time_diff_def)
    next
      case nn: False
      with d m False show ?thesis by (auto simp: time_diff_def max_def min_def split: if_splits)
    qed
  qed
qed

definition effective_tolerance :: "WebhookVerifier \<Rightarrow> int" where
  "effective_tolerance v = (if sint (Tolerance v) \<le> 0 then 300000000000 else sint (Tolerance v))"

definition in_window :: "gotime \<Rightarrow> WebhookVerifier \<Rightarrow> gotime \<Rightarrow> bool" where
  "in_window now v t \<longleftrightarrow> min MaxInt64 \<bar>now - t\<bar> \<le> effective_tolerance v \<or> now - t \<le> MinInt64"

lemma sint_default_tolerance: "sint DefaultWebhookTolerance = 300000000000"
  by (simp add: DefaultWebhookTolerance_def Minute_def)

lemma tolerance_sint:
  "sint (if sint (Tolerance v) \<le> 0 then DefaultWebhookTolerance else Tolerance v) = effective_tolerance v"
  by (simp add: effective_tolerance_def sint_default_tolerance)

lemma tolerance_range: "0 < effective_tolerance v \<and> effective_tolerance v \<le> MaxInt64"
  using int64_range [of "Tolerance v"] by (auto simp: effective_tolerance_def MaxInt64_def)

lemma fresh_iff: "sint (time_diff now t) \<le> effective_tolerance v \<longleftrightarrow> in_window now v t"
proof -
  have m: "MinInt64 < 0" "MinInt64 = - MaxInt64 - 1" by (simp_all add: MinInt64_def MaxInt64_def)
  show ?thesis
    using tolerance_range [of v] m by (auto simp: sint_time_diff in_window_def)
qed

section \<open>What a verifier accepts\<close>

text \<open>The two texts a signature may be, for the hexadecimal digest of secret, timestamp and payload.\<close>

definition digest :: "string \<Rightarrow> string \<Rightarrow> string \<Rightarrow> string" where
  "digest secret ts payload = hex_EncodeToString (hmac_sha256 secret (ts @ ''.'' @ payload))"

lemma signature_digest: "ComputeWebhookSignature secret ts payload = ''v1='' @ digest secret ts payload"
  by (simp add: ComputeWebhookSignature_def digest_def)

lemma TrimPrefix_append [simp]: "TrimPrefix (p @ s) p = s"
  by (simp add: TrimPrefix_def)

lemma TrimPrefix_v1: "TrimPrefix (CHR ''v'' # CHR ''1'' # CHR ''='' # s) ''v1='' = s"
  using TrimPrefix_append [of "''v1=''" s] by simp

lemma Verify_cases:
  assumes "parseTaggedSignature (TrimSpace signature) (TrimSpace timestamp) = (sg, ts)"
  shows "Verify now v timestamp signature payload =
    (if TrimSpace signature = [] \<or> Secret v = [] then Some (Sentinel ErrInvalidSignature)
     else if ts = [] then Some (Sentinel ErrMissingTimestamp)
     else case ParseWebhookTimestamp ts of
        Inl err \<Rightarrow> Some err
      | Inr t \<Rightarrow> if \<not> in_window now v t
                then Some (Wrapf [] (Sentinel ErrTimestampExpired) '': delta exceeds tolerance'')
                else if sg = ''v1='' @ digest (Secret v) ts payload \<or> sg = ''sha256='' @ digest (Secret v) ts payload
                then None else Some (Sentinel ErrInvalidSignature))"
  unfolding Verify_def Let_def tolerance_sint
  by (auto simp: assms not_less fresh_iff [symmetric] signature_digest ConstantTimeCompare_eq
      verifyLegacyWebhookSignature_def TrimPrefix_v1 split: sum.split)

text \<open>C9. Which requests a verifier accepts: those with a secret and a signature whose timestamp (the
  header, or the first \<open>t=\<close> part when the header is blank) parses, lies in the tolerance window, and
  whose signature is \<open>v1=\<close> or \<open>sha256=\<close> with the hexadecimal HMAC-SHA256 of timestamp, point and
  payload under the verifier's secret.  The window has a second part, the timestamps more than 292
  years ahead.\<close>

theorem webhook_verify_iff:
  "Verify now v timestamp signature payload = None \<longleftrightarrow>
     Secret v \<noteq> [] \<and> TrimSpace signature \<noteq> []
     \<and> (\<exists>sg ts t. parseTaggedSignature (TrimSpace signature) (TrimSpace timestamp) = (sg, ts)
          \<and> ts \<noteq> [] \<and> ParseWebhookTimestamp ts = Inr t \<and> in_window now v t
          \<and> sg \<in> {''v1='' @ digest (Secret v) ts payload, ''sha256='' @ digest (Secret v) ts payload})"
proof -
  obtain sg ts where p: "parseTaggedSignature (TrimSpace signature) (TrimSpace timestamp) = (sg, ts)"
    by fastforce
  show ?thesis unfolding Verify_cases [OF p] using p by (auto split: sum.splits if_splits)
qed

section \<open>What the sender sends is accepted\<close>

lemma FormatInt_plain: "list_all plain_char (FormatInt n)"
proof -
  have "plain_char c" if "is_digit c" for c using that by (simp add: is_digit_def plain_char_def)
  then have "list_all plain_char (dec_text m)" if "0 \<le> m" for m
    using dec_text_digits [OF that] by (auto simp: list_all_iff)
  moreover have "plain_char (CHR ''-'')" by (simp add: plain_char_def byte_def)
  ultimately show ?thesis by (simp add: FormatInt_def)
qed

lemma FormatInt_nonempty [simp]: "FormatInt n \<noteq> []"
  using dec_text_digits [of n] by (auto simp: FormatInt_def)

lemma digest_chars: "set (digest secret ts payload) \<subseteq> hex_chars"
  by (simp add: digest_def set_hex)

lemma hex_chars_plain: "c \<in> hex_chars \<Longrightarrow> plain_char c \<and> c \<noteq> CHR ''t''"
  by (auto simp: hex_chars_def hex_table_def plain_char_def byte_def)

lemma signature_plain: "list_all plain_char (''v1='' @ digest secret ts payload)"
  using digest_chars [of secret ts payload] hex_chars_plain
  by (auto simp: list_all_iff plain_char_def byte_def subset_iff)

lemma signature_untagged:
  "parseTaggedSignature (''v1='' @ digest secret ts payload) cur = (''v1='' @ digest secret ts payload, cur)"
proof -
  have "CHR ''t'' \<notin> set (''v1='' @ digest secret ts payload)"
    using digest_chars [of secret ts payload] hex_chars_plain by auto
  then have "\<not> Contains (''v1='' @ digest secret ts payload) ''t=''"
    by (auto simp: Contains_iff dest: set_mono_sublist)
  then show ?thesis by (simp add: parseTaggedSignature_def)
qed

lemma set_headers_get:
  "(\<And>k v. (k, v) \<in> set kvs \<Longrightarrow> CanonicalHeaderKey k \<noteq> CanonicalHeaderKey k')
    \<Longrightarrow> Header_Get (set_headers kvs h) k' = Header_Get h k'"
proof (induction kvs arbitrary: h)
  case (Cons kv kvs)
  obtain k v where kv: "kv = (k, v)" by fastforce
  have "Header_Get (set_headers kvs (Header_Set k v h)) k' = Header_Get (Header_Set k v h) k'"
    using Cons by (metis list.set_intros(2))
  moreover have "Header_Get (Header_Set k v h) k' = Header_Get h k'"
    using Cons.prems [of k v] kv by (simp add: Header_Get_def canonical_fixed)
  ultimately show ?case by (simp add: set_headers_def kv)
qed (simp add: set_headers_def)

text \<open>No custom header of a configuration has the name of one of the two headers a verifier reads.\<close>

definition keeps_signature_headers :: "(string \<times> string) list \<Rightarrow> bool" where
  "keeps_signature_headers kvs \<longleftrightarrow>
     list_all (\<lambda>(k, v). CanonicalHeaderKey k \<notin>
       {CanonicalHeaderKey HeaderWebhookTimestamp, CanonicalHeaderKey HeaderSignatureSHA256}) kvs"

lemma webhook_headers:
  assumes "wh_Secret cfg \<noteq> []" and "keeps_signature_headers (wh_Headers cfg)"
  shows "Header_Get (rq_header (webhook_request now cfg payload)) HeaderWebhookTimestamp = FormatInt (Unix now)"
    and "Header_Get (rq_header (webhook_request now cfg payload)) HeaderSignatureSHA256
      = ''v1='' @ digest (wh_Secret cfg) (FormatInt (Unix now)) payload"
proof -
  have ne: "CanonicalHeaderKey HeaderWebhookTimestamp \<noteq> CanonicalHeaderKey HeaderSignatureSHA256"
    "CanonicalHeaderKey HeaderSignatureVersion \<noteq> CanonicalHeaderKey HeaderSignatureSHA256"
    "CanonicalHeaderKey HeaderSignatureVersion \<noteq> CanonicalHeaderKey HeaderWebhookTimestamp"
    by code_simp+
  have k: "CanonicalHeaderKey k \<noteq> CanonicalHeaderKey HeaderWebhookTimestamp"
    "CanonicalHeaderKey k \<noteq> CanonicalHeaderKey HeaderSignatureSHA256"
    if "(k, v) \<in> set (wh_Headers cfg)" for k v
    using assms(2) that by (auto simp: keeps_signature_headers_def list_all_iff)
  have get: "Header_Get (Header_Set k v h) k = v" for k v h
    by (simp add: Header_Get_def Header_Set_def)
  have skip: "Header_Get (Header_Set k v h) k' = Header_Get h k'"
    if "CanonicalHeaderKey k \<noteq> CanonicalHeaderKey k'" for k k' v h
    using that by (simp add: Header_Get_def canonical_fixed)
  show "Header_Get (rq_header (webhook_request now cfg payload)) HeaderWebhookTimestamp = FormatInt (Unix now)"
    using assms(1) ne
    by (simp add: webhook_request_def Let_def set_headers_get [OF k(1)] get skip not_sym)
  show "Header_Get (rq_header (webhook_request now cfg payload)) HeaderSignatureSHA256
      = ''v1='' @ digest (wh_Secret cfg) (FormatInt (Unix now)) payload"
    using assms(1) by (simp add: webhook_request_def Let_def set_headers_get [OF k(2)] get signature_digest)
qed

lemma parse_seconds:
  assumes "n \<le> 100000000000" and "MinInt64 \<le> n"
  shows "ParseWebhookTimestamp (FormatInt n) = Inr (time_Unix n)"
proof -
  have "ParseInt (FormatInt n) = Some n"
    by (rule ParseInt_FormatInt) (use assms in \<open>simp_all add: MaxInt64_def\<close>)
  with assms show ?thesis by (simp add: ParseWebhookTimestamp_def TrimSpace_plain FormatInt_plain)
qed

text \<open>C19. What the sender signs, a receiver with the same secret accepts: the request \<open>Send\<close> builds at
  instant \<open>sent\<close> (before the year 5138) passes \<open>Verify\<close> at the instants whose distance from the whole
  second of \<open>sent\<close> is at most the tolerance and is refused as expired at the others (292 years around),
  whatever the payload, as long as no custom header takes the place of the timestamp or the signature.\<close>

theorem webhook_sent_is_verified:
  assumes "wh_Secret cfg \<noteq> []" and "keeps_signature_headers (wh_Headers cfg)"
    and "MinInt64 \<le> Unix sent" and "Unix sent \<le> 100000000000"
    and "r = webhook_request sent cfg payload" and "v = NewWebhookVerifier (wh_Secret cfg) tol"
    and "age = \<bar>rcv - time_Unix (Unix sent)\<bar>" and "age < MaxInt64"
  shows "case Verify rcv v (Header_Get (rq_header r) HeaderWebhookTimestamp)
           (Header_Get (rq_header r) HeaderSignatureSHA256) (rq_body r) of
         None \<Rightarrow> age \<le> sint (Tolerance v)
       | Some e \<Rightarrow> age > sint (Tolerance v) \<and> errors_is e ErrTimestampExpired"
proof -
  let ?ts = "FormatInt (Unix sent)" and ?sg = "''v1='' @ digest (wh_Secret cfg) (FormatInt (Unix sent)) payload"
  have v: "Secret v = wh_Secret cfg" "effective_tolerance v = sint (Tolerance v)"
    using assms(6) by (auto simp: NewWebhookVerifier_def effective_tolerance_def sint_default_tolerance)
  have trim: "TrimSpace ?sg = ?sg" "TrimSpace ?ts = ?ts"
    by (rule TrimSpace_plain, rule signature_plain, rule TrimSpace_plain, rule FormatInt_plain)
  have h: "Header_Get (rq_header r) HeaderWebhookTimestamp = ?ts" "Header_Get (rq_header r) HeaderSignatureSHA256 = ?sg"
    "rq_body r = payload"
    using webhook_headers [OF assms(1,2)] assms(5) by (simp_all add: webhook_request_def Let_def)
  have p: "parseTaggedSignature (TrimSpace ?sg) (TrimSpace ?ts) = (?sg, ?ts)"
    unfolding trim by (rule signature_untagged)
  have w: "in_window rcv v (time_Unix (Unix sent)) \<longleftrightarrow> age \<le> sint (Tolerance v)"
    using assms(7,8) v(2) by (auto simp: in_window_def MaxInt64_def MinInt64_def)
  show ?thesis
    unfolding h Verify_cases [OF p] parse_seconds [OF assms(4,3)] v(1) trim
    using assms(1) w by simp
qed

definition demo_webhook :: "unit WebhookConfig" where
  "demo_webhook = \<lparr>EndpointURL = ''http://x'', wh_Secret = ''key'', wh_Headers = [(''x-tenant'', ''7'')],
     wh_HTTPClient = None\<rparr>"

theorem webhook_sent_is_verified_witness:
  "Verify (unix_epoch + 60000000000) (NewWebhookVerifier ''key'' 0)
     (Header_Get (rq_header (webhook_request unix_epoch demo_webhook ''{}'')) HeaderWebhookTimestamp)
     (Header_Get (rq_header (webhook_request unix_epoch demo_webhook ''{}'')) HeaderSignatureSHA256)
     (rq_body (webhook_request unix_epoch demo_webhook ''{}'')) = None"
proof -
  have k: "keeps_signature_headers (wh_Headers demo_webhook)" by code_simp
  have u: "Unix unix_epoch = 0" "time_Unix 0 = unix_epoch" by (simp_all add: Unix_def time_Unix_def)
  have t: "sint (Tolerance (NewWebhookVerifier ''key'' 0)) = 300000000000"
    by (simp add: NewWebhookVerifier_def sint_default_tolerance)
  have s: "wh_Secret demo_webhook = ''key''" by (simp add: demo_webhook_def)
  show ?thesis
    using webhook_sent_is_verified [OF _ k, where sent = unix_epoch and payload = "''{}''" and tol = 0
        and rcv = "unix_epoch + 60000000000" and age = 60000000000, OF _ _ _ refl refl, unfolded s]
    by (simp add: u t MinInt64_def MaxInt64_def split: option.splits)
qed

section \<open>Timestamps that never expire\<close>

text \<open>A signed timestamp more than 292 years ahead passes the freshness check of every verifier,
  whatever its tolerance, at every instant before those 292 years: \<open>time.Since\<close> saturates at the smallest
  duration, which negation leaves negative, so a captured request can be replayed without end.\<close>

theorem webhook_far_future_never_expires:
  assumes "Secret v \<noteq> []" and "MinInt64 \<le> n" and "n \<le> 100000000000"
    and "now - time_Unix n \<le> MinInt64"
  shows "Verify now v (FormatInt n) (ComputeWebhookSignature (Secret v) (FormatInt n) payload) payload = None"
proof -
  let ?ts = "FormatInt n"
  have trim: "TrimSpace (''v1='' @ digest (Secret v) ?ts payload) = ''v1='' @ digest (Secret v) ?ts payload"
    "TrimSpace ?ts = ?ts"
    by (rule TrimSpace_plain, rule signature_plain, rule TrimSpace_plain, rule FormatInt_plain)
  have p: "parseTaggedSignature (TrimSpace (''v1='' @ digest (Secret v) ?ts payload)) (TrimSpace ?ts)
      = (''v1='' @ digest (Secret v) ?ts payload, ?ts)"
    unfolding trim by (rule signature_untagged)
  have t: "ParseWebhookTimestamp ?ts = Inr (time_Unix n)"
    by (rule parse_seconds [OF assms(3,2)])
  show ?thesis
    unfolding signature_digest Verify_cases [OF p] t trim
    using assms(1,4) by (simp add: in_window_def)
qed

theorem webhook_far_future_never_expires_witness:
  "Verify (time_Unix 1767225600) (NewWebhookVerifier ''key'' 0) (FormatInt 99999999999)
     (ComputeWebhookSignature ''key'' (FormatInt 99999999999) ''{}'') ''{}'' = None"
  using webhook_far_future_never_expires
    [of "NewWebhookVerifier ''key'' 0" 99999999999 "time_Unix 1767225600" "''{}''"]
  by (simp add: NewWebhookVerifier_def time_Unix_def unix_epoch_def MinInt64_def)

end
