(* ===== verification/Go_Mime.thy ===== *)
theory Go_Mime
  imports Go_Hash
begin

text \<open>
  What the email sender uses of \<open>encoding/base64\<close>, \<open>mime\<close> (RFC 2047 encoded words) and \<open>strconv\<close>
  (\<open>%q\<close> of an ASCII string), with a base64 reader to state that the encoding loses nothing.
\<close>

section \<open>Base64\<close>

definition b64_table :: string where
  "b64_table = ''ABCDEFGHIJKLMNOPQRSTUVWXYZabcdefghijklmnopqrstuvwxyz0123456789+/''"

definition b64_char :: "nat \<Rightarrow> char" where
  "b64_char n = b64_table ! n"

fun base64_Encode :: "string \<Rightarrow> string" where
  "base64_Encode [] = []"
| "base64_Encode [a] = [b64_char (byte a div 4), b64_char (byte a mod 4 * 16), CHR ''='', CHR ''='']"
| "base64_Encode [a, b] =
     [b64_char (byte a div 4), b64_char (byte a mod 4 * 16 + byte b div 16), b64_char (byte b mod 16 * 4), CHR ''='']"
| "base64_Encode (a # b # c # s) =
     b64_char (byte a div 4) # b64_char (byte a mod 4 * 16 + byte b div 16)
     # b64_char (byte b mod 16 * 4 + byte c div 64) # b64_char (byte c mod 64) # base64_Encode s"

definition b64_val :: "char \<Rightarrow> nat option" where
  "b64_val c = (let n = byte c in
     if 65 \<le> n \<and> n \<le> 90 then Some (n - 65) else if 97 \<le> n \<and> n \<le> 122 then Some (n - 71)
     else if 48 \<le> n \<and> n \<le> 57 then Some (n + 4) else if n = 43 then Some 62 else if n = 47 then Some 63
     else None)"

fun base64_Decode :: "string \<Rightarrow> string option" where
  "base64_Decode [] = Some []"
| "base64_Decode (p # q # r # t # s) =
     (case (b64_val p, b64_val q, b64_val r, b64_val t) of
        (Some w, Some x, Some y, Some z) \<Rightarrow>
          map_option (\<lambda>rest. char_of (w * 4 + x div 16) # char_of (x mod 16 * 16 + y div 4)
                              # char_of (y mod 4 * 64 + z) # rest) (base64_Decode s)
      | (Some w, Some x, Some y, None) \<Rightarrow>
          if t = CHR ''='' \<and> s = [] \<and> y mod 4 = 0
          then Some [char_of (w * 4 + x div 16), char_of (x mod 16 * 16 + y div 4)] else None
      | (Some w, Some x, None, None) \<Rightarrow>
          if r = CHR ''='' \<and> t = CHR ''='' \<and> s = [] \<and> x mod 16 = 0 then Some [char_of (w * 4 + x div 16)] else None
      | _ \<Rightarrow> None)"
| "base64_Decode _ = None"

lemma b64_val_char: "n < 64 \<Longrightarrow> b64_val (b64_char n) = Some n"
proof -
  assume n: "n < 64"
  have l: "length b64_table = 64" by (simp add: b64_table_def)
  have "map b64_val b64_table = map Some [0..<64]"
    by (simp add: b64_table_def b64_val_def byte_def Let_def upt_rec)
  then have "map b64_val b64_table ! n = map Some [0..<64] ! n" by simp
  with n l show ?thesis by (simp add: b64_char_def)
qed

lemma b64_val_pad [simp]: "b64_val (CHR ''='') = None"
  by (simp add: b64_val_def byte_def)

lemma sextets [simp]:
  "byte a div 4 < 64" "byte a mod 4 * 16 < 64" "byte a mod 4 * 16 + byte b div 16 < 64"
  "byte b mod 16 * 4 < 64" "byte b mod 16 * 4 + byte c div 64 < 64" "byte c mod 64 < 64"
proof -
  have *: "byte a < 4 * 64" "byte b < 16 * 16" "byte c < 4 * 64" for a b c by simp_all
  show "byte a div 4 < 64" using *(1) [of a] by (simp add: less_mult_imp_div_less)
  have "byte a mod 4 \<le> 3" "byte b mod 16 \<le> 15" by (simp_all add: less_Suc_eq_le [symmetric])
  moreover have "byte b div 16 < 16" "byte c div 64 < 4"
    using *(2) [of b] *(1) [of c] by (simp_all add: less_mult_imp_div_less)
  ultimately show "byte a mod 4 * 16 < 64" "byte a mod 4 * 16 + byte b div 16 < 64"
    "byte b mod 16 * 4 < 64" "byte b mod 16 * 4 + byte c div 64 < 64" by linarith+
qed simp

lemma base64_roundtrip: "base64_Decode (base64_Encode s) = Some s"
proof (induction s rule: base64_Encode.induct)
  case (4 a b c s)
  have "(byte a mod 4 * 16 + byte b div 16) div 16 = byte a mod 4"
    "(byte a mod 4 * 16 + byte b div 16) mod 16 = byte b div 16"
    "(byte b mod 16 * 4 + byte c div 64) div 4 = byte b mod 16"
    "(byte b mod 16 * 4 + byte c div 64) mod 4 = byte c div 64"
    by (simp_all add: less_mult_imp_div_less)
  with 4 show ?case by (simp add: b64_val_char)
next
  case (3 a b)
  have "(byte a mod 4 * 16 + byte b div 16) div 16 = byte a mod 4"
    "(byte a mod 4 * 16 + byte b div 16) mod 16 = byte b div 16"
    by (simp_all add: less_mult_imp_div_less)
  then show ?case by (simp add: b64_val_char)
qed (simp_all add: b64_val_char)

definition b64_chars :: "char set" where
  "b64_chars = insert CHR ''='' (set b64_table)"

lemma b64_char_in [simp]: "n < 64 \<Longrightarrow> b64_char n \<in> b64_chars"
  unfolding b64_char_def b64_chars_def by (intro insertI2 nth_mem) (simp add: b64_table_def)

lemma b64_pad_in [simp]: "CHR ''='' \<in> b64_chars"
  by (simp add: b64_chars_def)

lemma base64_chars: "set (base64_Encode s) \<subseteq> b64_chars"
  by (induction s rule: base64_Encode.induct) simp_all

section \<open>Encoded words\<close>

text \<open>The size of the rune at the start of a string that is not empty: one byte where it is no valid
  encoding (\<open>utf8.DecodeRuneInString\<close>).\<close>

definition continuation :: "char \<Rightarrow> bool" where
  "continuation c \<longleftrightarrow> 0x80 \<le> byte c \<and> byte c \<le> 0xBF"

definition second_byte_ok :: "char \<Rightarrow> char \<Rightarrow> bool" where
  "second_byte_ok a b \<longleftrightarrow>
     (if byte a = 0xE0 then 0xA0 \<le> byte b \<and> byte b \<le> 0xBF
      else if byte a = 0xED then 0x80 \<le> byte b \<and> byte b \<le> 0x9F
      else if byte a = 0xF0 then 0x90 \<le> byte b \<and> byte b \<le> 0xBF
      else if byte a = 0xF4 then 0x80 \<le> byte b \<and> byte b \<le> 0x8F
      else continuation b)"

definition rune_len :: "string \<Rightarrow> nat" where
  "rune_len s = (case s of
     a # b # c # d # _ \<Rightarrow>
       if 0xC2 \<le> byte a \<and> byte a \<le> 0xDF \<and> continuation b then 2
       else if 0xE0 \<le> byte a \<and> byte a \<le> 0xEF \<and> second_byte_ok a b \<and> continuation c then 3
       else if 0xF0 \<le> byte a \<and> byte a \<le> 0xF4 \<and> second_byte_ok a b \<and> continuation c \<and> continuation d then 4
       else 1
   | [a, b, c] \<Rightarrow>
       if 0xC2 \<le> byte a \<and> byte a \<le> 0xDF \<and> continuation b then 2
       else if 0xE0 \<le> byte a \<and> byte a \<le> 0xEF \<and> second_byte_ok a b \<and> continuation c then 3
       else 1
   | [a, b] \<Rightarrow> if 0xC2 \<le> byte a \<and> byte a \<le> 0xDF \<and> continuation b then 2 else 1
   | _ \<Rightarrow> 1)"

lemma rune_len_pos [simp]: "0 < rune_len s"
  by (auto simp: rune_len_def split: list.split)

definition needs_encoding :: "string \<Rightarrow> bool" where
  "needs_encoding s \<longleftrightarrow> \<not> list_all (\<lambda>c. 32 \<le> byte c \<and> byte c \<le> 126 \<or> byte c = 9) s"

definition q_plain :: "char \<Rightarrow> bool" where
  "q_plain c \<longleftrightarrow> 33 \<le> byte c \<and> byte c \<le> 126 \<and> c \<notin> {CHR ''='', CHR ''?'', CHR ''_''}"

definition upper_hex :: "nat \<Rightarrow> char" where
  "upper_hex n = ''0123456789ABCDEF'' ! n"

definition q_byte :: "char \<Rightarrow> string" where
  "q_byte c = (if c = CHR 32 then ''_'' else if q_plain c then [c]
     else [CHR ''='', upper_hex (byte c div 16), upper_hex (byte c mod 16)])"

definition open_word :: "char \<Rightarrow> string" where
  "open_word e = ''=?UTF-8?'' @ [e] @ ''?''"

definition split_word :: "char \<Rightarrow> string" where
  "split_word e = ''?= '' @ open_word e"

text \<open>The loop of \<open>qEncode\<close>, with the length of the current word; a word holds at most 63 characters.\<close>

function q_encode :: "nat \<Rightarrow> string \<Rightarrow> string" where
  "q_encode cur s =
     (if s = [] then []
      else let plain = (hd s = CHR 32 \<or> q_plain (hd s));
               n = (if plain then 1 else rune_len s); enc = (if plain then 1 else 3 * n)
           in (if cur + enc > 63 then split_word CHR ''q'' else [])
              @ concat (map q_byte (take n s))
              @ q_encode ((if cur + enc > 63 then 0 else cur) + enc) (drop n s))"
  by pat_completeness auto

termination
  by (relation "measure (length \<circ> snd)") (auto simp: Let_def)

declare q_encode.simps [simp del]

definition QEncoding_Encode :: "string \<Rightarrow> string" where
  "QEncoding_Encode s =
     (if needs_encoding s then open_word CHR ''q'' @ q_encode 0 s @ ''?='' else s)"

text \<open>\<open>bEncode\<close>: the pieces of at most 45 bytes that are encoded separately; \<open>acc\<close> is the current one.\<close>

function b_pieces :: "string \<Rightarrow> string \<Rightarrow> string list" where
  "b_pieces acc s =
     (if s = [] then [acc]
      else let n = rune_len s
           in if length acc + n \<le> 45 then b_pieces (acc @ take n s) (drop n s)
              else acc # b_pieces (take n s) (drop n s))"
  by pat_completeness auto

termination
  by (relation "measure (length \<circ> snd)") (auto simp: Let_def)

declare b_pieces.simps [simp del]

fun join_words :: "string list \<Rightarrow> string" where
  "join_words [] = []"
| "join_words [p] = base64_Encode p"
| "join_words (p # ps) = base64_Encode p @ split_word CHR ''b'' @ join_words ps"

definition BEncoding_Encode :: "string \<Rightarrow> string" where
  "BEncoding_Encode s =
     (if needs_encoding s
      then open_word CHR ''b''
           @ (if (length s + 2) div 3 * 4 \<le> 63 then base64_Encode s else join_words (b_pieces [] s)) @ ''?=''
      else s)"

section \<open>Quoting an ASCII string\<close>

definition quote_char :: "char \<Rightarrow> string" where
  "quote_char c =
     (if c = CHR 34 \<or> c = CHR 92 then [CHR 92, c]
      else if 32 \<le> byte c \<and> byte c \<le> 126 then [c]
      else if c = CHR 7 then [CHR 92, CHR ''a''] else if c = CHR 8 then [CHR 92, CHR ''b'']
      else if c = CHR 12 then [CHR 92, CHR ''f''] else if c = CHR 10 then [CHR 92, CHR ''n'']
      else if c = CHR 13 then [CHR 92, CHR ''r''] else if c = CHR 9 then [CHR 92, CHR ''t'']
      else if c = CHR 11 then [CHR 92, CHR ''v'']
      else [CHR 92, CHR ''x'', hex_digit (byte c div 16), hex_digit (byte c mod 16)])"

definition quote_ascii :: "string \<Rightarrow> string" where
  "quote_ascii s = CHR 34 # concat (map quote_char s) @ [CHR 34]"

section \<open>Text without line breaks\<close>

definition no_break :: "string \<Rightarrow> bool" where
  "no_break s \<longleftrightarrow> CHR 13 \<notin> set s \<and> CHR 10 \<notin> set s"

lemma no_break_simps [simp]:
  "no_break []" "no_break (s @ t) \<longleftrightarrow> no_break s \<and> no_break t"
  "no_break (c # s) \<longleftrightarrow> c \<noteq> CHR 13 \<and> c \<noteq> CHR 10 \<and> no_break s"
  "no_break (concat ss) \<longleftrightarrow> list_all no_break ss"
  by (auto simp: no_break_def list_all_iff)

lemma no_break_subset: "set t \<subseteq> set s \<Longrightarrow> no_break s \<Longrightarrow> no_break t"
  by (auto simp: no_break_def)

lemma no_break_take_drop: "no_break s \<Longrightarrow> no_break (take n s)" "no_break s \<Longrightarrow> no_break (drop n s)"
  by (auto intro: no_break_subset dest: in_set_takeD in_set_dropD)

lemma no_break_hex: "no_break (hex_EncodeToString s)"
proof -
  have "CHR 13 \<notin> hex_chars" "CHR 10 \<notin> hex_chars" by (simp_all add: hex_chars_def hex_table_def)
  with set_hex [of s] show ?thesis by (auto simp: no_break_def)
qed

lemma no_break_base64: "no_break (base64_Encode s)"
proof -
  have "CHR 13 \<notin> b64_chars" "CHR 10 \<notin> b64_chars" by (simp_all add: b64_chars_def b64_table_def)
  with base64_chars [of s] show ?thesis by (auto simp: no_break_def)
qed

lemma hex_digit_no_break: "n < 16 \<Longrightarrow> hex_digit n \<noteq> CHR 13 \<and> hex_digit n \<noteq> CHR 10"
proof -
  have "list_all (\<lambda>n. hex_digit n \<noteq> CHR 13 \<and> hex_digit n \<noteq> CHR 10) [0..<16]" by code_simp
  then show "n < 16 \<Longrightarrow> hex_digit n \<noteq> CHR 13 \<and> hex_digit n \<noteq> CHR 10" by (simp add: list_all_iff)
qed

lemma upper_hex_no_break: "n < 16 \<Longrightarrow> upper_hex n \<noteq> CHR 13 \<and> upper_hex n \<noteq> CHR 10"
proof -
  have "list_all (\<lambda>n. upper_hex n \<noteq> CHR 13 \<and> upper_hex n \<noteq> CHR 10) [0..<16]" by code_simp
  then show "n < 16 \<Longrightarrow> upper_hex n \<noteq> CHR 13 \<and> upper_hex n \<noteq> CHR 10" by (simp add: list_all_iff)
qed

lemma printable_no_break: "32 \<le> byte c \<Longrightarrow> c \<noteq> CHR 13 \<and> c \<noteq> CHR 10"
  by (auto simp: byte_def)

lemma no_break_quote: "no_break (quote_ascii s)"
proof -
  have "no_break (quote_char c)" for c
    using hex_digit_no_break [of "byte c div 16"] hex_digit_no_break [of "byte c mod 16"] printable_no_break [of c]
    by (auto simp: quote_char_def)
  then show ?thesis by (simp add: quote_ascii_def list_all_iff)
qed

lemma no_break_q_byte: "no_break (q_byte c)"
  using upper_hex_no_break [of "byte c div 16"] upper_hex_no_break [of "byte c mod 16"] printable_no_break [of c]
  by (auto simp: q_byte_def q_plain_def)

lemma no_break_q_encode: "no_break (q_encode cur s)"
proof (induction cur s rule: q_encode.induct)
  case (1 cur s)
  have w: "no_break (split_word CHR ''q'')" by (simp add: split_word_def open_word_def)
  show ?case
  proof (cases "s = []")
    case False
    with 1 w show ?thesis
      by (subst q_encode.simps) (auto simp: Let_def list_all_iff no_break_q_byte)
  qed (simp add: q_encode.simps)
qed

lemma no_break_QEncoding: "no_break (QEncoding_Encode s)"
proof (cases "needs_encoding s")
  case True
  then show ?thesis by (simp add: QEncoding_Encode_def open_word_def no_break_q_encode)
next
  case False
  then have "list_all (\<lambda>c. c \<noteq> CHR 13 \<and> c \<noteq> CHR 10) s"
    by (auto simp: needs_encoding_def list_all_iff byte_def)
  with False show ?thesis by (auto simp: QEncoding_Encode_def no_break_def list_all_iff)
qed

lemma no_break_BEncoding: "no_break (BEncoding_Encode s)"
proof (cases "needs_encoding s")
  case True
  have "no_break (join_words ps)" for ps
    by (induction ps rule: join_words.induct) (simp_all add: no_break_base64 split_word_def open_word_def)
  with True show ?thesis by (simp add: BEncoding_Encode_def open_word_def no_break_base64)
next
  case False
  then have "list_all (\<lambda>c. c \<noteq> CHR 13 \<and> c \<noteq> CHR 10) s"
    by (auto simp: needs_encoding_def list_all_iff byte_def)
  with False show ?thesis by (auto simp: BEncoding_Encode_def no_break_def list_all_iff)
qed

end
