(* ===== verification/Notif_Email.thy ===== *)
theory Notif_Email
  imports Notif_Types Go_Mime
begin

text \<open>
  \<^verbatim>\<open>notifications/email.go\<close>: the MIME message of a notification and the SMTP sender.  The mailer, the
  random source, fresh UUID texts, the host name, the clock and the text of a date are parameters.
\<close>

type_synonym 'w send_mail = "string \<Rightarrow> (string \<times> string \<times> string) option \<Rightarrow> string \<Rightarrow> string list \<Rightarrow> string
  \<Rightarrow> 'w \<Rightarrow> goerr option \<times> 'w"

record 'w EmailConfig =
  Host :: string
  Port :: int
  Username :: string
  Password :: string
  From :: string
  FromName :: string
  SendMailFunc :: "'w send_mail option"

definition NewEmailSender :: "'w send_mail \<Rightarrow> 'w EmailConfig \<Rightarrow> 'w EmailConfig" where
  "NewEmailSender smtp_SendMail cfg =
     (if SendMailFunc cfg = None then cfg\<lparr>SendMailFunc := Some smtp_SendMail\<rparr> else cfg)"

definition email_Channel :: "'w EmailConfig \<Rightarrow> Channel" where
  "email_Channel s = ChannelEmail"

definition sanitizeCRLF :: "string \<Rightarrow> string" where
  "sanitizeCRLF val = filter (\<lambda>c. c \<noteq> CHR 13 \<and> c \<noteq> CHR 10) val"

text \<open>What one run of the builder takes from its surroundings: the results of the two reads of the random
  source, the texts of fresh UUIDs, the host name, the clock and the date format.\<close>

record mime_env =
  rand_mixed :: "string option"
  rand_alt :: "string option"
  uuid_mixed :: string
  uuid_alt :: string
  uuid_message :: string
  os_Hostname :: "string option"
  time_now :: gotime
  RFC1123Z :: "gotime \<Rightarrow> string"

definition randomBoundary :: "string option \<Rightarrow> string \<Rightarrow> string \<Rightarrow> string" where
  "randomBoundary rand_Read uuid_text pre =
     (case rand_Read of None \<Rightarrow> pre @ ''_'' @ uuid_text
      | Some b \<Rightarrow> pre @ ''_'' @ hex_EncodeToString b)"

definition CRLF :: string where
  "CRLF = [CHR 13, CHR 10]"

text \<open>\<open>writeBase64\<close>: the encoded data in lines of at most 76 characters, the last one possibly empty.\<close>

function base64_lines :: "string \<Rightarrow> string" where
  "base64_lines encoded =
     (if length encoded > 76 then take 76 encoded @ CRLF @ base64_lines (drop 76 encoded)
      else encoded @ CRLF)"
  by pat_completeness auto

termination
  by (relation "measure length") auto

declare base64_lines.simps [simp del]

definition writeBase64 :: "string \<Rightarrow> string \<Rightarrow> string" where
  "writeBase64 buf data = buf @ base64_lines (base64_Encode data)"

definition formatAttachmentFilename :: "string \<Rightarrow> string" where
  "formatAttachmentFilename filename =
     (if \<exists>c\<in>set filename. byte c \<ge> 0x80 then BEncoding_Encode filename else quote_ascii filename)"

fun join_with :: "string \<Rightarrow> string list \<Rightarrow> string" where
  "join_with sep [] = []"
| "join_with sep [p] = p"
| "join_with sep (p # ps) = p @ sep @ join_with sep ps"

definition clean_recipients :: "string list \<Rightarrow> string list" where
  "clean_recipients rs = filter (\<lambda>c. c \<noteq> []) (map (\<lambda>r. TrimSpace (sanitizeCRLF r)) rs)"

definition from_header :: "'w EmailConfig \<Rightarrow> string" where
  "from_header s =
     (if FromName s \<noteq> []
      then QEncoding_Encode (sanitizeCRLF (FromName s)) @ '' <'' @ sanitizeCRLF (From s) @ ''>''
      else From s)"

definition message_host :: "mime_env \<Rightarrow> 'w EmailConfig \<Rightarrow> string" where
  "message_host env s = sanitizeCRLF
     (if Host s = [] then (case os_Hostname env of Some h \<Rightarrow> if h \<noteq> [] then h else ''localhost''
                           | None \<Rightarrow> ''localhost'')
      else Host s)"

text \<open>The mandatory headers, the text parts, and the attachments, each written behind the buffer.\<close>

definition mime_headers :: "mime_env \<Rightarrow> 'w EmailConfig \<Rightarrow> Message \<Rightarrow> string" where
  "mime_headers env s msg =
     (let msgDate = (if IsZero (CreatedAt msg) then time_now env else CreatedAt msg)
      in ''From: '' @ from_header s @ CRLF
         @ ''To: '' @ join_with '', '' (clean_recipients (Recipients msg)) @ CRLF
         @ ''Subject: '' @ QEncoding_Encode (sanitizeCRLF (Title msg)) @ CRLF
         @ ''Date: '' @ RFC1123Z env msgDate @ CRLF
         @ ''Message-ID: <'' @ uuid_message env @ ''@'' @ message_host env s @ ''>'' @ CRLF
         @ ''MIME-Version: 1.0'' @ CRLF)"

definition text_part :: "string \<Rightarrow> string \<Rightarrow> string \<Rightarrow> string" where
  "text_part buf mimetype body =
     writeBase64 (buf @ ''Content-Type: '' @ mimetype @ ''; charset=UTF-8'' @ CRLF
                  @ ''Content-Transfer-Encoding: base64'' @ CRLF @ CRLF) body @ CRLF"

definition mime_body :: "string \<Rightarrow> Message \<Rightarrow> string \<Rightarrow> string" where
  "mime_body altBoundary msg buf =
     (if HTMLBody msg \<noteq> []
      then (let buf = buf @ ''Content-Type: multipart/alternative; boundary='' @ altBoundary @ CRLF @ CRLF
                      @ ''--'' @ altBoundary @ CRLF;
                buf = text_part buf ''text/plain'' (Body msg);
                buf = buf @ ''--'' @ altBoundary @ CRLF;
                buf = text_part buf ''text/html'' (HTMLBody msg)
            in buf @ ''--'' @ altBoundary @ ''--'' @ CRLF)
      else text_part buf ''text/plain'' (Body msg))"

definition mime_attachment :: "string \<Rightarrow> string \<Rightarrow> Attachment \<Rightarrow> string" where
  "mime_attachment mixedBoundary buf att =
     (let contentType = sanitizeCRLF (ContentType att);
          contentType = (if contentType = [] then ''application/octet-stream'' else contentType);
          formattedFilename = formatAttachmentFilename (sanitizeCRLF (Filename att))
      in writeBase64
           (buf @ CRLF @ ''--'' @ mixedBoundary @ CRLF
            @ ''Content-Type: '' @ contentType @ ''; name='' @ formattedFilename @ CRLF
            @ ''Content-Transfer-Encoding: base64'' @ CRLF
            @ ''Content-Disposition: attachment; filename='' @ formattedFilename @ CRLF @ CRLF) (Data att))"

definition buildMIMEMessage :: "mime_env \<Rightarrow> 'w EmailConfig \<Rightarrow> Message \<Rightarrow> string" where
  "buildMIMEMessage env s msg =
     (let buf = mime_headers env s msg;
          mixedBoundary = randomBoundary (rand_mixed env) (uuid_mixed env) ''boundary_mixed'';
          altBoundary = randomBoundary (rand_alt env) (uuid_alt env) ''boundary_alt'';
          hasAttachments = (length (Attachments msg) > 0);
          buf = (if hasAttachments
                 then buf @ ''Content-Type: multipart/mixed; boundary='' @ mixedBoundary @ CRLF @ CRLF
                      @ ''--'' @ mixedBoundary @ CRLF
                 else buf);
          buf = mime_body altBoundary msg buf;
          buf = foldl (mime_attachment mixedBoundary) buf (Attachments msg)
      in if hasAttachments then buf @ CRLF @ ''--'' @ mixedBoundary @ ''--'' @ CRLF else buf)"

text \<open>\<open>Send\<close>: a context that is done stops it before anything is built; the authentication is that of
  \<open>smtp.PlainAuth\<close>, given by user name, password and host.\<close>

definition email_Send ::
  "mime_env \<Rightarrow> 'w EmailConfig \<Rightarrow> context_state \<Rightarrow> Message \<Rightarrow> 'w \<Rightarrow> goerr option \<times> 'w" where
  "email_Send env s ctx msg w =
     (case ctx_err ctx of
        Some err \<Rightarrow> (Some err, w)
      | None \<Rightarrow>
          (let cleanRecipients = clean_recipients (Recipients msg);
               msg = msg\<lparr>Recipients := cleanRecipients\<rparr>;
               body = buildMIMEMessage env s msg;
               auth = (if Username s \<noteq> [] \<and> Password s \<noteq> [] then Some (Username s, Password s, Host s) else None);
               addr = Host s @ '':'' @ FormatInt (Port s)
           in the (SendMailFunc s) addr auth (From s) cleanRecipients body w))"

end
