(* ===== verification/Email_Theorems.thy ===== *)
theory Email_Theorems
  imports Notif_Email
begin

text \<open>
  Properties of the email sender: the message is a list of lines whose headers do not depend on what a
  notification says, base64 bodies lose nothing, and what the SMTP envelope holds.
\<close>

section \<open>Messages as lines\<close>

definition lines_text :: "string list \<Rightarrow> string" where
  "lines_text ls = concat (map (\<lambda>l. l @ CRLF) ls)"

lemma lines_text_simps [simp]:
  "lines_text [] = []" "lines_text (l # ls) = l @ CRLF @ lines_text ls"
  "lines_text (ls @ ls') = lines_text ls @ lines_text ls'"
  by (simp_all add: lines_text_def)

function chunks76 :: "string \<Rightarrow> string list" where
  "chunks76 s = (if length s > 76 then take 76 s # chunks76 (drop 76 s) else [s])"
  by pat_completeness auto

termination
  by (relation "measure length") auto

declare chunks76.simps [simp del]

lemma chunks76_spec:
  "base64_lines s = lines_text (chunks76 s) \<and> concat (chunks76 s) = s
    \<and> list_all (\<lambda>l. length l \<le> 76) (chunks76 s) \<and> (no_break s \<longrightarrow> list_all no_break (chunks76 s))"
proof (induction s rule: chunks76.induct)
  case (1 s)
  show ?case
  proof (cases "length s > 76")
    case True
    with 1 show ?thesis
      by (simp add: base64_lines.simps [of s] chunks76.simps [of s] no_break_take_drop)
  next
    case False
    then show ?thesis by (simp add: base64_lines.simps [of s] chunks76.simps [of s])
  qed
qed

definition data_lines :: "string \<Rightarrow> string list" where
  "data_lines d = chunks76 (base64_Encode d)"

lemma writeBase64_lines: "writeBase64 buf d = buf @ lines_text (data_lines d)"
  by (simp add: writeBase64_def data_lines_def chunks76_spec)

lemma no_break_data_lines [simp]: "list_all no_break (data_lines d)"
  by (simp add: data_lines_def chunks76_spec no_break_base64)

text \<open>\<open>writeBase64\<close> puts lines of at most 76 characters behind the buffer, none with a line break of
  its own, and the lines put together decode to the data.\<close>

theorem writeBase64_roundtrip:
  "\<exists>ls. writeBase64 buf d = buf @ lines_text ls \<and> list_all (\<lambda>l. length l \<le> 76 \<and> no_break l) ls
    \<and> base64_Decode (concat ls) = Some d"
proof (intro exI conjI)
  show "writeBase64 buf d = buf @ lines_text (data_lines d)" by (rule writeBase64_lines)
  show "list_all (\<lambda>l. length l \<le> 76 \<and> no_break l) (data_lines d)"
    using chunks76_spec [of "base64_Encode d"] no_break_data_lines [of d]
    by (simp add: data_lines_def list_all_iff)
  show "base64_Decode (concat (data_lines d)) = Some d"
    by (simp add: data_lines_def chunks76_spec base64_roundtrip)
qed

definition header_lines :: "mime_env \<Rightarrow> 'w EmailConfig \<Rightarrow> Message \<Rightarrow> string list" where
  "header_lines env s msg =
     [''From: '' @ from_header s,
      ''To: '' @ join_with '', '' (clean_recipients (Recipients msg)),
      ''Subject: '' @ QEncoding_Encode (sanitizeCRLF (Title msg)),
      ''Date: '' @ RFC1123Z env (if IsZero (CreatedAt msg) then time_now env else CreatedAt msg),
      ''Message-ID: <'' @ uuid_message env @ ''@'' @ message_host env s @ ''>'',
      ''MIME-Version: 1.0'']"

lemma mime_headers_lines: "mime_headers env s msg = lines_text (header_lines env s msg)"
  by (simp add: mime_headers_def header_lines_def Let_def)

definition text_lines :: "string \<Rightarrow> string \<Rightarrow> string list" where
  "text_lines mimetype body =
     [''Content-Type: '' @ mimetype @ ''; charset=UTF-8'', ''Content-Transfer-Encoding: base64'', []]
     @ data_lines body @ [[]]"

lemma text_part_lines: "text_part buf m body = buf @ lines_text (text_lines m body)"
  by (simp add: text_part_def text_lines_def writeBase64_lines)

definition body_lines :: "string \<Rightarrow> Message \<Rightarrow> string list" where
  "body_lines alt msg =
     (if HTMLBody msg \<noteq> []
      then [''Content-Type: multipart/alternative; boundary='' @ alt, [], ''--'' @ alt]
           @ text_lines ''text/plain'' (Body msg) @ [''--'' @ alt]
           @ text_lines ''text/html'' (HTMLBody msg) @ [''--'' @ alt @ ''--'']
      else text_lines ''text/plain'' (Body msg))"

lemma mime_body_lines: "mime_body alt msg buf = buf @ lines_text (body_lines alt msg)"
  by (simp add: mime_body_def body_lines_def text_part_lines Let_def)

definition attachment_lines :: "string \<Rightarrow> Attachment \<Rightarrow> string list" where
  "attachment_lines mixed att =
     (let ct = sanitizeCRLF (ContentType att); fn = formatAttachmentFilename (sanitizeCRLF (Filename att))
      in [[], ''--'' @ mixed,
          ''Content-Type: '' @ (if ct = [] then ''application/octet-stream'' else ct) @ ''; name='' @ fn,
          ''Content-Transfer-Encoding: base64'', ''Content-Disposition: attachment; filename='' @ fn, []]
         @ data_lines (Data att))"

lemma mime_attachment_lines: "mime_attachment mixed buf att = buf @ lines_text (attachment_lines mixed att)"
  by (simp add: mime_attachment_def attachment_lines_def writeBase64_lines Let_def)

lemma attachments_lines:
  "foldl (mime_attachment mixed) buf atts = buf @ lines_text (concat (map (attachment_lines mixed) atts))"
  by (induction atts arbitrary: buf) (simp_all add: mime_attachment_lines)

definition message_lines :: "mime_env \<Rightarrow> 'w EmailConfig \<Rightarrow> Message \<Rightarrow> string list" where
  "message_lines env s msg =
     (let mixed = randomBoundary (rand_mixed env) (uuid_mixed env) ''boundary_mixed'';
          alt = randomBoundary (rand_alt env) (uuid_alt env) ''boundary_alt''
      in header_lines env s msg
         @ (if Attachments msg \<noteq> []
            then [''Content-Type: multipart/mixed; boundary='' @ mixed, [], ''--'' @ mixed] else [])
         @ body_lines alt msg
         @ concat (map (attachment_lines mixed) (Attachments msg))
         @ (if Attachments msg \<noteq> [] then [[], ''--'' @ mixed @ ''--''] else []))"

lemma buildMIMEMessage_lines: "buildMIMEMessage env s msg = lines_text (message_lines env s msg)"
  by (simp add: buildMIMEMessage_def message_lines_def mime_headers_lines mime_body_lines
      attachments_lines Let_def)

section \<open>No line breaks of its own\<close>

text \<open>Documented behaviour of the surroundings: UUID texts and formatted dates are single lines.\<close>

definition single_line_env :: "mime_env \<Rightarrow> bool" where
  "single_line_env env \<longleftrightarrow> no_break (uuid_mixed env) \<and> no_break (uuid_alt env) \<and> no_break (uuid_message env)
     \<and> (\<forall>t. no_break (RFC1123Z env t))"

lemma no_break_sanitize [simp]: "no_break (sanitizeCRLF v)"
  by (simp add: no_break_def sanitizeCRLF_def)

lemma no_break_trim: "no_break s \<Longrightarrow> no_break (TrimSpace s)"
  by (rule no_break_subset [OF set_TrimSpace])

lemma no_break_join: "no_break sep \<Longrightarrow> list_all no_break ps \<Longrightarrow> no_break (join_with sep ps)"
  by (induction sep ps rule: join_with.induct) simp_all

lemma no_break_clean: "list_all no_break (clean_recipients rs)"
  by (auto simp: clean_recipients_def list_all_iff no_break_trim)

lemma no_break_boundary:
  "no_break u \<Longrightarrow> no_break p \<Longrightarrow> no_break (randomBoundary r u p)"
  by (auto simp: randomBoundary_def no_break_hex split: option.split)

lemma no_break_filename: "no_break (formatAttachmentFilename f)"
  by (simp add: formatAttachmentFilename_def no_break_BEncoding no_break_quote)

lemma no_break_text_lines: "no_break m \<Longrightarrow> list_all no_break (text_lines m d)"
  by (simp add: text_lines_def)

lemma no_break_body_lines: "no_break alt \<Longrightarrow> list_all no_break (body_lines alt msg)"
  by (simp add: body_lines_def no_break_text_lines)

lemma no_break_attachment_lines: "no_break mixed \<Longrightarrow> list_all no_break (attachment_lines mixed att)"
  by (simp add: attachment_lines_def Let_def no_break_filename)

lemma list_all_concat_map: "(\<And>x. list_all P (f x)) \<Longrightarrow> list_all P (concat (map f xs))"
  by (auto simp: list_all_iff)

lemma no_break_message:
  assumes env: "single_line_env env" and frm: "FromName s \<noteq> [] \<or> no_break (From s)"
  shows "list_all no_break (message_lines env s msg)"
proof -
  have f: "no_break (from_header s)" using frm by (simp add: from_header_def no_break_QEncoding)
  have t: "no_break (join_with '', '' (clean_recipients (Recipients msg)))"
    by (rule no_break_join [OF _ no_break_clean]) simp
  have "list_all no_break (header_lines env s msg)"
    using env f t by (simp add: header_lines_def single_line_env_def no_break_QEncoding message_host_def)
  moreover have b: "no_break (randomBoundary (rand_mixed env) (uuid_mixed env) ''boundary_mixed'')"
    "no_break (randomBoundary (rand_alt env) (uuid_alt env) ''boundary_alt'')"
    using env by (simp_all add: single_line_env_def no_break_boundary)
  ultimately show ?thesis
    by (simp add: message_lines_def Let_def no_break_body_lines list_all_concat_map no_break_attachment_lines)
qed

section \<open>Headers and envelope\<close>

definition header_names :: "string list \<Rightarrow> string list" where
  "header_names ls = map (takeWhile (\<lambda>c. c \<noteq> CHR '':'')) (takeWhile (\<lambda>l. l \<noteq> []) ls)"

text \<open>C8. Nothing in a notification can add a header: the message is a list of lines without line breaks
  of their own, and the names of the header block are fixed, whatever the title, the bodies, the
  recipients, the attachments and the host name hold; a configured sender name (or a \<open>From\<close> address on
  one line) is all it takes.\<close>

theorem email_no_header_injection:
  assumes "single_line_env env" and "FromName s \<noteq> [] \<or> no_break (From s)"
  shows "\<exists>ls. buildMIMEMessage env s msg = lines_text ls \<and> list_all no_break ls
    \<and> header_names ls = [''From'', ''To'', ''Subject'', ''Date'', ''Message-ID'', ''MIME-Version'', ''Content-Type'']
        @ (if Attachments msg = [] \<and> HTMLBody msg = [] then [''Content-Transfer-Encoding''] else [])"
proof (intro exI conjI)
  show "buildMIMEMessage env s msg = lines_text (message_lines env s msg)" by (rule buildMIMEMessage_lines)
  show "list_all no_break (message_lines env s msg)" by (rule no_break_message [OF assms])
  show "header_names (message_lines env s msg) = [''From'', ''To'', ''Subject'', ''Date'', ''Message-ID'', ''MIME-Version'', ''Content-Type'']
        @ (if Attachments msg = [] \<and> HTMLBody msg = [] then [''Content-Transfer-Encoding''] else [])"
    by (simp add: header_names_def message_lines_def header_lines_def body_lines_def text_lines_def Let_def)
qed

definition demo_mime_env :: mime_env where
  "demo_mime_env = \<lparr>rand_mixed = None, rand_alt = Some ''0123456789abcdef'', uuid_mixed = ''u1'', uuid_alt = ''u2'',
     uuid_message = ''u3'', os_Hostname = None, time_now = 0, RFC1123Z = (\<lambda>_. ''Mon, 01 Jan 0001 00:00:00 +0000'')\<rparr>"

definition demo_email :: "unit EmailConfig" where
  "demo_email = \<lparr>Host = [], Port = 25, Username = [], Password = [], From = ''a@b'', FromName = [],
     SendMailFunc = None\<rparr>"

definition demo_message :: Message where
  "demo_message = \<lparr>ID = [], Title = ''Hi'' @ CRLF @ ''Bcc: x@y'', Body = ''hello'', HTMLBody = [],
     msg_Priority = PriorityLow, Channels = [], Recipients = [''c@d'' @ CRLF], Metadata = [],
     Attachments = [], CreatedAt = 0\<rparr>"

theorem email_no_header_injection_witness:
  "\<exists>ls. buildMIMEMessage demo_mime_env demo_email demo_message = lines_text ls \<and> list_all no_break ls
    \<and> header_names ls = [''From'', ''To'', ''Subject'', ''Date'', ''Message-ID'', ''MIME-Version'', ''Content-Type'',
        ''Content-Transfer-Encoding'']"
proof -
  have "single_line_env demo_mime_env" "no_break (From demo_email)"
    by (simp_all add: single_line_env_def demo_mime_env_def demo_email_def)
  with email_no_header_injection [of demo_mime_env demo_email demo_message] show ?thesis
    by (simp add: demo_message_def)
qed

end
