(* ===== verification/Notif_Http.thy ===== *)
theory Notif_Http
  imports Notif_Types Go_Mime
begin

text \<open>
  The senders that speak HTTP: \<^verbatim>\<open>notifications/slack.go\<close>, \<^verbatim>\<open>whatsapp.go\<close>, \<^verbatim>\<open>sms.go\<close> and \<^verbatim>\<open>brevo.go\<close>.
  Each has its configuration, its constructor (the environment variables are a function \<open>getenv\<close>) and
  its \<open>Send\<close> over a client, a URL check and an encoder that are parameters.  A nil client is \<^const>\<open>None\<close>;
  the constructor puts the standard client in its place.
\<close>

section \<open>Slack\<close>

record 'w SlackConfig =
  WebhookURL :: string
  slack_Username :: string
  IconEmoji :: string
  slack_HTTPClient :: "'w http_do option"

definition NewSlackSender :: "'w http_do \<Rightarrow> 'w SlackConfig \<Rightarrow> 'w SlackConfig" where
  "NewSlackSender default_client cfg =
     (if slack_HTTPClient cfg = None then cfg\<lparr>slack_HTTPClient := Some default_client\<rparr> else cfg)"

definition slack_Channel :: "'w SlackConfig \<Rightarrow> Channel" where
  "slack_Channel s = ChannelSlack"

definition slack_color :: "Priority \<Rightarrow> string" where
  "slack_color p =
     (if p = PriorityCritical then ''#ef4444'' else if p = PriorityHigh then ''#f97316''
      else if p = PriorityLow then ''#10b981'' else ''#3b82f6'')"

definition slack_field :: "string \<Rightarrow> string \<Rightarrow> json" where
  "slack_field t v = JObj [(''title'', JStr t), (''value'', JStr v), (''short'', JBool True)]"

definition slack_payload :: "'w SlackConfig \<Rightarrow> Message \<Rightarrow> json" where
  "slack_payload s msg =
     (let fields = slack_field ''Priority'' (msg_Priority msg)
                   # map (\<lambda>(k, v). slack_field k v) (Metadata msg)
      in JObj (omitempty (slack_Username s = []) (''username'', JStr (slack_Username s))
               @ omitempty (IconEmoji s = []) (''icon_emoji'', JStr (IconEmoji s))
               @ [(''text'', JStr (''*'' @ Title msg @ ''*'' @ CHR 10 # Body msg)),
                  (''attachments'', JArr [JObj
                     [(''color'', JStr (slack_color (msg_Priority msg))), (''title'', JStr (Title msg)),
                      (''text'', JStr (Body msg)), (''fields'', JArr fields),
                      (''footer'', JStr ''go-app-kit Notification Engine''),
                      (''ts'', JInt (Unix (CreatedAt msg)))]])]))"

definition slack_Send :: "http_env \<Rightarrow> 'w SlackConfig \<Rightarrow> Message \<Rightarrow> 'w \<Rightarrow> goerr option \<times> 'w" where
  "slack_Send env s msg w =
     (if WebhookURL s = [] then (Some (Errorf ''slack webhook URL cannot be empty''), w)
      else case json_Marshal env (slack_payload s msg) of
        Inl err \<Rightarrow> (Some (Wrapf ''failed to encode slack payload: '' err []), w)
      | Inr data \<Rightarrow>
          (case new_request_err env (WebhookURL s) of
             Some err \<Rightarrow> (Some (Wrapf ''failed to create http request: '' err []), w)
           | None \<Rightarrow>
               (let req = \<lparr>rq_method = ''POST'', rq_url = WebhookURL s,
                           rq_header = Header_Set ''Content-Type'' ''application/json'' (\<lambda>_. None), rq_body = data\<rparr>
                in case the (slack_HTTPClient s) req w of
                     (Inl err, w) \<Rightarrow> (Some (Wrapf ''slack webhook post failed: '' err []), w)
                   | (Inr resp, w) \<Rightarrow>
                       if StatusCode resp \<ge> 400
                       then (Some (Errorf (''slack webhook returned status '' @ FormatInt (StatusCode resp)
                                           @ '': '' @ rs_body resp)), w)
                       else (None, w))))"

section \<open>Phone numbers\<close>

text \<open>The recipients loop of the two phone senders: clean the number, skip it if nothing is left, and stop
  at the first delivery that fails.\<close>

definition cleanPhone :: "string \<Rightarrow> string" where
  "cleanPhone recipient = TrimSpace (TrimPrefix recipient ''+'')"

fun each_phone :: "(string \<Rightarrow> 'w \<Rightarrow> goerr option \<times> 'w) \<Rightarrow> string list \<Rightarrow> 'w \<Rightarrow> goerr option \<times> 'w" where
  "each_phone deliver [] w = (None, w)"
| "each_phone deliver (r # rs) w =
     (if cleanPhone r = [] then each_phone deliver rs w
      else case deliver (cleanPhone r) w of
             (Some err, w) \<Rightarrow> (Some err, w)
           | (None, w) \<Rightarrow> each_phone deliver rs w)"

section \<open>WhatsApp\<close>

record 'w WhatsAppConfig =
  AccessToken :: string
  PhoneNumberID :: string
  wa_BaseURL :: string
  wa_HTTPClient :: "'w http_do option"
  wa_IsSimulated :: bool

definition or_else :: "string \<Rightarrow> string \<Rightarrow> string" where
  "or_else v d = (if v = [] then d else v)"

definition NewWhatsAppSender ::
  "(string \<Rightarrow> string) \<Rightarrow> 'w http_do \<Rightarrow> 'w WhatsAppConfig \<Rightarrow> goerr + 'w WhatsAppConfig" where
  "NewWhatsAppSender getenv default_client cfg =
     (let cfg = cfg\<lparr>AccessToken := or_else (AccessToken cfg) (getenv ''WHATSAPP_ACCESS_TOKEN''),
                    PhoneNumberID := or_else (PhoneNumberID cfg) (getenv ''WHATSAPP_PHONE_NUMBER_ID'')\<rparr>
      in if \<not> wa_IsSimulated cfg \<and> AccessToken cfg = [] then Inl (Sentinel ErrWhatsAppTokenMissing)
         else if \<not> wa_IsSimulated cfg \<and> PhoneNumberID cfg = [] then Inl (Sentinel ErrWhatsAppPhoneIDMissing)
         else Inr (cfg\<lparr>wa_BaseURL := or_else (wa_BaseURL cfg) ''https://graph.facebook.com/v20.0'',
                       wa_HTTPClient := (case wa_HTTPClient cfg of None \<Rightarrow> Some default_client | Some c \<Rightarrow> Some c)\<rparr>))"

definition whatsapp_Channel :: "'w WhatsAppConfig \<Rightarrow> Channel" where
  "whatsapp_Channel s = ChannelWhatsApp"

text \<open>The encoder writes the keys of a map in sorted order.\<close>

definition whatsapp_payload :: "string \<Rightarrow> string \<Rightarrow> json" where
  "whatsapp_payload phone body = JObj
     [(''messaging_product'', JStr ''whatsapp''), (''recipient_type'', JStr ''individual''),
      (''text'', JObj [(''body'', JStr body)]), (''to'', JStr phone), (''type'', JStr ''text'')]"

definition whatsapp_url :: "'w WhatsAppConfig \<Rightarrow> string" where
  "whatsapp_url s = TrimSuffix (wa_BaseURL s) ''/'' @ ''/'' @ PhoneNumberID s @ ''/messages''"

definition whatsapp_request :: "'w WhatsAppConfig \<Rightarrow> string \<Rightarrow> http_request" where
  "whatsapp_request s body =
     \<lparr>rq_method = ''POST'', rq_url = whatsapp_url s,
      rq_header = Header_Set ''Content-Type'' ''application/json''
                    (Header_Set ''Authorization'' (''Bearer '' @ AccessToken s) (\<lambda>_. None)),
      rq_body = body\<rparr>"

definition whatsapp_deliver ::
  "http_env \<Rightarrow> 'w WhatsAppConfig \<Rightarrow> Message \<Rightarrow> string \<Rightarrow> 'w \<Rightarrow> goerr option \<times> 'w" where
  "whatsapp_deliver env s msg phone w =
     (case json_Marshal env (whatsapp_payload phone (Body msg)) of
        Inl err \<Rightarrow> (Some (Wrapf ''failed to marshal whatsapp payload: '' err []), w)
      | Inr body \<Rightarrow>
          (case new_request_err env (whatsapp_url s) of
             Some err \<Rightarrow> (Some (Wrapf ''failed to construct whatsapp request: '' err []), w)
           | None \<Rightarrow>
               (case the (wa_HTTPClient s) (whatsapp_request s body) w of
                  (Inl err, w) \<Rightarrow> (Some (Wrapf ''whatsapp dispatch request failed: '' err []), w)
                | (Inr resp, w) \<Rightarrow>
                    if StatusCode resp < 200 \<or> StatusCode resp \<ge> 300
                    then (Some (Errorf (''whatsapp API returned status '' @ FormatInt (StatusCode resp)
                                        @ '': '' @ rs_body resp)), w)
                    else (None, w))))"

definition whatsapp_Send :: "http_env \<Rightarrow> 'w WhatsAppConfig \<Rightarrow> Message \<Rightarrow> 'w \<Rightarrow> goerr option \<times> 'w" where
  "whatsapp_Send env s msg w =
     (if wa_IsSimulated s then (None, w) else each_phone (whatsapp_deliver env s msg) (Recipients msg) w)"

section \<open>SMS\<close>

record 'w SMSConfig =
  EntityID :: string
  SenderID :: string
  sms_APIKey :: string
  Endpoint :: string
  sms_HTTPClient :: "'w http_do option"
  sms_IsSimulated :: bool

definition NewSMSSender ::
  "(string \<Rightarrow> string) \<Rightarrow> 'w http_do \<Rightarrow> 'w SMSConfig \<Rightarrow> goerr + 'w SMSConfig" where
  "NewSMSSender getenv default_client cfg =
     (let cfg = cfg\<lparr>sms_APIKey := or_else (sms_APIKey cfg) (getenv ''SMS_API_KEY''),
                    Endpoint := or_else (Endpoint cfg) (getenv ''SMS_GATEWAY_URL'')\<rparr>
      in if \<not> sms_IsSimulated cfg \<and> (sms_APIKey cfg = [] \<or> Endpoint cfg = []) then Inl (Sentinel ErrSMSConfigMissing)
         else Inr (cfg\<lparr>sms_HTTPClient := (case sms_HTTPClient cfg of None \<Rightarrow> Some default_client | Some c \<Rightarrow> Some c)\<rparr>))"

definition sms_Channel :: "'w SMSConfig \<Rightarrow> Channel" where
  "sms_Channel s = ChannelSMS"

text \<open>\<open>url.QueryEscape\<close> and \<open>url.Values.Encode\<close> of single values, whose keys are given in sorted order.\<close>

definition query_char :: "char \<Rightarrow> string" where
  "query_char c =
     (if is_digit c \<or> is_upper c \<or> is_lower c \<or> c \<in> set ''-_.~'' then [c]
      else if c = CHR 32 then ''+''
      else [CHR ''%'', upper_hex (byte c div 16), upper_hex (byte c mod 16)])"

definition QueryEscape :: "string \<Rightarrow> string" where
  "QueryEscape s = concat (map query_char s)"

fun values_Encode :: "(string \<times> string) list \<Rightarrow> string" where
  "values_Encode [] = []"
| "values_Encode [(k, v)] = QueryEscape k @ ''='' @ QueryEscape v"
| "values_Encode ((k, v) # kvs) = QueryEscape k @ ''='' @ QueryEscape v @ ''&'' @ values_Encode kvs"

definition sms_request :: "'w SMSConfig \<Rightarrow> Message \<Rightarrow> string \<Rightarrow> http_request" where
  "sms_request s msg phone =
     (let params = [(''apikey'', sms_APIKey s), (''message'', Body msg), (''numbers'', phone)]
                   @ (if EntityID s \<noteq> [] then [(''pe_id'', EntityID s)] else [])
                   @ [(''sender'', SenderID s)]
      in \<lparr>rq_method = ''POST'', rq_url = Endpoint s,
          rq_header = Header_Set ''Content-Type'' ''application/x-www-form-urlencoded'' (\<lambda>_. None),
          rq_body = values_Encode params\<rparr>)"

definition sms_deliver ::
  "http_env \<Rightarrow> 'w SMSConfig \<Rightarrow> Message \<Rightarrow> string \<Rightarrow> 'w \<Rightarrow> goerr option \<times> 'w" where
  "sms_deliver env s msg phone w =
     (case new_request_err env (Endpoint s) of
        Some err \<Rightarrow> (Some (Wrapf ''failed to construct SMS request: '' err []), w)
      | None \<Rightarrow>
          (case the (sms_HTTPClient s) (sms_request s msg phone) w of
             (Inl err, w) \<Rightarrow> (Some (Wrapf ''sms gateway request failed: '' err []), w)
           | (Inr resp, w) \<Rightarrow>
               if StatusCode resp < 200 \<or> StatusCode resp \<ge> 300
               then (Some (Errorf (''sms gateway returned HTTP '' @ FormatInt (StatusCode resp))), w)
               else (None, w)))"

definition sms_Send :: "http_env \<Rightarrow> 'w SMSConfig \<Rightarrow> Message \<Rightarrow> 'w \<Rightarrow> goerr option \<times> 'w" where
  "sms_Send env s msg w =
     (if sms_IsSimulated s then (None, w) else each_phone (sms_deliver env s msg) (Recipients msg) w)"

section \<open>Brevo\<close>

record 'w BrevoConfig =
  brevo_APIKey :: string
  SenderName :: string
  SenderEmail :: string
  brevo_BaseURL :: string
  brevo_HTTPClient :: "'w http_do option"

definition TrimRight_slash :: "string \<Rightarrow> string" where
  "TrimRight_slash s = rev (dropWhile (\<lambda>c. c = CHR ''/'') (rev s))"

definition NewBrevoSender ::
  "(string \<Rightarrow> string) \<Rightarrow> 'w http_do \<Rightarrow> 'w BrevoConfig \<Rightarrow> goerr + 'w BrevoConfig" where
  "NewBrevoSender getenv default_client cfg =
     (let cfg = cfg\<lparr>brevo_APIKey := or_else (brevo_APIKey cfg) (getenv ''BREVO_API_KEY'')\<rparr>
      in if brevo_APIKey cfg = [] then Inl (Sentinel ErrBrevoAPIKeyMissing)
         else let cfg = cfg\<lparr>SenderEmail := or_else (SenderEmail cfg) (getenv ''BREVO_SENDER_EMAIL'')\<rparr>
         in if SenderEmail cfg = [] then Inl (Sentinel ErrBrevoSenderMissing)
            else Inr (cfg\<lparr>SenderName := or_else (or_else (SenderName cfg) (getenv ''BREVO_SENDER_NAME'')) ''Notifications'',
                          brevo_BaseURL := TrimRight_slash (or_else (brevo_BaseURL cfg) ''https://api.brevo.com/v3''),
                          brevo_HTTPClient :=
                            (case brevo_HTTPClient cfg of None \<Rightarrow> Some default_client | Some c \<Rightarrow> Some c)\<rparr>))"

definition brevo_Channel :: "'w BrevoConfig \<Rightarrow> Channel" where
  "brevo_Channel s = ChannelEmail"

record brevoAttachment =
  ba_Name :: string
  ba_Content :: string

record brevoSendEmailRequest =
  br_SenderName :: string
  br_SenderEmail :: string
  br_To :: "string list"
  br_Subject :: string
  HTMLContent :: string
  TextContent :: string
  br_Attachment :: "brevoAttachment list"

definition buildBrevoPayload :: "Message \<Rightarrow> string \<Rightarrow> string \<Rightarrow> goerr + brevoSendEmailRequest" where
  "buildBrevoPayload msg senderName senderEmail =
     (if Recipients msg = [] then Inl (Sentinel ErrEmptyRecipients)
      else let toRecipients = filter (\<lambda>c. c \<noteq> []) (map TrimSpace (Recipients msg))
      in if toRecipients = [] then Inl (Sentinel ErrEmptyRecipients)
         else let textContent = Body msg;
                  htmlContent = (if HTMLBody msg = [] \<and> textContent \<noteq> []
                                 then ''<div>'' @ replace_byte (CHR 10) ''<br/>'' textContent @ ''</div>''
                                 else HTMLBody msg);
                  textContent = (if textContent = [] \<and> htmlContent \<noteq> [] then htmlContent else textContent)
         in Inr \<lparr>br_SenderName = senderName, br_SenderEmail = senderEmail, br_To = toRecipients,
                 br_Subject = Title msg, HTMLContent = htmlContent, TextContent = textContent,
                 br_Attachment = map (\<lambda>att. \<lparr>ba_Name = Filename att, ba_Content = base64_Encode (Data att)\<rparr>)
                                   (Attachments msg)\<rparr>)"

definition brevo_json :: "brevoSendEmailRequest \<Rightarrow> json" where
  "brevo_json r = JObj (
     [(''sender'', JObj (omitempty (br_SenderName r = []) (''name'', JStr (br_SenderName r))
                         @ [(''email'', JStr (br_SenderEmail r))])),
      (''to'', JArr (map (\<lambda>e. JObj [(''email'', JStr e)]) (br_To r))),
      (''subject'', JStr (br_Subject r))]
     @ omitempty (HTMLContent r = []) (''htmlContent'', JStr (HTMLContent r))
     @ omitempty (TextContent r = []) (''textContent'', JStr (TextContent r))
     @ omitempty (br_Attachment r = []) (''attachment'',
         JArr (map (\<lambda>a. JObj [(''name'', JStr (ba_Name a)), (''content'', JStr (ba_Content a))]) (br_Attachment r))))"

definition brevo_request :: "'w BrevoConfig \<Rightarrow> string \<Rightarrow> http_request" where
  "brevo_request s data =
     \<lparr>rq_method = ''POST'', rq_url = brevo_BaseURL s @ ''/smtp/email'',
      rq_header = Header_Set ''api-key'' (brevo_APIKey s)
                    (Header_Set ''Accept'' ''application/json''
                      (Header_Set ''Content-Type'' ''application/json'' (\<lambda>_. None))),
      rq_body = data\<rparr>"

definition brevo_Send ::
  "http_env \<Rightarrow> 'w BrevoConfig \<Rightarrow> context_state \<Rightarrow> Message \<Rightarrow> 'w \<Rightarrow> goerr option \<times> 'w" where
  "brevo_Send env s ctx msg w =
     (case ctx_err ctx of
        Some err \<Rightarrow> (Some err, w)
      | None \<Rightarrow>
          (case buildBrevoPayload msg (SenderName s) (SenderEmail s) of
             Inl err \<Rightarrow> (Some err, w)
           | Inr reqPayload \<Rightarrow>
               (case json_Marshal env (brevo_json reqPayload) of
                  Inl err \<Rightarrow> (Some (Wrapf ''failed to marshal brevo request: '' err []), w)
                | Inr data \<Rightarrow>
                    (case new_request_err env (rq_url (brevo_request s data)) of
                       Some err \<Rightarrow> (Some (Wrapf ''failed to create http request: '' err []), w)
                     | None \<Rightarrow>
                         (case the (brevo_HTTPClient s) (brevo_request s data) w of
                            (Inl err, w) \<Rightarrow> (Some (Wrapf ''failed to send brevo email: '' err []), w)
                          | (Inr resp, w) \<Rightarrow>
                              if StatusCode resp < 200 \<or> StatusCode resp \<ge> 300
                              then (Some (Errorf (''brevo api error (status '' @ FormatInt (StatusCode resp)
                                                  @ ''): '' @ rs_body resp)), w)
                              else (None, w))))))"

end
