(* ===== verification/Sender_Contract.thy ===== *)
theory Sender_Contract
  imports Notif_Http Notif_Webhook Notif_Email
begin

text \<open>
  The \<open>Sender\<close> interface of \<^verbatim>\<open>notifications/types.go\<close> as a contract: what a sender hands to its
  transport is only ever added to, and goes to the destinations that belong to the sender.  The
  contract is proved for each of the five HTTP senders over any client that keeps a record of the
  requests given to it, and for the email sender over any mailer that does.
\<close>

section \<open>The contract\<close>

definition extends :: "('w \<Rightarrow> 'e list) \<Rightarrow> ('e \<Rightarrow> bool) \<Rightarrow> 'w \<Rightarrow> 'w \<Rightarrow> bool" where
  "extends got dest w w' \<longleftrightarrow> (\<exists>out. got w' = got w @ out \<and> list_all dest out)"

lemma extends_refl [simp]: "extends got dest w w"
  by (simp add: extends_def)

lemma extends_trans: "extends got dest w w' \<Longrightarrow> extends got dest w' w'' \<Longrightarrow> extends got dest w w''"
  by (fastforce simp: extends_def)

lemma extends_weaken: "extends got dest w w' \<Longrightarrow> (\<And>e. dest e \<Longrightarrow> dest' e) \<Longrightarrow> extends got dest' w w'"
  by (auto simp: extends_def list_all_iff)

locale sender =
  fixes send :: "Message \<Rightarrow> 'w \<Rightarrow> goerr option \<times> 'w"
    and got :: "'w \<Rightarrow> 'e list"
    and dest :: "'e \<Rightarrow> bool"
  assumes send_adds: "extends got dest w (snd (send msg w))"

locale http_client =
  fixes do :: "'w http_do" and got :: "'w \<Rightarrow> http_request list"
  assumes do_got: "got (snd (do req w)) = got w @ [req]"

locale mailer =
  fixes mail :: "'w send_mail" and sent :: "'w \<Rightarrow> (string \<times> string list \<times> string) list"
  assumes mail_sent: "sent (snd (mail addr auth frm to body w)) = sent w @ [(frm, to, body)]"

text \<open>A client and a mailer that answer from a script and keep what they were given.\<close>

record 'e net =
  net_log :: "'e list"
  net_script :: "(goerr + http_response) list"

definition net_do :: "http_request \<Rightarrow> http_request net \<Rightarrow> (goerr + http_response) \<times> http_request net" where
  "net_do req n =
     (case net_script n of
        [] \<Rightarrow> (Inl (Errorf ''connection refused''), n\<lparr>net_log := net_log n @ [req]\<rparr>)
      | r # rs \<Rightarrow> (r, n\<lparr>net_log := net_log n @ [req], net_script := rs\<rparr>))"

definition net_mail :: "(string \<times> string list \<times> string) net send_mail" where
  "net_mail addr auth frm to body n = (None, n\<lparr>net_log := net_log n @ [(frm, to, body)]\<rparr>)"

interpretation net: http_client net_do net_log
  by unfold_locales (auto simp: net_do_def split: list.split)

interpretation smtp: mailer net_mail net_log
  by unfold_locales (simp add: net_mail_def)

section \<open>The HTTP senders\<close>

context http_client
begin

lemma do_extends: "do req w = (r, w') \<Longrightarrow> dest req \<Longrightarrow> extends got dest w w'"
  using do_got [of req w] by (simp add: extends_def)

lemma webhook_sends:
  assumes "wh_HTTPClient cfg = Some do"
  shows "extends got (\<lambda>r. rq_url r = EndpointURL cfg) w (snd (webhook_Send env now cfg msg w))"
  using assms
  by (auto simp: webhook_Send_def webhook_request_def Let_def
      split: sum.split option.split prod.split intro: do_extends)

lemma slack_sends:
  assumes "slack_HTTPClient cfg = Some do"
  shows "extends got (\<lambda>r. rq_url r = WebhookURL cfg) w (snd (slack_Send env cfg msg w))"
  using assms
  by (auto simp: slack_Send_def Let_def split: sum.split option.split prod.split intro: do_extends)

lemma brevo_sends:
  assumes "brevo_HTTPClient cfg = Some do"
  shows "extends got (\<lambda>r. rq_url r = brevo_BaseURL cfg @ ''/smtp/email'') w (snd (brevo_Send env cfg ctx msg w))"
  using assms
  by (auto simp: brevo_Send_def brevo_request_def split: sum.split option.split prod.split intro: do_extends)

lemma each_phone_sends:
  assumes "\<And>p w. extends got dest w (snd (deliver p w))"
  shows "extends got dest w (snd (each_phone deliver rs w))"
proof (induction rs arbitrary: w)
  case (Cons r rs)
  show ?case
  proof (cases "deliver (cleanPhone r) w")
    case (Pair e w1)
    then have "extends got dest w w1" using assms [of w "cleanPhone r"] by simp
    with Pair Cons extends_trans [OF _ Cons.IH] show ?thesis by (auto split: option.split)
  qed
qed simp

lemma whatsapp_deliver_sends:
  assumes "wa_HTTPClient cfg = Some do"
  shows "extends got (\<lambda>r. rq_url r = whatsapp_url cfg) w (snd (whatsapp_deliver env cfg msg p w))"
  using assms
  by (auto simp: whatsapp_deliver_def whatsapp_request_def split: sum.split option.split prod.split intro: do_extends)

lemma sms_deliver_sends:
  assumes "sms_HTTPClient cfg = Some do"
  shows "extends got (\<lambda>r. rq_url r = Endpoint cfg) w (snd (sms_deliver env cfg msg p w))"
  using assms
  by (auto simp: sms_deliver_def sms_request_def Let_def split: sum.split option.split prod.split intro: do_extends)

lemma whatsapp_sends:
  assumes "wa_HTTPClient cfg = Some do"
  shows "extends got (\<lambda>r. rq_url r = whatsapp_url cfg) w (snd (whatsapp_Send env cfg msg w))"
  by (simp add: whatsapp_Send_def each_phone_sends whatsapp_deliver_sends [OF assms])

lemma sms_sends:
  assumes "sms_HTTPClient cfg = Some do"
  shows "extends got (\<lambda>r. rq_url r = Endpoint cfg) w (snd (sms_Send env cfg msg w))"
  by (simp add: sms_Send_def each_phone_sends sms_deliver_sends [OF assms])

end

section \<open>The email sender\<close>

context mailer
begin

lemma email_sends:
  assumes "SendMailFunc cfg = Some mail"
  shows "extends sent (\<lambda>(frm, to, body). frm = From cfg \<and> list_all (\<lambda>r. r \<noteq> []) to) w
    (snd (email_Send env cfg ctx msg w))"
  using assms
  by (simp add: email_Send_def Let_def extends_def mail_sent clean_recipients_def list_all_iff split: option.split)

end

section \<open>The model's senders keep the contract\<close>

interpretation webhook_snd: sender "webhook_Send env now (cfg\<lparr>wh_HTTPClient := Some net_do\<rparr>)" net_log
    "\<lambda>r. rq_url r = EndpointURL cfg" for env now cfg
  by unfold_locales (use net.webhook_sends [of "cfg\<lparr>wh_HTTPClient := Some net_do\<rparr>"] in simp)

interpretation slack_snd: sender "slack_Send env (cfg\<lparr>slack_HTTPClient := Some net_do\<rparr>)" net_log
    "\<lambda>r. rq_url r = WebhookURL cfg" for env cfg
  by unfold_locales (use net.slack_sends [of "cfg\<lparr>slack_HTTPClient := Some net_do\<rparr>"] in simp)

interpretation brevo_snd: sender "brevo_Send env (cfg\<lparr>brevo_HTTPClient := Some net_do\<rparr>) ctx" net_log
    "\<lambda>r. rq_url r = brevo_BaseURL cfg @ ''/smtp/email''" for env cfg ctx
  by unfold_locales (use net.brevo_sends [of "cfg\<lparr>brevo_HTTPClient := Some net_do\<rparr>"] in simp)

interpretation whatsapp_snd: sender "whatsapp_Send env (cfg\<lparr>wa_HTTPClient := Some net_do\<rparr>)" net_log
    "\<lambda>r. rq_url r = whatsapp_url (cfg\<lparr>wa_HTTPClient := Some net_do\<rparr>)" for env cfg
  by unfold_locales (rule net.whatsapp_sends, simp)

interpretation sms_snd: sender "sms_Send env (cfg\<lparr>sms_HTTPClient := Some net_do\<rparr>)" net_log
    "\<lambda>r. rq_url r = Endpoint cfg" for env cfg
  by unfold_locales (use net.sms_sends [of "cfg\<lparr>sms_HTTPClient := Some net_do\<rparr>"] in simp)

interpretation email_snd: sender "email_Send env (cfg\<lparr>SendMailFunc := Some net_mail\<rparr>) ctx" net_log
    "\<lambda>(frm, to, body). frm = From cfg \<and> list_all (\<lambda>r. r \<noteq> []) to" for env cfg ctx
  by unfold_locales (use smtp.email_sends [of "cfg\<lparr>SendMailFunc := Some net_mail\<rparr>"] in simp)

end
