(* ===== verification/Notif_Broker.thy ===== *)
theory Notif_Broker
  imports Sender_Contract
begin

text \<open>
  \<^verbatim>\<open>notifications/broker.go\<close>: the broker that hands a message to the senders of its channels, at once
  or through the worker pool.  The pool belongs to a library that is not in the repository: its
  \<open>SubmitContext\<close> is a parameter, and a queued task is known by its message.  A sender is a function
  on the outside world, which holds the state of the contexts too; the locks guard single reads
  and writes of the state and leave no trace in a sequential definition.
\<close>

type_synonym 'w bsender = "Message \<Rightarrow> 'w \<Rightarrow> goerr option \<times> 'w"

record Config =
  Workers :: int
  QueueSize :: int

definition DefaultConfig :: Config where
  "DefaultConfig = \<lparr>Workers = 4, QueueSize = 100\<rparr>"

record 'w defaultBroker =
  senders :: "Channel \<rightharpoonup> 'w bsender"
  pool_size :: "int \<times> int"
  closed :: bool

definition NewBroker :: "Config \<Rightarrow> 'w defaultBroker" where
  "NewBroker cfg =
     (let cfg = (if Workers cfg \<le> 0 then cfg\<lparr>Workers := 4\<rparr> else cfg);
          cfg = (if QueueSize cfg \<le> 0 then cfg\<lparr>QueueSize := 100\<rparr> else cfg)
      in \<lparr>senders = (\<lambda>_. None), pool_size = (Workers cfg, QueueSize cfg), closed = False\<rparr>)"

text \<open>A sender is registered under the channel it names.\<close>

definition RegisterSender :: "Channel \<Rightarrow> 'w bsender \<Rightarrow> 'w defaultBroker \<Rightarrow> 'w defaultBroker" where
  "RegisterSender ch s b = b\<lparr>senders := (senders b)(ch \<mapsto> s)\<rparr>"

text \<open>The loop over the channels: a missing sender or a failed delivery is noted and the loop goes on.\<close>

fun dispatch :: "(Channel \<rightharpoonup> 'w bsender) \<Rightarrow> Message \<Rightarrow> Channel list \<Rightarrow> 'w \<Rightarrow> goerr list \<times> 'w" where
  "dispatch reg msg [] w = ([], w)"
| "dispatch reg msg (ch # chs) w =
     (case reg ch of
        None \<Rightarrow>
          (case dispatch reg msg chs w of
             (errs, w) \<Rightarrow> (Wrapf [] (Sentinel ErrNoSenderRegistered) ('': '' @ ch) # errs, w))
      | Some snd1 \<Rightarrow>
          (case snd1 msg w of
             (Some err, w) \<Rightarrow>
               (case dispatch reg msg chs w of
                  (errs, w) \<Rightarrow> (Wrapf (''channel '' @ ch @ '' failed: '') err [] # errs, w))
           | (None, w) \<Rightarrow> dispatch reg msg chs w))"

text \<open>\<open>Send\<close>; \<open>registered\<close> lists the registered channels in the order the map is ranged over.\<close>

definition message_channels :: "Channel list \<Rightarrow> Message \<Rightarrow> Channel list" where
  "message_channels registered msg = (if Channels msg = [] then registered else Channels msg)"

definition broker_Send ::
  "gotime \<Rightarrow> Channel list \<Rightarrow> 'w defaultBroker \<Rightarrow> Message \<Rightarrow> 'w \<Rightarrow> goerr option \<times> 'w" where
  "broker_Send now registered b msg w =
     (if closed b then (Some (Sentinel ErrBrokerClosed), w)
      else if Recipients msg = [] then (Some (Sentinel ErrEmptyRecipients), w)
      else let msg = (if IsZero (CreatedAt msg) then msg\<lparr>CreatedAt := now\<rparr> else msg)
           in case dispatch (senders b) msg (message_channels registered msg) w of
                (errs, w) \<Rightarrow> (errors_join (map Some errs), w))"

lemma message_channels_created [simp]:
  "message_channels registered (msg\<lparr>CreatedAt := t\<rparr>) = message_channels registered msg"
  by (simp add: message_channels_def)

type_synonym 'p submit = "Message \<Rightarrow> 'p \<Rightarrow> goerr option \<times> 'p"

definition SendAsync ::
  "'p submit \<Rightarrow> context_state \<Rightarrow> 'w defaultBroker \<Rightarrow> Message \<Rightarrow> 'p \<Rightarrow> goerr option \<times> 'p" where
  "SendAsync SubmitContext ctx b msg pool =
     (case ctx_err ctx of
        Some err \<Rightarrow> (Some err, pool)
      | None \<Rightarrow> if closed b then (Some (Sentinel ErrBrokerClosed), pool) else SubmitContext msg pool)"

text \<open>\<open>Close\<close>: the flag it sets before it waits for the pool; false if it was set already, and then it
  does not wait.\<close>

definition broker_Close :: "'w defaultBroker \<Rightarrow> bool \<times> 'w defaultBroker" where
  "broker_Close b = (if closed b then (False, b) else (True, b\<lparr>closed := True\<rparr>))"

section \<open>The broker and its pool\<close>

text \<open>The broker at run time: queued messages, messages whose task has passed the check of \<open>closed\<close> and
  not yet delivered (as that of a \<open>Send\<close> in progress), the errors that were logged or returned, and the
  outside world.  A step is a call of an operation or a part of a task or \<open>Send\<close> between two accesses of
  the shared state; the pool takes tasks in any order.  A task may be queued after \<open>Close\<close>, by a
  \<open>SendAsync\<close> that read the flag before.\<close>

record 'w bsys =
  bs_broker :: "'w defaultBroker"
  bs_queue :: "Message list"
  bs_running :: "Message list"
  bs_logged :: "(Message \<times> goerr) list"
  bs_world :: 'w

inductive bstep :: "'w bsys \<Rightarrow> 'w bsys \<Rightarrow> bool" where
  register: "bstep s (s\<lparr>bs_broker := RegisterSender ch snd1 (bs_broker s)\<rparr>)"
| submit: "bstep s (s\<lparr>bs_queue := bs_queue s @ [msg]\<rparr>)"
| start_refused: "bs_queue s = q @ msg # q' \<Longrightarrow> closed (bs_broker s)
    \<Longrightarrow> bstep s (s\<lparr>bs_queue := q @ q', bs_logged := bs_logged s @ [(msg, Sentinel ErrBrokerClosed)]\<rparr>)"
| start: "bs_queue s = q @ msg # q' \<Longrightarrow> \<not> closed (bs_broker s)
    \<Longrightarrow> bstep s (s\<lparr>bs_queue := q @ q', bs_running := msg # bs_running s\<rparr>)"
| deliver: "bs_running s = r @ msg # r'
    \<Longrightarrow> broker_Send now registered ((bs_broker s)\<lparr>closed := False\<rparr>) msg (bs_world s) = (res, w)
    \<Longrightarrow> bstep s (s\<lparr>bs_running := r @ r', bs_world := w,
          bs_logged := bs_logged s @ (case res of None \<Rightarrow> [] | Some e \<Rightarrow> [(msg, e)])\<rparr>)"
| send: "\<not> closed (bs_broker s) \<Longrightarrow> bstep s (s\<lparr>bs_running := msg # bs_running s\<rparr>)"
| close: "bstep s (s\<lparr>bs_broker := snd (broker_Close (bs_broker s))\<rparr>)"

inductive_cases bstepE: "bstep s s'"

end
