(* ===== verification/Broker_Theorems.thy ===== *)
theory Broker_Theorems
  imports Notif_Broker "HOL-Library.Multiset"
begin

text \<open>
  Properties of the notification broker: a failing channel does not keep a message from the others, a
  message reaches only the channels it names, and what closing does to messages still in the queue.
\<close>

section \<open>Every channel is tried\<close>

text \<open>The deliveries a message asks for, as a relation: each channel is tried in its turn, on the world
  the earlier ones left, and has a result of its own.\<close>

inductive attempts ::
  "(Channel \<rightharpoonup> 'w bsender) \<Rightarrow> Message \<Rightarrow> Channel list \<Rightarrow> 'w \<Rightarrow> goerr option list \<Rightarrow> 'w \<Rightarrow> bool" where
  none: "attempts reg msg [] w [] w"
| missing: "reg ch = None \<Longrightarrow> attempts reg msg chs w rs w'
    \<Longrightarrow> attempts reg msg (ch # chs) w (Some (Sentinel ErrNoSenderRegistered) # rs) w'"
| tried: "reg ch = Some sn \<Longrightarrow> sn msg w = (r, w1) \<Longrightarrow> attempts reg msg chs w1 rs w'
    \<Longrightarrow> attempts reg msg (ch # chs) w (r # rs) w'"

inductive_cases attempts_ConsE: "attempts reg msg (ch # chs) w rs w'"

lemma dispatch_attempts:
  "\<exists>rs. attempts reg msg chs w rs (snd (dispatch reg msg chs w)) \<and> length rs = length chs
    \<and> (fst (dispatch reg msg chs w) = [] \<longleftrightarrow> list_all (\<lambda>r. r = None) rs)
    \<and> (\<forall>t. (\<exists>e\<in>set (fst (dispatch reg msg chs w)). errors_is e t) \<longleftrightarrow> (\<exists>e. Some e \<in> set rs \<and> errors_is e t))"
proof (induction chs arbitrary: w)
  case Nil
  show ?case by (intro exI [of _ "[]"]) (simp add: attempts.none)
next
  case (Cons ch chs)
  show ?case
  proof (cases "reg ch")
    case None
    from Cons.IH [of w] obtain rs where "attempts reg msg chs w rs (snd (dispatch reg msg chs w))"
      "length rs = length chs"
      "\<forall>t. (\<exists>e\<in>set (fst (dispatch reg msg chs w)). errors_is e t) \<longleftrightarrow> (\<exists>e. Some e \<in> set rs \<and> errors_is e t)" by blast
    with None show ?thesis
      by (intro exI [of _ "Some (Sentinel ErrNoSenderRegistered) # rs"])
         (auto simp: split_def intro: attempts.missing)
  next
    case (Some sn)
    obtain r w1 where sn: "sn msg w = (r, w1)" by fastforce
    from Cons.IH [of w1] obtain rs where "attempts reg msg chs w1 rs (snd (dispatch reg msg chs w1))"
      "length rs = length chs" "fst (dispatch reg msg chs w1) = [] \<longleftrightarrow> list_all (\<lambda>r. r = None) rs"
      "\<forall>t. (\<exists>e\<in>set (fst (dispatch reg msg chs w1)). errors_is e t) \<longleftrightarrow> (\<exists>e. Some e \<in> set rs \<and> errors_is e t)" by blast
    with Some sn show ?thesis
      by (intro exI [of _ "r # rs"]) (cases r; auto simp: split_def intro: attempts.tried)
  qed
qed

text \<open>C28. A failing channel does not keep a message from the others: an open broker tries every channel
  the message names (all registered ones if it names none) in order, each exactly once, with the
  creation time filled in; \<open>Send\<close> returns nil exactly when all of them succeeded, and its error is one of
  a sentinel exactly when that of some channel is.\<close>

theorem broker_tries_every_channel:
  assumes "broker_Send now registered b msg w = (res, w')" and "\<not> closed b" and "Recipients msg \<noteq> []"
  shows "\<exists>msg' rs. msg' = (if CreatedAt msg = 0 then msg\<lparr>CreatedAt := now\<rparr> else msg)
    \<and> attempts (senders b) msg' (message_channels registered msg) w rs w'
    \<and> length rs = length (message_channels registered msg)
    \<and> (res = None \<longleftrightarrow> list_all (\<lambda>r. r = None) rs)
    \<and> (\<forall>e t. res = Some e \<longrightarrow> errors_is e t = (\<exists>e'. Some e' \<in> set rs \<and> errors_is e' t))"
proof -
  let ?m = "if CreatedAt msg = 0 then msg\<lparr>CreatedAt := now\<rparr> else msg"
  let ?d = "dispatch (senders b) ?m (message_channels registered msg) w"
  have r: "res = errors_join (map Some (fst ?d))" "w' = snd ?d"
    using assms by (auto simp: broker_Send_def IsZero_def Let_def split: prod.splits)
  from dispatch_attempts [of "senders b" ?m "message_channels registered msg" w] obtain rs where
    rs: "attempts (senders b) ?m (message_channels registered msg) w rs (snd ?d)"
    "length rs = length (message_channels registered msg)" "fst ?d = [] \<longleftrightarrow> list_all (\<lambda>r. r = None) rs"
    "\<forall>t. (\<exists>e\<in>set (fst ?d). errors_is e t) \<longleftrightarrow> (\<exists>e. Some e \<in> set rs \<and> errors_is e t)" by blast
  have "res = None \<longleftrightarrow> fst ?d = []" unfolding r by auto
  moreover have "errors_is e t \<longleftrightarrow> (\<exists>e'\<in>set (fst ?d). errors_is e' t)" if "res = Some e" for e t
    using errors_join_is [OF that [unfolded r]] by auto
  ultimately have "(res = None \<longleftrightarrow> list_all (\<lambda>r. r = None) rs)
    \<and> (\<forall>e t. res = Some e \<longrightarrow> errors_is e t = (\<exists>e'. Some e' \<in> set rs \<and> errors_is e' t))"
    using rs(3,4) by simp
  with rs(1,2) show ?thesis unfolding r(2) by (intro exI [of _ ?m] exI [of _ rs]) simp
qed

definition demo_net :: "http_request net" where
  "demo_net = \<lparr>net_log = [], net_script = [Inr \<lparr>StatusCode = 500, rs_body = []\<rparr>, Inr \<lparr>StatusCode = 200, rs_body = []\<rparr>]\<rparr>"

definition demo_env :: http_env where
  "demo_env = \<lparr>new_request_err = (\<lambda>_. None), json_Marshal = (\<lambda>_. Inr ''{}'')\<rparr>"

definition demo_slack :: "http_request net SlackConfig" where
  "demo_slack = NewSlackSender net_do \<lparr>WebhookURL = ''http://s'', slack_Username = [], IconEmoji = [], slack_HTTPClient = None\<rparr>"

definition demo_hook :: "http_request net WebhookConfig" where
  "demo_hook = NewWebhookSender net_do
     \<lparr>EndpointURL = ''http://h'', wh_Secret = [], wh_Headers = [], wh_HTTPClient = None\<rparr>"

definition demo_broker :: "http_request net defaultBroker" where
  "demo_broker = RegisterSender ChannelSlack (slack_Send demo_env demo_slack)
     (RegisterSender ChannelWebhook (webhook_Send demo_env 0 demo_hook) (NewBroker DefaultConfig))"

definition demo_note :: Message where
  "demo_note = \<lparr>ID = ''1'', Title = ''t'', Body = ''b'', HTMLBody = [], msg_Priority = PriorityHigh,
     Channels = [ChannelSlack, ChannelSMS, ChannelWebhook], Recipients = [''u''], Metadata = [], Attachments = [], CreatedAt = 5\<rparr>"

theorem broker_tries_every_channel_witness:
  "\<exists>rs w'. attempts (senders demo_broker) demo_note (Channels demo_note) demo_net rs w'
    \<and> length rs = 3 \<and> length (net_log w') = 2"
proof -
  let ?r = "broker_Send 7 [] demo_broker demo_note demo_net"
  have n: "length (net_log (snd ?r)) = 2" by code_simp
  have d: "\<not> closed demo_broker" "Recipients demo_note \<noteq> []" by code_simp+
  have c: "message_channels [] demo_note = Channels demo_note" "CreatedAt demo_note \<noteq> 0"
    "length (Channels demo_note) = 3"
    by (simp_all add: message_channels_def demo_note_def)
  from broker_tries_every_channel [OF _ d, of 7 "[]" demo_net "fst ?r" "snd ?r"] n c show ?thesis by auto
qed

section \<open>Only the channels of the message\<close>

lemma dispatch_extends:
  assumes "\<And>ch sn. reg ch = Some sn \<Longrightarrow> sender sn got (dest ch)"
  shows "extends got (\<lambda>e. \<exists>ch\<in>set chs. dest ch e) w (snd (dispatch reg msg chs w))"
proof (induction chs arbitrary: w)
  case (Cons ch chs)
  have weak: "extends got (\<lambda>e. \<exists>ch\<in>set chs. dest ch e) u v \<Longrightarrow> extends got (\<lambda>e. \<exists>c\<in>set (ch # chs). dest c e) u v" for u v
    by (erule extends_weaken) auto
  show ?case
  proof (cases "reg ch")
    case None
    with weak [OF Cons.IH [of w]] show ?thesis by (simp add: split_def)
  next
    case (Some sn)
    obtain r w1 where sn: "sn msg w = (r, w1)" by fastforce
    have "extends got (dest ch) w w1" using sender.send_adds [OF assms [OF Some], of w msg] sn by simp
    then have "extends got (\<lambda>e. \<exists>c\<in>set (ch # chs). dest c e) w w1" by (rule extends_weaken) simp
    from extends_trans [OF this weak [OF Cons.IH [of w1]]] Some sn show ?thesis
      by (cases r) (simp_all add: split_def)
  qed
qed simp

text \<open>A message reaches only the channels it is meant for: if every registered sender keeps the
  contract of a sender (it adds to the log of its transport and only what goes to its own
  destinations), \<open>Send\<close> adds to that log only what goes to a destination of a channel the message
  names, whatever the senders return; a closed broker and a message without recipients add nothing.\<close>

theorem broker_reaches_named_channels:
  assumes "\<And>ch sn. senders b ch = Some sn \<Longrightarrow> sender sn got (dest ch)"
  shows "\<exists>out. got (snd (broker_Send now registered b msg w)) = got w @ out
    \<and> list_all (\<lambda>e. \<not> closed b \<and> Recipients msg \<noteq> [] \<and> (\<exists>ch\<in>set (message_channels registered msg). dest ch e)) out"
proof (cases "closed b \<or> Recipients msg = []")
  case True
  then show ?thesis by (auto simp: broker_Send_def)
next
  case False
  let ?m = "if IsZero (CreatedAt msg) then msg\<lparr>CreatedAt := now\<rparr> else msg"
  have "snd (broker_Send now registered b msg w)
      = snd (dispatch (senders b) ?m (message_channels registered msg) w)"
    using False by (simp add: broker_Send_def Let_def split_def)
  with dispatch_extends [of "senders b" got dest "message_channels registered msg" w ?m, OF assms] False
  show ?thesis by (simp add: extends_def)
qed

theorem broker_reaches_named_channels_witness:
  "\<exists>out. net_log (snd (broker_Send 0 [] demo_broker (demo_note\<lparr>Channels := [ChannelSlack]\<rparr>) demo_net)) = out
    \<and> list_all (\<lambda>e. rq_url e = ''http://s'') out \<and> length out = 1"
proof -
  let ?dest = "\<lambda>ch e. rq_url e = (if ch = ChannelSlack then ''http://s'' else ''http://h'')"
  have s: "sender (slack_Send demo_env demo_slack) net_log (?dest ChannelSlack)"
    using slack_snd.sender_axioms [of demo_env demo_slack]
    by (simp add: demo_slack_def NewSlackSender_def)
  have h: "sender (webhook_Send demo_env 0 demo_hook) net_log (?dest ChannelWebhook)"
    using webhook_snd.sender_axioms [of demo_env 0 demo_hook]
    by (simp add: demo_hook_def NewWebhookSender_def ChannelSlack_def ChannelWebhook_def)
  have reg: "sender sn net_log (?dest ch)" if "senders demo_broker ch = Some sn" for ch sn
    using that s h by (auto simp: demo_broker_def RegisterSender_def NewBroker_def Let_def split: if_splits)
  have l: "length (net_log (snd (broker_Send 0 [] demo_broker (demo_note\<lparr>Channels := [ChannelSlack]\<rparr>) demo_net))) = 1"
    "net_log demo_net = []" "message_channels [] (demo_note\<lparr>Channels := [ChannelSlack]\<rparr>) = [ChannelSlack]"
    by code_simp+
  from broker_reaches_named_channels [of demo_broker net_log ?dest 0 "[]" "demo_note\<lparr>Channels := [ChannelSlack]\<rparr>" demo_net,
      OF reg] l show ?thesis by (auto simp: list_all_iff)
qed

section \<open>Closing\<close>

definition refused :: "'w bsys \<Rightarrow> 'w bsys \<Rightarrow> bool" where
  "refused s s' \<longleftrightarrow> closed (bs_broker s') \<and> bs_running s' = [] \<and> bs_world s' = bs_world s
    \<and> (\<exists>new. bs_logged s' = bs_logged s @ new \<and> mset (bs_queue s) \<subseteq># mset (bs_queue s') + mset (map fst new)
          \<and> list_all (\<lambda>(_, e). e = Sentinel ErrBrokerClosed) new)"

lemma refused_refl: "closed (bs_broker s) \<Longrightarrow> bs_running s = [] \<Longrightarrow> refused s s"
  by (simp add: refused_def)

lemma refused_step:
  assumes "refused s s'" and "bstep s' s''"
  shows "refused s s''"
proof -
  from assms(1) obtain new where n: "closed (bs_broker s')" "bs_running s' = []" "bs_world s' = bs_world s"
    "bs_logged s' = bs_logged s @ new" "mset (bs_queue s) \<subseteq># mset (bs_queue s') + mset (map fst new)"
    "list_all (\<lambda>(_, e). e = Sentinel ErrBrokerClosed) new" by (auto simp: refused_def)
  from assms(2) show ?thesis
  proof cases
    case (start_refused q msg q')
    then show ?thesis using n
      unfolding refused_def by (intro conjI exI [of _ "new @ [(msg, Sentinel ErrBrokerClosed)]"]) simp_all
  next
    case (submit msg)
    with n show ?thesis by (auto simp: refused_def intro: subset_mset.order_trans)
  qed (use n in \<open>auto simp: refused_def RegisterSender_def broker_Close_def\<close>)
qed


definition demo_closed :: "http_request net bsys" where
  "demo_closed = \<lparr>bs_broker = snd (broker_Close demo_broker), bs_queue = [demo_note], bs_running = [],
     bs_logged = [], bs_world = demo_net\<rparr>"


end
