(* ===== verification/Sender_Theorems.thy ===== *)
theory Sender_Theorems
  imports Sender_Contract
begin

text \<open>
  Properties of the HTTP senders: the order and the end of the phone senders' loop, what an SMS gateway
  reads in a request, and the shape of a Brevo payload.
\<close>

section \<open>The recipients loop\<close>

definition phones :: "Message \<Rightarrow> string list" where
  "phones msg = filter (\<lambda>p. p \<noteq> []) (map cleanPhone (Recipients msg))"

text \<open>A delivery that asks for the given request, if it gets as far as the client.\<close>

definition delivers :: "('w \<Rightarrow> 'e list) \<Rightarrow> (string \<Rightarrow> 'e) \<Rightarrow> (string \<Rightarrow> 'w \<Rightarrow> goerr option \<times> 'w) \<Rightarrow> bool" where
  "delivers got req deliver \<longleftrightarrow>
     (\<forall>p w r w'. deliver p w = (r, w') \<longrightarrow> got w' = got w @ [req p] \<or> r \<noteq> None \<and> got w' = got w)"

lemma each_phone_prefix:
  assumes "delivers got req deliver" and "each_phone deliver rs w = (res, w')"
  shows "\<exists>k. got w' = got w @ map req (take k (filter (\<lambda>p. p \<noteq> []) (map cleanPhone rs)))
    \<and> (res = None \<longrightarrow> length (filter (\<lambda>p. p \<noteq> []) (map cleanPhone rs)) \<le> k)"
  using assms(2)
proof (induction rs arbitrary: w)
  case (Cons r rs)
  show ?case
  proof (cases "cleanPhone r = []")
    case True
    with Cons show ?thesis by simp
  next
    case False
    obtain e w1 where d: "deliver (cleanPhone r) w = (e, w1)" by fastforce
    with assms(1) have g: "got w1 = got w @ [req (cleanPhone r)] \<or> e \<noteq> None \<and> got w1 = got w"
      unfolding delivers_def by blast
    show ?thesis
    proof (cases e)
      case None
      with d False Cons.prems have "each_phone deliver rs w1 = (res, w')" by simp
      from Cons.IH [OF this] obtain k where
        "got w' = got w1 @ map req (take k (filter (\<lambda>p. p \<noteq> []) (map cleanPhone rs)))"
        "res = None \<longrightarrow> length (filter (\<lambda>p. p \<noteq> []) (map cleanPhone rs)) \<le> k" by blast
      with g None False show ?thesis by (intro exI [of _ "Suc k"]) simp
    next
      case (Some err)
      with d False Cons.prems have "res = Some err" "w' = w1" by simp_all
      with g False show ?thesis
        by (elim disjE) (rule exI [of _ 1], simp, rule exI [of _ 0], simp)
    qed
  qed
qed simp

context http_client
begin

lemma do_log: "do req w = (r, w') \<Longrightarrow> got w' = got w @ [req]"
  using do_got [of req w] by simp

lemma sms_delivers:
  assumes "sms_HTTPClient s = Some do"
  shows "delivers got (sms_request s msg) (sms_deliver env s msg)"
  using assms
  by (auto simp: delivers_def sms_deliver_def dest: do_log split: option.splits prod.splits sum.splits if_splits)

lemma whatsapp_delivers:
  assumes "wa_HTTPClient s = Some do" and "\<And>p. json_Marshal env (whatsapp_payload p (Body msg)) = Inr (body p)"
  shows "delivers got (\<lambda>p. whatsapp_request s (body p)) (whatsapp_deliver env s msg)"
  using assms
  by (auto simp: delivers_def whatsapp_deliver_def dest: do_log split: option.splits prod.splits sum.splits if_splits)

lemma sms_prefix:
  assumes "sms_HTTPClient s = Some do" and "\<not> sms_IsSimulated s" and "sms_Send env s msg w = (res, w')"
  shows "\<exists>k. got w' = got w @ map (sms_request s msg) (take k (phones msg)) \<and> (res = None \<longrightarrow> length (phones msg) \<le> k)"
  using each_phone_prefix [OF sms_delivers [OF assms(1)]] assms(2,3)
  by (simp add: sms_Send_def phones_def)

lemma whatsapp_prefix:
  assumes "wa_HTTPClient s = Some do" and "\<And>p. json_Marshal env (whatsapp_payload p (Body msg)) = Inr (body p)"
    and "\<not> wa_IsSimulated s" and "whatsapp_Send env s msg w = (res, w')"
  shows "\<exists>k. got w' = got w @ map (\<lambda>p. whatsapp_request s (body p)) (take k (phones msg))
    \<and> (res = None \<longrightarrow> length (phones msg) \<le> k)"
  using each_phone_prefix [OF whatsapp_delivers [OF assms(1,2)]] assms(3,4)
  by (simp add: whatsapp_Send_def phones_def)

end

text \<open>C31. The phone senders: over any client that records its requests, \<open>Send\<close> asks for one request per
  recipient that is not blank, in the order of the message and never one twice, a prefix of them if a
  delivery fails; it returns nil only when all of them were asked for.  In simulation nothing is sent.\<close>

theorem whatsapp_sends_in_order:
  assumes "http_client do got" and "wa_HTTPClient s = Some do"
    and "\<And>p. json_Marshal env (whatsapp_payload p (Body msg)) = Inr (body p)"
    and "whatsapp_Send env s msg w = (res, w')"
  shows "if wa_IsSimulated s then res = None \<and> w' = w
    else \<exists>k. got w' = got w @ map (\<lambda>p. whatsapp_request s (body p)) (take k (phones msg))
      \<and> (res = None \<longrightarrow> length (phones msg) \<le> k)"
proof (cases "wa_IsSimulated s")
  case True
  with assms(4) show ?thesis by (simp add: whatsapp_Send_def)
next
  case False
  with http_client.whatsapp_prefix [OF assms(1-3) False assms(4)] show ?thesis by simp
qed

definition demo_whatsapp :: "http_request net WhatsAppConfig" where
  "demo_whatsapp = \<lparr>AccessToken = ''t'', PhoneNumberID = ''1'', wa_BaseURL = ''http://w/'',
     wa_HTTPClient = Some net_do, wa_IsSimulated = False\<rparr>"

definition demo_json :: http_env where
  "demo_json = \<lparr>new_request_err = (\<lambda>_. None),
     json_Marshal = (\<lambda>j. case j of JObj kvs \<Rightarrow> (case kvs ! 3 of (_, JStr p) \<Rightarrow> Inr p | _ \<Rightarrow> Inr []) | _ \<Rightarrow> Inr [])\<rparr>"

definition demo_phone_msg :: Message where
  "demo_phone_msg = \<lparr>ID = [], Title = [], Body = ''hi'', HTMLBody = [], msg_Priority = PriorityLow, Channels = [],
     Recipients = [''+1'', '' '', ''2''], Metadata = [], Attachments = [], CreatedAt = 0\<rparr>"

theorem whatsapp_sends_in_order_witness:
  "\<exists>w'. whatsapp_Send demo_json demo_whatsapp demo_phone_msg
      \<lparr>net_log = [], net_script = [Inr \<lparr>StatusCode = 200, rs_body = []\<rparr>, Inr \<lparr>StatusCode = 201, rs_body = []\<rparr>]\<rparr> = (None, w')
    \<and> map rq_body (net_log w') = [''1'', ''2''] \<and> length (phones demo_phone_msg) = 2"
proof -
  let ?w = "\<lparr>net_log = [], net_script = [Inr \<lparr>StatusCode = 200, rs_body = []\<rparr>, Inr \<lparr>StatusCode = 201, rs_body = []\<rparr>]\<rparr>"
  let ?r = "whatsapp_Send demo_json demo_whatsapp demo_phone_msg ?w"
  have c: "wa_HTTPClient demo_whatsapp = Some net_do" "\<not> wa_IsSimulated demo_whatsapp"
    by (simp_all add: demo_whatsapp_def)
  have j: "json_Marshal demo_json (whatsapp_payload p (Body demo_phone_msg)) = Inr p" for p
    by (simp add: demo_json_def whatsapp_payload_def)
  have e: "fst ?r = None" "phones demo_phone_msg = [''1'', ''2'']"
    by code_simp+
  from e(1) have r: "?r = (None, snd ?r)" by (metis prod.collapse)
  from whatsapp_sends_in_order [OF net.http_client_axioms c(1) j r] e(2) c(2)
  have "net_log (snd ?r) = map (whatsapp_request demo_whatsapp) [''1'', ''2'']" by auto
  then have "map rq_body (net_log (snd ?r)) = [''1'', ''2'']" by (simp add: whatsapp_request_def)
  with e r show ?thesis by (intro exI [of _ "snd ?r"]) (simp del: split_paired_Ex)
qed

section \<open>What an SMS gateway reads\<close>

definition hex_value :: "char \<Rightarrow> nat" where
  "hex_value c = (if 65 \<le> byte c then byte c - 55 else byte c - 48)"

fun query_unescape :: "string \<Rightarrow> string" where
  "query_unescape [] = []"
| "query_unescape (c # s) =
     (if c = CHR ''+'' then CHR 32 # query_unescape s
      else if c = CHR ''%''
      then (case s of a # b # r \<Rightarrow> char_of (hex_value a * 16 + hex_value b) # query_unescape r | _ \<Rightarrow> c # query_unescape s)
      else c # query_unescape s)"

definition query_pair :: "string \<Rightarrow> string \<times> string" where
  "query_pair p = (case Split p CHR ''='' of [k, v] \<Rightarrow> (query_unescape k, query_unescape v) | _ \<Rightarrow> (query_unescape p, []))"

definition ParseQuery :: "string \<Rightarrow> (string \<times> string) list" where
  "ParseQuery s = map query_pair (Split s CHR ''&'')"

lemma Split_none: "d \<notin> set s \<Longrightarrow> Split s d = [s]"
  by (induction s) auto

lemma Split_append: "d \<notin> set s \<Longrightarrow> Split (s @ d # t) d = s # Split t d"
  by (induction s) auto

lemma upper_hex_value: "n < 16 \<Longrightarrow> hex_value (upper_hex n) = n \<and> upper_hex n \<notin> {CHR ''&'', CHR ''=''}"
proof -
  have "list_all (\<lambda>n. hex_value (upper_hex n) = n \<and> upper_hex n \<notin> {CHR ''&'', CHR ''=''}) [0..<16]"
    by (simp add: upt_rec hex_value_def upper_hex_def byte_def)
  then show "n < 16 \<Longrightarrow> hex_value (upper_hex n) = n \<and> upper_hex n \<notin> {CHR ''&'', CHR ''=''}"
    by (simp add: list_all_iff)
qed

lemma query_char_kept:
  "is_digit c \<or> is_upper c \<or> is_lower c \<or> c \<in> set ''-_.~'' \<Longrightarrow> c \<notin> {CHR ''+'', CHR ''%'', CHR ''&'', CHR ''=''}"
  by (auto simp: is_digit_def is_upper_def is_lower_def byte_def)

lemma query_unescape_char: "query_unescape (query_char c @ s) = c # query_unescape s"
  using query_char_kept [of c] upper_hex_value [of "byte c div 16"] upper_hex_value [of "byte c mod 16"]
  by (auto simp: query_char_def)

lemma query_roundtrip: "query_unescape (QueryEscape s) = s"
  by (induction s) (simp_all add: QueryEscape_def query_unescape_char)

lemma QueryEscape_chars: "CHR ''&'' \<notin> set (QueryEscape s)" "CHR ''='' \<notin> set (QueryEscape s)"
proof -
  have "CHR ''&'' \<notin> set (query_char c) \<and> CHR ''='' \<notin> set (query_char c)" for c
    using query_char_kept [of c] upper_hex_value [of "byte c div 16"] upper_hex_value [of "byte c mod 16"]
    by (auto simp: query_char_def)
  then show "CHR ''&'' \<notin> set (QueryEscape s)" "CHR ''='' \<notin> set (QueryEscape s)"
    by (auto simp: QueryEscape_def)
qed

lemma query_pair_escaped: "query_pair (QueryEscape k @ CHR ''='' # QueryEscape v) = (k, v)"
  by (simp add: query_pair_def Split_append Split_none QueryEscape_chars query_roundtrip)

lemma ParseQuery_Encode: "kvs \<noteq> [] \<Longrightarrow> ParseQuery (values_Encode kvs) = kvs"
proof (induction kvs rule: values_Encode.induct)
  case (2 k v)
  have "CHR ''&'' \<notin> set (QueryEscape k @ CHR ''='' # QueryEscape v)" by (simp add: QueryEscape_chars)
  then show ?case by (simp add: ParseQuery_def Split_none query_pair_escaped)
next
  case (3 k v kv kvs)
  have "CHR ''&'' \<notin> set (QueryEscape k @ CHR ''='' # QueryEscape v)" by (simp add: QueryEscape_chars)
  from Split_append [OF this, of "values_Encode (kv # kvs)"] 3
  show ?case by (simp add: ParseQuery_def query_pair_escaped)
qed simp


section \<open>Brevo payloads\<close>

definition well_formed_payload :: "Message \<Rightarrow> brevoSendEmailRequest \<Rightarrow> bool" where
  "well_formed_payload msg r \<longleftrightarrow>
     br_To r \<noteq> [] \<and> list_all (\<lambda>e. e \<noteq> []) (br_To r) \<and> set (br_To r) \<subseteq> TrimSpace ` set (Recipients msg)
     \<and> (HTMLContent r = [] \<longleftrightarrow> Body msg = [] \<and> HTMLBody msg = [])
     \<and> (TextContent r = [] \<longleftrightarrow> Body msg = [] \<and> HTMLBody msg = [])
     \<and> map (\<lambda>a. (ba_Name a, base64_Decode (ba_Content a))) (br_Attachment r)
         = map (\<lambda>a. (Filename a, Some (Data a))) (Attachments msg)"

lemma buildBrevoPayload_ok:
  assumes "Recipients msg \<noteq> []" and t: "to1 = filter (\<lambda>c. c \<noteq> []) (map TrimSpace (Recipients msg))" and "to1 \<noteq> []"
  shows "buildBrevoPayload msg name email = Inr
     \<lparr>br_SenderName = name, br_SenderEmail = email, br_To = to1, br_Subject = Title msg,
      HTMLContent = (if HTMLBody msg = [] \<and> Body msg \<noteq> []
        then ''<div>'' @ replace_byte (CHR 10) ''<br/>'' (Body msg) @ ''</div>'' else HTMLBody msg),
      TextContent = (if Body msg = [] \<and> HTMLBody msg \<noteq> [] then HTMLBody msg else Body msg),
      br_Attachment = map (\<lambda>att. \<lparr>ba_Name = Filename att, ba_Content = base64_Encode (Data att)\<rparr>) (Attachments msg)\<rparr>"
  using assms(1,3) unfolding buildBrevoPayload_def t [symmetric] Let_def
  by (cases "HTMLBody msg = []"; cases "Body msg = []") (simp_all only: if_True if_False simp_thms)

lemma payload_well_formed:
  assumes "to1 \<noteq> []" and "list_all (\<lambda>e. e \<noteq> []) to1" and "set to1 \<subseteq> TrimSpace ` set (Recipients msg)"
  shows "well_formed_payload msg
     \<lparr>br_SenderName = name, br_SenderEmail = email, br_To = to1, br_Subject = Title msg,
      HTMLContent = (if HTMLBody msg = [] \<and> Body msg \<noteq> []
        then ''<div>'' @ replace_byte (CHR 10) ''<br/>'' (Body msg) @ ''</div>'' else HTMLBody msg),
      TextContent = (if Body msg = [] \<and> HTMLBody msg \<noteq> [] then HTMLBody msg else Body msg),
      br_Attachment = map (\<lambda>att. \<lparr>ba_Name = Filename att, ba_Content = base64_Encode (Data att)\<rparr>) (Attachments msg)\<rparr>"
    (is "well_formed_payload msg ?r")
proof -
  have h: "HTMLContent ?r = [] \<longleftrightarrow> Body msg = [] \<and> HTMLBody msg = []"
    "TextContent ?r = [] \<longleftrightarrow> Body msg = [] \<and> HTMLBody msg = []"
    by (cases "Body msg"; cases "HTMLBody msg"; simp)+
  have a: "map (\<lambda>a. (ba_Name a, base64_Decode (ba_Content a))) (br_Attachment ?r)
      = map (\<lambda>a. (Filename a, Some (Data a))) (Attachments msg)"
    by (simp add: base64_roundtrip)
  have t: "br_To ?r = to1" by simp
  show ?thesis unfolding well_formed_payload_def h a t using assms by (simp only: simp_thms)
qed

text \<open>C30. A Brevo payload is well formed: it has a recipient and no blank one, both renderings of a
  message that has a text or an HTML body, and every attachment under its name with contents that
  decode to its data.  It is refused exactly when no recipient is left, with \<open>ErrEmptyRecipients\<close>.\<close>

theorem brevo_payload_well_formed:
  "case buildBrevoPayload msg name email of
     Inl e \<Rightarrow> e = Sentinel ErrEmptyRecipients \<and> list_all (\<lambda>r. TrimSpace r = []) (Recipients msg)
   | Inr r \<Rightarrow> well_formed_payload msg r \<and> br_SenderName r = name \<and> br_SenderEmail r = email
       \<and> br_Subject r = Title msg"
proof -
  define to1 where "to1 = filter (\<lambda>c. c \<noteq> []) (map TrimSpace (Recipients msg))"
  have f: "to1 = [] \<longleftrightarrow> list_all (\<lambda>r. TrimSpace r = []) (Recipients msg)"
    by (auto simp: to1_def filter_empty_conv list_all_iff)
  show ?thesis
  proof (cases "to1 = []")
    case True
    with f show ?thesis by (simp add: buildBrevoPayload_def to1_def [symmetric])
  next
    case False
    then have n: "Recipients msg \<noteq> []" by (auto simp: to1_def)
    have "list_all (\<lambda>e. e \<noteq> []) to1" "set to1 \<subseteq> TrimSpace ` set (Recipients msg)"
      by (auto simp: to1_def list_all_iff)
    from payload_well_formed [OF False this] show ?thesis
      unfolding buildBrevoPayload_ok [OF n to1_def False] sum.case by simp
  qed
qed

end
