(* ===== verification/Audit_Event.thy ===== *)
theory Audit_Event
  imports Go_Errors
begin

text \<open>
  \<^verbatim>\<open>audit/audit.go\<close>, the events: actors and comments in a context, the difference of two states, and
  new events.  The values of a state are of any type \<open>'v\<close>, with the comparison \<open>reflect.DeepEqual\<close> and
  the nil value as parameters.  A nil map is \<^const>\<open>None\<close>.
\<close>

section \<open>Actors and contexts\<close>

record Actor =
  actor_ID :: string
  Email :: string
  Role :: string
  IPAddress :: string
  UserAgent :: string

definition zero_Actor :: Actor where
  "zero_Actor = \<lparr>actor_ID = [], Email = [], Role = [], IPAddress = [], UserAgent = []\<rparr>"

text \<open>A context, as far as this package reads it: the values under its two keys.\<close>

record audit_ctx =
  actor_value :: "Actor option"
  comment_value :: "string option"

definition ContextWithActor :: "audit_ctx \<Rightarrow> Actor \<Rightarrow> audit_ctx" where
  "ContextWithActor ctx actor = ctx\<lparr>actor_value := Some actor\<rparr>"

definition ActorFromContext :: "audit_ctx \<Rightarrow> Actor \<times> bool" where
  "ActorFromContext ctx = (case actor_value ctx of Some a \<Rightarrow> (a, True) | None \<Rightarrow> (zero_Actor, False))"

definition WithComment :: "audit_ctx \<Rightarrow> string \<Rightarrow> audit_ctx" where
  "WithComment ctx comment = ctx\<lparr>comment_value := Some comment\<rparr>"

definition Comment :: "audit_ctx option \<Rightarrow> string" where
  "Comment ctx = (case ctx of
     None \<Rightarrow> []
   | Some c \<Rightarrow> (case comment_value c of None \<Rightarrow> [] | Some v \<Rightarrow> v))"

section \<open>Differences\<close>

record 'v FieldDiff =
  Old :: 'v
  New :: 'v

type_synonym 'v state = "string \<rightharpoonup> 'v"

text \<open>The two loops of \<open>ComputeDiff\<close>, over the keys of a map in the order the loop meets them.\<close>

fun diff_before :: "('v \<Rightarrow> 'v \<Rightarrow> bool) \<Rightarrow> 'v \<Rightarrow> string list \<Rightarrow> 'v state \<Rightarrow> 'v state
  \<Rightarrow> (string \<rightharpoonup> 'v FieldDiff) \<Rightarrow> (string \<rightharpoonup> 'v FieldDiff)" where
  "diff_before DeepEqual nil [] before after diff = diff"
| "diff_before DeepEqual nil (k # ks) before after diff =
     (let oldVal = the (before k)
      in case after k of
           None \<Rightarrow> diff_before DeepEqual nil ks before after (diff(k \<mapsto> \<lparr>Old = oldVal, New = nil\<rparr>))
         | Some newVal \<Rightarrow>
             if \<not> DeepEqual oldVal newVal
             then diff_before DeepEqual nil ks before after (diff(k \<mapsto> \<lparr>Old = oldVal, New = newVal\<rparr>))
             else diff_before DeepEqual nil ks before after diff)"

fun diff_after :: "'v \<Rightarrow> string list \<Rightarrow> 'v state \<Rightarrow> 'v state
  \<Rightarrow> (string \<rightharpoonup> 'v FieldDiff) \<Rightarrow> (string \<rightharpoonup> 'v FieldDiff)" where
  "diff_after nil [] before after diff = diff"
| "diff_after nil (k # ks) before after diff =
     (if before k = None
      then diff_after nil ks before after (diff(k \<mapsto> \<lparr>Old = nil, New = the (after k)\<rparr>))
      else diff_after nil ks before after diff)"

definition ComputeDiff :: "('v \<Rightarrow> 'v \<Rightarrow> bool) \<Rightarrow> 'v \<Rightarrow> string list \<Rightarrow> string list
  \<Rightarrow> 'v state \<Rightarrow> 'v state \<Rightarrow> (string \<rightharpoonup> 'v FieldDiff)" where
  "ComputeDiff DeepEqual nil kb ka before after =
     diff_after nil ka before after (diff_before DeepEqual nil kb before after (\<lambda>_. None))"

section \<open>Events\<close>

record 'v Event =
  ev_ID :: uuid
  ev_Actor :: Actor
  Action :: string
  EntityType :: string
  EntityID :: string
  BeforeState :: "'v state option"
  AfterState :: "'v state option"
  Diff :: "(string \<rightharpoonup> 'v FieldDiff) option"
  ev_Comment :: string
  ev_Metadata :: "(string \<rightharpoonup> string) option"
  ev_CreatedAt :: gotime

definition nil_map :: "'v state option \<Rightarrow> 'v state" where
  "nil_map m = (case m of None \<Rightarrow> (\<lambda>_. None) | Some s \<Rightarrow> s)"

definition NewEvent ::
  "('v \<Rightarrow> 'v \<Rightarrow> bool) \<Rightarrow> 'v \<Rightarrow> uuid \<Rightarrow> gotime \<Rightarrow> string list \<Rightarrow> string list \<Rightarrow> audit_ctx
    \<Rightarrow> string \<Rightarrow> string \<Rightarrow> string \<Rightarrow> 'v state option \<Rightarrow> 'v state option \<Rightarrow> 'v Event" where
  "NewEvent DeepEqual nil new_uuid now kb ka ctx action entityType entityID before after =
     (let actor = fst (ActorFromContext ctx);
          comment = Comment (Some ctx);
          diff = (if before \<noteq> None \<or> after \<noteq> None
                  then Some (ComputeDiff DeepEqual nil kb ka (nil_map before) (nil_map after)) else None)
      in \<lparr>ev_ID = new_uuid, ev_Actor = actor, Action = action, EntityType = entityType, EntityID = entityID,
          BeforeState = before, AfterState = after, Diff = diff, ev_Comment = comment,
          ev_Metadata = Some (\<lambda>_. None), ev_CreatedAt = now\<rparr>)"

section \<open>What a difference says\<close>

text \<open>Key by key, without an order: the specification of \<open>ComputeDiff\<close>.\<close>

definition field_diff :: "('v \<Rightarrow> 'v \<Rightarrow> bool) \<Rightarrow> 'v \<Rightarrow> 'v option \<Rightarrow> 'v option \<Rightarrow> 'v FieldDiff option" where
  "field_diff DeepEqual nil old new = (case (old, new) of
     (None, None) \<Rightarrow> None
   | (Some x, None) \<Rightarrow> Some \<lparr>Old = x, New = nil\<rparr>
   | (None, Some y) \<Rightarrow> Some \<lparr>Old = nil, New = y\<rparr>
   | (Some x, Some y) \<Rightarrow> if DeepEqual x y then None else Some \<lparr>Old = x, New = y\<rparr>)"

lemma diff_before_lookup:
  "set ks \<subseteq> dom before \<Longrightarrow> diff_before DeepEqual nil ks before after diff k =
    (if k \<in> set ks \<and> field_diff DeepEqual nil (before k) (after k) \<noteq> None
     then field_diff DeepEqual nil (before k) (after k) else diff k)"
proof (induction ks arbitrary: diff)
  case (Cons a ks)
  then obtain x where "before a = Some x" by auto
  with Cons show ?case by (cases "after a") (auto simp: field_diff_def)
qed simp

lemma diff_after_lookup:
  "set ks \<subseteq> dom after \<Longrightarrow> diff_after nil ks before after diff k =
    (if k \<in> set ks \<and> before k = None then Some \<lparr>Old = nil, New = the (after k)\<rparr> else diff k)"
  by (induction ks arbitrary: diff) auto

lemma ComputeDiff_lookup:
  assumes "set kb = dom before" and "set ka = dom after"
  shows "ComputeDiff DeepEqual nil kb ka before after k = field_diff DeepEqual nil (before k) (after k)"
  using assms unfolding ComputeDiff_def
  by (subst diff_after_lookup, simp, subst diff_before_lookup, simp)
     (auto simp: field_diff_def split: option.splits)

end
