(* ===== verification/Audit_Recorder.thy ===== *)
theory Audit_Recorder
  imports Audit_Event Table_Name
begin

text \<open>
  \<^verbatim>\<open>audit/audit.go\<close>, the recorder: its configuration and options, its SQL, and the synchronous and
  asynchronous recording with the policies for a full queue.  The database and the worker pool are
  outside the repository: \<open>Exec\<close>, \<open>Submit\<close> and \<open>SubmitContext\<close> are parameters that thread a state of
  their own; a queued task is known by its event.  The order in which an encoder, a clock and a source of
  UUIDs are asked does not matter, so they are functions and values.
\<close>

section \<open>Configuration\<close>

definition PolicyFallbackSync :: string where "PolicyFallbackSync = ''FALLBACK_SYNC''"
definition PolicyBlock :: string where "PolicyBlock = ''BLOCK''"
definition PolicyDrop :: string where "PolicyDrop = ''DROP''"

definition DefaultSyncFallbackTimeout :: duration where
  "DefaultSyncFallbackTimeout = 3 * Second"

record Config =
  DB_present :: bool
  Workers :: int
  QueueSize :: int
  QueueFullPolicy :: string
  cfg_TableName :: string
  SyncFallbackTimeout :: duration

record pgRecorder =
  queueFullPolicy :: string
  tableName :: string
  insertQuery :: string
  initErr :: "goerr option"
  syncFallbackTimeout :: duration

type_synonym Option = "pgRecorder \<Rightarrow> pgRecorder"

definition bad_table_name :: "(string \<Rightarrow> string) \<Rightarrow> string \<Rightarrow> goerr" where
  "bad_table_name quote name = Wrapf [] (Sentinel ErrAuditInvalidTableName)
     ('': '' @ quote name @ '' does not match identifier pattern '' @ [CHR 39] @ ''^[a-zA-Z_][a-zA-Z0-9_]*('' @ [CHR 92]
      @ ''.[a-zA-Z_][a-zA-Z0-9_]*)?$'' @ [CHR 39])"

definition WithTableName :: "(string \<Rightarrow> string) \<Rightarrow> string \<Rightarrow> Option" where
  "WithTableName quote name r =
     (if \<not> tableNameRegex_MatchString name then r\<lparr>initErr := Some (bad_table_name quote name)\<rparr>
      else r\<lparr>tableName := name\<rparr>)"

definition WithSyncFallbackTimeout :: "duration \<Rightarrow> Option" where
  "WithSyncFallbackTimeout d r = (if sint d > 0 then r\<lparr>syncFallbackTimeout := d\<rparr> else r)"

text \<open>The statement, on lines behind the given indentation.\<close>

definition insert_sql :: "string \<Rightarrow> string \<Rightarrow> string" where
  "insert_sql indent table =
     (let line = (\<lambda>n s. CHR 10 # indent @ replicate n (CHR 9) @ s)
      in line 2 (''INSERT INTO '' @ table @ '' ('')
         @ line 3 ''id, actor_id, actor_email, actor_role, ip_address, user_agent,''
         @ line 3 ''action, entity_type, entity_id, before_state, after_state, diff,''
         @ line 3 ''comment, metadata, created_at''
         @ line 2 '') VALUES (''
         @ line 3 ''$1, $2, $3, $4, $5, $6,''
         @ line 3 ''$7, $8, $9, $10, $11, $12,''
         @ line 3 ''$13, $14, $15''
         @ line 2 '')'' @ line 1 [])"

text \<open>The settings that are missing or not positive get their defaults.\<close>

definition audit_defaults :: "Config \<Rightarrow> Config" where
  "audit_defaults cfg = cfg\<lparr>
     Workers := (if Workers cfg \<le> 0 then 2 else Workers cfg),
     QueueSize := (if QueueSize cfg \<le> 0 then 200 else QueueSize cfg),
     QueueFullPolicy := (if QueueFullPolicy cfg = [] then PolicyFallbackSync else QueueFullPolicy cfg),
     cfg_TableName := (if cfg_TableName cfg = [] then ''audit_logs'' else cfg_TableName cfg),
     SyncFallbackTimeout := (if sint (SyncFallbackTimeout cfg) \<le> 0 then DefaultSyncFallbackTimeout
                             else SyncFallbackTimeout cfg)\<rparr>"

definition initial_recorder :: "Config \<Rightarrow> pgRecorder" where
  "initial_recorder cfg =
     \<lparr>queueFullPolicy = QueueFullPolicy cfg, tableName = cfg_TableName cfg, insertQuery = [], initErr = None,
      syncFallbackTimeout = SyncFallbackTimeout cfg\<rparr>"

definition finish_recorder :: "(string \<Rightarrow> string) \<Rightarrow> pgRecorder \<Rightarrow> goerr + pgRecorder" where
  "finish_recorder quote r =
     (case initErr r of
        Some e \<Rightarrow> Inl e
      | None \<Rightarrow> if \<not> tableNameRegex_MatchString (tableName r) then Inl (bad_table_name quote (tableName r))
                else Inr (r\<lparr>insertQuery := insert_sql [] (tableName r)\<rparr>))"

text \<open>\<open>NewPGRecorder\<close>; \<open>pools\<close> lists the sizes of the worker pools that are running.  The pool is started
  before the options are applied.\<close>

definition NewPGRecorder ::
  "(string \<Rightarrow> string) \<Rightarrow> Config \<Rightarrow> Option list \<Rightarrow> (int \<times> int) list \<Rightarrow> (goerr + pgRecorder) \<times> (int \<times> int) list" where
  "NewPGRecorder quote cfg opts pools =
     (if \<not> DB_present cfg then (Inl (Sentinel ErrMissingDB), pools)
      else if cfg_TableName cfg \<noteq> [] \<and> \<not> tableNameRegex_MatchString (cfg_TableName cfg)
      then (Inl (bad_table_name quote (cfg_TableName cfg)), pools)
      else let cfg = audit_defaults cfg
           in (finish_recorder quote (foldl (\<lambda>r opt. opt r) (initial_recorder cfg) opts),
               pools @ [(Workers cfg, QueueSize cfg)]))"

section \<open>Recording\<close>

text \<open>The arguments of the statement; a JSON column without a value gets a nil byte slice.\<close>

datatype sql_arg = SqlUuid uuid | SqlText string | SqlJson "string option" | SqlTime gotime

text \<open>The encoder, for states, differences and metadata, and what a call takes from its surroundings.\<close>

record 'v audit_env =
  marshal_state :: "'v state \<Rightarrow> goerr + string"
  marshal_diff :: "(string \<rightharpoonup> 'v FieldDiff) \<Rightarrow> goerr + string"
  marshal_meta :: "(string \<rightharpoonup> string) \<Rightarrow> goerr + string"
  new_uuid :: uuid
  time_now :: gotime

definition marshal_opt :: "('a \<Rightarrow> goerr + string) \<Rightarrow> string \<Rightarrow> 'a option \<Rightarrow> goerr + string option" where
  "marshal_opt enc what v = (case v of
     None \<Rightarrow> Inr None
   | Some x \<Rightarrow> (case enc x of Inl err \<Rightarrow> Inl (Wrapf (''failed to marshal '' @ what @ '': '') err [])
                | Inr s \<Rightarrow> Inr (Some s)))"

type_synonym 'h db_exec = "string \<Rightarrow> sql_arg list \<Rightarrow> 'h \<Rightarrow> goerr option \<times> 'h"

definition complete_event :: "'v audit_env \<Rightarrow> 'v Event \<Rightarrow> 'v Event" where
  "complete_event env event =
     (let event = (if ev_ID event = nil_uuid then event\<lparr>ev_ID := new_uuid env\<rparr> else event)
      in if IsZero (ev_CreatedAt event) then event\<lparr>ev_CreatedAt := time_now env\<rparr> else event)"

definition audit_args :: "'v Event \<Rightarrow> string option \<Rightarrow> string option \<Rightarrow> string option \<Rightarrow> string option \<Rightarrow> sql_arg list" where
  "audit_args event beforeJSON afterJSON diffJSON metaJSON =
     [SqlUuid (ev_ID event), SqlText (actor_ID (ev_Actor event)), SqlText (Email (ev_Actor event)),
      SqlText (Role (ev_Actor event)), SqlText (IPAddress (ev_Actor event)), SqlText (UserAgent (ev_Actor event)),
      SqlText (Action event), SqlText (EntityType event), SqlText (EntityID event),
      SqlJson beforeJSON, SqlJson afterJSON, SqlJson diffJSON, SqlText (ev_Comment event),
      SqlJson metaJSON, SqlTime (ev_CreatedAt event)]"

definition Record :: "'v audit_env \<Rightarrow> 'h db_exec \<Rightarrow> pgRecorder \<Rightarrow> 'v Event \<Rightarrow> 'h \<Rightarrow> goerr option \<times> 'h" where
  "Record env Exec r event h =
     (let event = complete_event env event
      in case marshal_opt (marshal_state env) ''before_state'' (BeforeState event) of
           Inl err \<Rightarrow> (Some err, h)
         | Inr beforeJSON \<Rightarrow>
      (case marshal_opt (marshal_state env) ''after_state'' (AfterState event) of
           Inl err \<Rightarrow> (Some err, h)
         | Inr afterJSON \<Rightarrow>
      (case marshal_opt (marshal_diff env) ''diff'' (Diff event) of
           Inl err \<Rightarrow> (Some err, h)
         | Inr diffJSON \<Rightarrow>
      (case marshal_opt (marshal_meta env) ''metadata'' (ev_Metadata event) of
           Inl err \<Rightarrow> (Some err, h)
         | Inr metaJSON \<Rightarrow>
             (let query = (if insertQuery r = [] then insert_sql [CHR 9] (tableName r) else insertQuery r)
              in case Exec query (audit_args event beforeJSON afterJSON diffJSON metaJSON) h of
                   (Some err, h) \<Rightarrow> (Some (Wrapf ''failed to insert audit log: '' err []), h)
                 | (None, h) \<Rightarrow> (None, h))))))"

text \<open>A task of the pool: it records the event and logs an error.\<close>

definition audit_task :: "'v audit_env \<Rightarrow> 'h db_exec \<Rightarrow> pgRecorder \<Rightarrow> 'v Event \<Rightarrow> 'h \<Rightarrow> goerr option \<times> 'h" where
  "audit_task env Exec r event h = Record env Exec r event h"

text \<open>The worker pool library, known by two methods and by its error for a full queue.\<close>

record ('t, 'p) task_pool =
  Submit :: "'t \<Rightarrow> 'p \<Rightarrow> goerr option \<times> 'p"
  SubmitContext :: "'t \<Rightarrow> 'p \<Rightarrow> goerr option \<times> 'p"
  queue_full_msg :: string

definition RecordAsync ::
  "'v audit_env \<Rightarrow> 'h db_exec \<Rightarrow> ('v Event, 'p) task_pool \<Rightarrow> pgRecorder \<Rightarrow> 'v Event \<Rightarrow> 'p \<times> 'h
    \<Rightarrow> goerr option \<times> 'p \<times> 'h" where
  "RecordAsync env Exec wp r event st = (case st of (p, h) \<Rightarrow>
     (case Submit wp event p of
        (None, p) \<Rightarrow> (None, p, h)
      | (Some err, p) \<Rightarrow>
          if errors_is err (ErrQueueFull (queue_full_msg wp))
          then (if queueFullPolicy r = PolicyFallbackSync
                then (case Record env Exec r event h of (e, h) \<Rightarrow> (e, p, h))
                else if queueFullPolicy r = PolicyBlock
                then (case SubmitContext wp event p of (e, p) \<Rightarrow> (e, p, h))
                else (Some err, p, h))
          else (Some err, p, h)))"

end
