(* ===== verification/Audit_Theorems.thy ===== *)
theory Audit_Theorems
  imports Audit_Recorder
begin

text \<open>
  Properties of the audit package: a difference is enough to replay or undo a change, a recorder that was
  built runs one safe statement, and no policy for a full queue loses an event without an error.
\<close>

section \<open>Differences replay and undo a change\<close>

definition patch :: "'v \<Rightarrow> 'v state \<Rightarrow> (string \<rightharpoonup> 'v FieldDiff) \<Rightarrow> 'v state" where
  "patch nil s d = (\<lambda>k. case d k of None \<Rightarrow> s k | Some f \<Rightarrow> if New f = nil then None else Some (New f))"

definition unpatch :: "'v \<Rightarrow> 'v state \<Rightarrow> (string \<rightharpoonup> 'v FieldDiff) \<Rightarrow> 'v state" where
  "unpatch nil s d = (\<lambda>k. case d k of None \<Rightarrow> s k | Some f \<Rightarrow> if Old f = nil then None else Some (Old f))"

text \<open>C20. \<open>ComputeDiff\<close>, in whatever order its two loops meet the keys: the result has exactly the keys on
  which the states differ, and for states without nil values it turns the one into the other and back.\<close>

theorem audit_diff_replays:
  assumes "set kb = dom before" and "set ka = dom after"
    and "\<And>x y. DeepEqual x y \<longleftrightarrow> x = y" and "nil \<notin> ran before" and "nil \<notin> ran after"
  shows "dom (ComputeDiff DeepEqual nil kb ka before after) = {k. before k \<noteq> after k}
    \<and> patch nil before (ComputeDiff DeepEqual nil kb ka before after) = after
    \<and> unpatch nil after (ComputeDiff DeepEqual nil kb ka before after) = before"
proof -
  let ?d = "ComputeDiff DeepEqual nil kb ka before after"
  have d: "?d k = field_diff DeepEqual nil (before k) (after k)" for k
    by (rule ComputeDiff_lookup [OF assms(1,2)])
  have n: "before k \<noteq> Some nil" "after k \<noteq> Some nil" for k using assms(4,5) by (auto simp: ran_def)
  have "?d k = None \<longleftrightarrow> before k = after k" for k
    unfolding d using assms(3) by (auto simp: field_diff_def split: option.splits)
  moreover have "patch nil before ?d k = after k" "unpatch nil after ?d k = before k" for k
    using n [of k] assms(3)
    by (cases "before k"; cases "after k"; simp add: patch_def unpatch_def d field_diff_def)+
  ultimately show ?thesis by (auto simp: dom_def)
qed

definition demo_before :: "int state" where
  "demo_before = [''rate'' \<mapsto> 18, ''name'' \<mapsto> 1]"

definition demo_after :: "int state" where
  "demo_after = [''rate'' \<mapsto> 12, ''code'' \<mapsto> 2]"

theorem audit_diff_replays_witness:
  "patch 0 demo_before (ComputeDiff (=) 0 [''name'', ''rate''] [''rate'', ''code''] demo_before demo_after) = demo_after
    \<and> ComputeDiff (=) 0 [''name'', ''rate''] [''rate'', ''code''] demo_before demo_after ''rate''
      = Some \<lparr>Old = 18, New = 12\<rparr>"
proof -
  have "set [''name'', ''rate''] = dom demo_before" "set [''rate'', ''code''] = dom demo_after"
    by (auto simp: demo_before_def demo_after_def)
  moreover have "0 \<notin> ran demo_before" "0 \<notin> ran demo_after"
    by (auto simp: demo_before_def demo_after_def ran_def split: if_splits)
  ultimately have "patch 0 demo_before (ComputeDiff (=) 0 [''name'', ''rate''] [''rate'', ''code''] demo_before demo_after)
      = demo_after"
    using audit_diff_replays [of "[''name'', ''rate'']" demo_before "[''rate'', ''code'']" demo_after "(=)" 0] by simp
  moreover have "ComputeDiff (=) 0 [''name'', ''rate''] [''rate'', ''code''] demo_before demo_after ''rate''
      = Some \<lparr>Old = 18, New = (12 :: int)\<rparr>"
    by code_simp
  ultimately show ?thesis by blast
qed

section \<open>Recorders\<close>

inductive_set package_options :: "(string \<Rightarrow> string) \<Rightarrow> Option set" for quote where
  "WithTableName quote name \<in> package_options quote"
| "WithSyncFallbackTimeout d \<in> package_options quote"

definition ready :: "pgRecorder \<Rightarrow> bool" where
  "ready r \<longleftrightarrow> initErr r = None \<and> tableName r \<in> table_name_language
     \<and> insertQuery r = insert_sql [] (tableName r) \<and> queueFullPolicy r \<noteq> [] \<and> 0 < sint (syncFallbackTimeout r)"

definition option_inv :: "pgRecorder \<Rightarrow> bool" where
  "option_inv r \<longleftrightarrow> queueFullPolicy r \<noteq> [] \<and> 0 < sint (syncFallbackTimeout r)
     \<and> (\<forall>e. initErr r = Some e \<longrightarrow> errors_is e ErrAuditInvalidTableName)"

lemma bad_table_name_is [simp]: "errors_is (bad_table_name quote name) ErrAuditInvalidTableName"
  by (simp add: bad_table_name_def)

lemma options_keep:
  "set opts \<subseteq> package_options quote \<Longrightarrow> option_inv r \<Longrightarrow> option_inv (foldl (\<lambda>r opt. opt r) r opts)"
proof (induction opts arbitrary: r)
  case (Cons opt opts)
  then have "opt \<in> package_options quote" by simp
  then have "option_inv (opt r)"
    using Cons.prems(2)
    by cases (auto simp: option_inv_def WithTableName_def WithSyncFallbackTimeout_def)
  with Cons show ?case by simp
qed simp

lemma option_inv_start:
  assumes "set opts \<subseteq> package_options quote"
  shows "option_inv (foldl (\<lambda>r opt. opt r) (initial_recorder (audit_defaults cfg)) opts)"
  by (rule options_keep [OF assms])
     (simp add: option_inv_def initial_recorder_def audit_defaults_def PolicyFallbackSync_def
        DefaultSyncFallbackTimeout_def Second_def)

text \<open>C35. Building a recorder with any options of the package: the recorder that comes out has a table name
  of the pattern's language, the statement of that name, a policy and a positive timeout, and has
  started one pool of positive size; otherwise the error is \<open>ErrMissingDB\<close> or \<open>ErrInvalidTableName\<close>.\<close>

theorem audit_recorder_ready:
  assumes "set opts \<subseteq> package_options quote" and "NewPGRecorder quote cfg opts pools = (res, pools')"
  shows "case res of
      Inr r \<Rightarrow> ready r \<and> (\<exists>n q. 0 < n \<and> 0 < q \<and> pools' = pools @ [(n, q)])
    | Inl e \<Rightarrow> errors_is e ErrMissingDB \<and> \<not> DB_present cfg \<or> errors_is e ErrAuditInvalidTableName"
  using assms(2) option_inv_start [OF assms(1), of cfg] unfolding NewPGRecorder_def Let_def
  by (auto simp: finish_recorder_def ready_def option_inv_def matches_language audit_defaults_def
      split: if_splits option.splits)

definition demo_audit :: Config where
  "demo_audit = \<lparr>DB_present = True, Workers = 0, QueueSize = 0, QueueFullPolicy = [], cfg_TableName = [],
     SyncFallbackTimeout = 0\<rparr>"

theorem audit_recorder_ready_witness:
  "\<exists>r. NewPGRecorder id demo_audit [WithTableName id ''ops.audit''] [] = (Inr r, [(2, 200)])
    \<and> tableName r = ''ops.audit'' \<and> ready r"
proof -
  let ?r = "NewPGRecorder id demo_audit [WithTableName id ''ops.audit''] []"
  have s: "snd ?r = [(2, 200)]" by code_simp
  have m: "tableNameRegex_MatchString ''ops.audit''" by code_simp
  have t: "\<exists>r. fst ?r = Inr r \<and> tableName r = ''ops.audit''"
    using m by (simp add: Let_def NewPGRecorder_def demo_audit_def WithTableName_def finish_recorder_def initial_recorder_def)
  then obtain r where r: "fst ?r = Inr r" "tableName r = ''ops.audit''" by blast
  have o: "set [WithTableName id ''ops.audit''] \<subseteq> package_options id" by (simp add: package_options.intros)
  from r s have "?r = (Inr r, [(2, 200)])" by (simp add: prod_eq_iff)
  from audit_recorder_ready [OF o this] this r(2) show ?thesis by auto
qed

text \<open>C36. A rejected option leaks a pool: with a database and an acceptable configured name, an option with a
  table name that does not match makes \<open>NewPGRecorder\<close> fail whatever the other options are, after it has
  started a worker pool that no one can stop (the recorder is not returned).\<close>

theorem audit_recorder_leaks_pool:
  assumes "DB_present cfg" and "cfg_TableName cfg = [] \<or> tableNameRegex_MatchString (cfg_TableName cfg)"
    and "\<not> tableNameRegex_MatchString name" and "set opts \<subseteq> package_options quote"
    and "WithTableName quote name \<in> set opts"
  shows "\<exists>e n q. NewPGRecorder quote cfg opts pools = (Inl e, pools @ [(n, q)])
    \<and> errors_is e ErrAuditInvalidTableName"
proof -
  have keep: "initErr r \<noteq> None \<Longrightarrow> initErr (foldl (\<lambda>r opt. opt r) r os) \<noteq> None"
    if "set os \<subseteq> package_options quote" for os r
    using that
  proof (induction os arbitrary: r)
    case (Cons opt os)
    then have "opt \<in> package_options quote" by simp
    then have "initErr (opt r) \<noteq> None"
      using Cons.prems(1) by cases (auto simp: WithTableName_def WithSyncFallbackTimeout_def)
    with Cons show ?case by simp
  qed simp
  obtain o1 o2 where o: "opts = o1 @ WithTableName quote name # o2" using split_list [OF assms(5)] by blast
  have e: "initErr (foldl (\<lambda>r opt. opt r) r opts) \<noteq> None" for r
    unfolding o using assms(3,4) o by (simp add: keep WithTableName_def)
  let ?r = "foldl (\<lambda>r opt. opt r) (initial_recorder (audit_defaults cfg)) opts"
  from e obtain err where i: "initErr ?r = Some err" by blast
  with option_inv_start [OF assms(4)] have "errors_is err ErrAuditInvalidTableName" by (simp add: option_inv_def)
  with i assms(1,2) show ?thesis by (auto simp: NewPGRecorder_def Let_def finish_recorder_def)
qed

theorem audit_recorder_leaks_pool_witness:
  "\<exists>e n q. NewPGRecorder id demo_audit [WithSyncFallbackTimeout 5, WithTableName id ''a;b''] [] = (Inl e, [(n, q)])"
proof -
  have "DB_present demo_audit" "cfg_TableName demo_audit = []" by (simp_all add: demo_audit_def)
  moreover have "\<not> tableNameRegex_MatchString ''a;b''" by code_simp
  moreover have "set [WithSyncFallbackTimeout 5, WithTableName id ''a;b''] \<subseteq> package_options id"
    by (simp add: package_options.intros)
  ultimately show ?thesis
    using audit_recorder_leaks_pool [of demo_audit "''a;b''" "[WithSyncFallbackTimeout 5, WithTableName id ''a;b'']" id "[]"]
    by simp blast
qed

section \<open>Asynchronous recording\<close>

text \<open>What the recorder relies on in the worker pool: a submission queues the task exactly when it returns
  nil.\<close>

locale work_queue =
  fixes wp :: "('v Event, 'p) task_pool" and queue :: "'p \<Rightarrow> 'v Event list"
  assumes submit_queues: "Submit wp t p = (e, p') \<Longrightarrow> queue p' = queue p @ (if e = None then [t] else [])"
    and submit_context_queues:
      "SubmitContext wp t p = (e, p') \<Longrightarrow> queue p' = queue p @ (if e = None then [t] else [])"
begin

text \<open>Each way an event can go, with what is left of it.\<close>

lemma record_async_outcome:
  assumes "RecordAsync env Exec wp r event (p, h) = (res, p', h')"
  shows "res = None \<and> queue p' = queue p @ [event] \<and> h' = h
    \<or> queue p' = queue p \<and> queueFullPolicy r = PolicyFallbackSync \<and> Record env Exec r event h = (res, h')
    \<or> res \<noteq> None \<and> queue p' = queue p \<and> h' = h"
proof (cases "Submit wp event p")
  case (Pair e p1)
  note q = submit_queues [OF Pair]
  show ?thesis
  proof (cases e)
    case None
    with Pair q assms show ?thesis by (simp add: RecordAsync_def)
  next
    case (Some err)
    show ?thesis
    proof (cases "SubmitContext wp event p1")
      case sc: (Pair e2 p2)
      from submit_context_queues [OF sc] q Some Pair sc assms show ?thesis
        by (cases e2) (auto simp: RecordAsync_def split: if_splits prod.splits)
    qed
  qed
qed

end

text \<open>A bounded queue that refuses a task when it is full.\<close>

definition bounded_submit :: "nat \<Rightarrow> 't \<Rightarrow> 't list \<Rightarrow> goerr option \<times> 't list" where
  "bounded_submit n t p = (if length p < n then (None, p @ [t]) else (Some (Sentinel (ErrQueueFull ''queue is full'')), p))"

definition bounded_pool :: "nat \<Rightarrow> ('t, 't list) task_pool" where
  "bounded_pool n = \<lparr>Submit = bounded_submit n, SubmitContext = bounded_submit n, queue_full_msg = ''queue is full''\<rparr>"

interpretation bounded: work_queue "bounded_pool n" "\<lambda>p. p" for n
  by unfold_locales (auto simp: bounded_pool_def bounded_submit_def split: if_splits)

text \<open>C11. No event is lost without an error, under any policy: when \<open>RecordAsync\<close> returns nil the event is
  queued and nothing else changed, or the policy is the synchronous fallback and the event was
  recorded on the spot without an error; when it returns an error nothing was queued and, unless the
  synchronous recording itself failed, the database was not touched.\<close>

theorem audit_async_never_silent:
  assumes "work_queue wp queue" and "RecordAsync env Exec wp r event (p, h) = (res, p', h')"
  shows "case res of
      None \<Rightarrow> queue p' = queue p @ [event] \<and> h' = h
        \<or> queue p' = queue p \<and> queueFullPolicy r = PolicyFallbackSync \<and> Record env Exec r event h = (None, h')
    | Some e \<Rightarrow> queue p' = queue p
        \<and> (h' = h \<or> queueFullPolicy r = PolicyFallbackSync \<and> Record env Exec r event h = (Some e, h'))"
  using work_queue.record_async_outcome [OF assms] by (auto split: option.split)

definition demo_event :: "int Event" where
  "demo_event = NewEvent (=) 0 7 9 [] [] \<lparr>actor_value = None, comment_value = Some ''why''\<rparr> ''A'' ''T'' ''1'' None None"

definition demo_audit_env :: "int audit_env" where
  "demo_audit_env = \<lparr>marshal_state = (\<lambda>_. Inr ''{}''), marshal_diff = (\<lambda>_. Inr ''{}''), marshal_meta = (\<lambda>_. Inr ''{}''),
     new_uuid = 1, time_now = 1\<rparr>"

definition demo_exec :: "sql_arg list list db_exec" where
  "demo_exec q args h = (None, h @ [args])"

theorem audit_async_never_silent_witness:
  "\<exists>h. RecordAsync demo_audit_env demo_exec (bounded_pool 0)
      (initial_recorder (audit_defaults demo_audit)) demo_event ([], []) = (None, [], h)
    \<and> Record demo_audit_env demo_exec (initial_recorder (audit_defaults demo_audit)) demo_event [] = (None, h)
    \<and> length h = 1"
proof -
  let ?a = "RecordAsync demo_audit_env demo_exec (bounded_pool 0)
      (initial_recorder (audit_defaults demo_audit)) demo_event ([], [])"
  have e: "fst ?a = None" "fst (snd ?a) = []" "length (snd (snd ?a)) = 1" by code_simp+
  then have a: "?a = (None, [], snd (snd ?a))" by (metis prod.collapse)
  from audit_async_never_silent [OF bounded.work_queue_axioms a] e(3)
  have "Record demo_audit_env demo_exec (initial_recorder (audit_defaults demo_audit)) demo_event [] = (None, snd (snd ?a))"
    by simp
  with a e(3) show ?thesis by blast
qed

end
