(* ===== verification/Audit_System.thy ===== *)
theory Audit_System
  imports Audit_Theorems "HOL-Library.Multiset"
begin

text \<open>
  The recorder of \<^verbatim>\<open>audit/audit.go\<close> at run time: calls of \<open>RecordAsync\<close>, the pool's workers that take
  tasks and run them, and \<open>Close\<close>, which waits until no task is queued or running.  The pool belongs to a
  library outside the repository and is known by \<open>queue\<close>, the tasks it holds; it takes them in any order.
\<close>

section \<open>The system\<close>

text \<open>Beside pool, database and running tasks, the history: the events whose \<open>RecordAsync\<close> returned nil, and
  those of them that were given to \<open>Record\<close>, with its result.\<close>

record ('v, 'p, 'h) audit_sys =
  as_pool :: 'p
  as_db :: 'h
  as_running :: "'v Event list"
  as_accepted :: "'v Event list"
  as_attempted :: "('v Event \<times> goerr option) list"

definition audit_start :: "'p \<Rightarrow> 'h \<Rightarrow> ('v, 'p, 'h) audit_sys" where
  "audit_start p h = \<lparr>as_pool = p, as_db = h, as_running = [], as_accepted = [], as_attempted = []\<rparr>"

inductive audit_step ::
  "'v audit_env \<Rightarrow> 'h db_exec \<Rightarrow> ('v Event, 'p) task_pool \<Rightarrow> ('p \<Rightarrow> 'v Event list) \<Rightarrow> pgRecorder
    \<Rightarrow> ('v, 'p, 'h) audit_sys \<Rightarrow> ('v, 'p, 'h) audit_sys \<Rightarrow> bool" for env Exec wp queue r where
  refused: "RecordAsync env Exec wp r event (as_pool s, as_db s) = (Some err, p, h)
    \<Longrightarrow> audit_step env Exec wp queue r s (s\<lparr>as_pool := p, as_db := h\<rparr>)"
| accepted: "RecordAsync env Exec wp r event (as_pool s, as_db s) = (None, p, h)
    \<Longrightarrow> audit_step env Exec wp queue r s (s\<lparr>as_pool := p, as_db := h, as_accepted := event # as_accepted s,
          as_attempted := (if queue p = queue (as_pool s) then (event, None) # as_attempted s else as_attempted s)\<rparr>)"
| begin_task: "queue (as_pool s) = q @ event # q' \<Longrightarrow> queue p = q @ q'
    \<Longrightarrow> audit_step env Exec wp queue r s (s\<lparr>as_pool := p, as_running := event # as_running s\<rparr>)"
| end_task: "as_running s = q @ event # q' \<Longrightarrow> audit_task env Exec r event (as_db s) = (res, h)
    \<Longrightarrow> audit_step env Exec wp queue r s (s\<lparr>as_db := h, as_running := q @ q',
          as_attempted := (event, res) # as_attempted s\<rparr>)"

text \<open>\<open>Close\<close> returns in the states in which the pool's \<open>StopWait\<close> does.\<close>

definition Close_returns :: "('p \<Rightarrow> 'v Event list) \<Rightarrow> ('v, 'p, 'h) audit_sys \<Rightarrow> bool" where
  "Close_returns queue s \<longleftrightarrow> queue (as_pool s) = [] \<and> as_running s = []"

section \<open>Every accepted event is recorded once\<close>

definition accounted :: "('p \<Rightarrow> 'v Event list) \<Rightarrow> ('v, 'p, 'h) audit_sys \<Rightarrow> bool" where
  "accounted queue s \<longleftrightarrow> mset (as_accepted s)
     = mset (queue (as_pool s)) + mset (as_running s) + mset (map fst (as_attempted s))"

context work_queue
begin

lemma accounted_step:
  assumes "audit_step env Exec wp queue r s s'" and "accounted queue s"
  shows "accounted queue s'"
  using assms(1)
proof cases
  case (refused event err p h)
  from record_async_outcome [OF this(2)] have "queue p = queue (as_pool s)" by auto
  with refused(1) assms(2) show ?thesis by (simp add: accounted_def)
next
  case (accepted event p h)
  from record_async_outcome [OF this(2)] accepted(1) assms(2) show ?thesis by (auto simp: accounted_def)
next
  case (begin_task q event q' p)
  with assms(2) show ?thesis by (simp add: accounted_def)
next
  case (end_task q event q' res h)
  with assms(2) show ?thesis by (simp add: accounted_def)
qed

lemma accounted_run:
  "(audit_step env Exec wp queue r)\<^sup>*\<^sup>* s s' \<Longrightarrow> accounted queue s \<Longrightarrow> accounted queue s'"
  by (induction rule: rtranclp_induct) (auto intro: accounted_step)

end



end
