(* ===== verification/Pdf.thy ===== *)
theory Pdf
  imports Go_Errors
begin

text \<open>
  \<^verbatim>\<open>pdf/pdf.go\<close>: options, renderers with their semaphores, and the generation of documents.  Channels
  and renderers are shared objects: they live in a store and are known by their index in it.  The
  wkhtmltopdf library, the generator's work and the template engine are parameters.
\<close>

section \<open>The store\<close>

text \<open>A buffered channel, as far as a semaphore uses it: its capacity and the number of tokens in it.\<close>

record chan_state =
  capacity :: int
  used :: int

record WkhtmlRenderer =
  Semaphore :: "nat option"
  sem :: "nat option"
  semOnce :: bool

record pdf_store =
  chans :: "chan_state list"
  renderers :: "WkhtmlRenderer list"

definition make_chan :: "int \<Rightarrow> pdf_store \<Rightarrow> nat \<times> pdf_store" where
  "make_chan n s = (length (chans s), s\<lparr>chans := chans s @ [\<lparr>capacity = n, used = 0\<rparr>]\<rparr>)"

section \<open>Options\<close>

definition DefaultMaxConcurrency :: int where
  "DefaultMaxConcurrency = 10"

datatype Renderer = Wkhtml nat | Custom nat

record Options =
  PageSize :: string
  Orientation :: string
  DPI :: nat
  MarginTop :: nat
  MarginBottom :: nat
  MarginLeft :: nat
  MarginRight :: nat
  opt_Title :: string
  EnableLocalFileAccess :: bool
  MaxConcurrency :: int
  Context :: "context_state option"
  opt_Semaphore :: "nat option"
  renderer :: "Renderer option"

type_synonym Option = "Options \<Rightarrow> Options"

definition DefaultOptions :: Options where
  "DefaultOptions = \<lparr>PageSize = ''A4'', Orientation = ''Portrait'', DPI = 300, MarginTop = 10, MarginBottom = 10,
     MarginLeft = 10, MarginRight = 10, opt_Title = [], EnableLocalFileAccess = False,
     MaxConcurrency = DefaultMaxConcurrency, Context = Some background, opt_Semaphore = None, renderer = None\<rparr>"

definition WithContext :: "context_state option \<Rightarrow> Option" where
  "WithContext ctx o1 = (if ctx \<noteq> None then o1\<lparr>Context := ctx\<rparr> else o1)"

definition WithMaxConcurrency :: "int \<Rightarrow> Option" where
  "WithMaxConcurrency n o1 = (if n > 0 then o1\<lparr>MaxConcurrency := n\<rparr> else o1)"

definition WithSemaphore :: "nat option \<Rightarrow> Option" where
  "WithSemaphore c o1 = o1\<lparr>opt_Semaphore := c\<rparr>"

definition WithPageSize :: "string \<Rightarrow> Option" where
  "WithPageSize sz o1 = o1\<lparr>PageSize := sz\<rparr>"

definition WithOrientation :: "string \<Rightarrow> Option" where
  "WithOrientation orientation o1 = o1\<lparr>Orientation := orientation\<rparr>"

definition WithMargins :: "nat \<Rightarrow> nat \<Rightarrow> nat \<Rightarrow> nat \<Rightarrow> Option" where
  "WithMargins t b l r o1 = o1\<lparr>MarginTop := t, MarginBottom := b, MarginLeft := l, MarginRight := r\<rparr>"

definition WithDPI :: "nat \<Rightarrow> Option" where
  "WithDPI dpi o1 = o1\<lparr>DPI := dpi\<rparr>"

definition WithTitle :: "string \<Rightarrow> Option" where
  "WithTitle title o1 = o1\<lparr>opt_Title := title\<rparr>"

definition WithLocalFileAccess :: "bool \<Rightarrow> Option" where
  "WithLocalFileAccess enable o1 = o1\<lparr>EnableLocalFileAccess := enable\<rparr>"

definition WithRenderer :: "Renderer option \<Rightarrow> Option" where
  "WithRenderer r o1 = o1\<lparr>renderer := r\<rparr>"

section \<open>Renderers and semaphores\<close>

definition NewWkhtmlRenderer :: "int list \<Rightarrow> pdf_store \<Rightarrow> nat \<times> pdf_store" where
  "NewWkhtmlRenderer maxConcurrency s =
     (let limit = (case maxConcurrency of n # _ \<Rightarrow> if n > 0 then n else DefaultMaxConcurrency
                   | [] \<Rightarrow> DefaultMaxConcurrency)
      in case make_chan limit s of
           (c, s) \<Rightarrow> (length (renderers s),
             s\<lparr>renderers := renderers s @ [\<lparr>Semaphore = None, sem = Some c, semOnce = True\<rparr>]\<rparr>))"

definition getSemaphore :: "nat \<Rightarrow> Options \<Rightarrow> pdf_store \<Rightarrow> nat option \<times> pdf_store" where
  "getSemaphore w opts s =
     (let r = renderers s ! w
      in if Semaphore r \<noteq> None then (Semaphore r, s)
         else if opt_Semaphore opts \<noteq> None then (opt_Semaphore opts, s)
         else if sem r \<noteq> None then (sem r, s)
         else if semOnce r then (sem r, s)
         else let limit = (if MaxConcurrency opts \<le> 0 then DefaultMaxConcurrency else MaxConcurrency opts)
              in case make_chan limit s of
                   (c, s) \<Rightarrow> (Some c, s\<lparr>renderers := (renderers s)[w := r\<lparr>sem := Some c, semOnce := True\<rparr>]\<rparr>))"

definition set_used :: "nat \<Rightarrow> (int \<Rightarrow> int) \<Rightarrow> pdf_store \<Rightarrow> pdf_store" where
  "set_used c f s = s\<lparr>chans := (chans s)[c := (chans s ! c)\<lparr>used := f (used (chans s ! c))\<rparr>]\<rparr>"

text \<open>A send on the semaphore is possible while there is room; the deferred receive takes the token out.\<close>

definition can_acquire :: "nat \<Rightarrow> pdf_store \<Rightarrow> bool" where
  "can_acquire c s \<longleftrightarrow> used (chans s ! c) < capacity (chans s ! c)"

definition acquire :: "nat \<Rightarrow> pdf_store \<Rightarrow> pdf_store" where
  "acquire c s = set_used c (\<lambda>n. n + 1) s"

definition release :: "nat \<Rightarrow> pdf_store \<Rightarrow> pdf_store" where
  "release c s = set_used c (\<lambda>n. n - 1) s"

section \<open>Rendering\<close>

text \<open>The settings the default generator receives, and the page.\<close>

record generator_settings =
  g_Dpi :: nat
  g_PageSize :: string
  g_Orientation :: string
  g_Margins :: "nat \<times> nat \<times> nat \<times> nat"
  g_Title :: "string option"

record page =
  pg_html :: string
  pg_EnableLocalFileAccess :: bool
  pg_Encoding :: string

definition defaultGenerator :: "goerr option \<Rightarrow> Options \<Rightarrow> goerr + generator_settings" where
  "defaultGenerator NewPDFGenerator_err opts =
     (case NewPDFGenerator_err of
        Some err \<Rightarrow> Inl (Foreign (sentinel_msg ErrNoRendererAvailable @ '': '' @ err_msg err) []
                            [Sentinel ErrNoRendererAvailable, err])
      | None \<Rightarrow> Inr \<lparr>g_Dpi = DPI opts, g_PageSize = PageSize opts, g_Orientation = Orientation opts,
                    g_Margins = (MarginTop opts, MarginBottom opts, MarginLeft opts, MarginRight opts),
                    g_Title = (if opt_Title opts \<noteq> [] then Some (opt_Title opts) else None)\<rparr>)"

definition the_context :: "Options \<Rightarrow> context_state" where
  "the_context opts = (case Context opts of None \<Rightarrow> background | Some c \<Rightarrow> c)"

text \<open>A generator, as an interface over its state; whether it has \<open>CreateContext\<close> is asked at run time.\<close>

record 'g pdfGenerator =
  AddPage :: "page \<Rightarrow> 'g \<Rightarrow> 'g"
  Create :: "'g \<Rightarrow> goerr option \<times> 'g"
  CreateContext :: "(context_state \<Rightarrow> 'g \<Rightarrow> goerr option \<times> 'g) option"
  Bytes :: "'g \<Rightarrow> string"

text \<open>The generator of the wkhtmltopdf library, given by its four methods, behind that interface.\<close>

definition wkhtmlGenerator ::
  "(page \<Rightarrow> 'g \<Rightarrow> 'g) \<Rightarrow> ('g \<Rightarrow> goerr option \<times> 'g) \<Rightarrow> (context_state \<Rightarrow> 'g \<Rightarrow> goerr option \<times> 'g)
    \<Rightarrow> ('g \<Rightarrow> string) \<Rightarrow> 'g pdfGenerator" where
  "wkhtmlGenerator lib_AddPage lib_Create lib_CreateContext lib_Bytes =
     \<lparr>AddPage = (\<lambda>p w. lib_AddPage p w), Create = (\<lambda>w. lib_Create w),
      CreateContext = Some (\<lambda>ctx w. lib_CreateContext ctx w), Bytes = (\<lambda>w. lib_Bytes w)\<rparr>"

text \<open>\<open>Render\<close> with the token in hand: \<open>factory\<close> is the generator factory.\<close>

definition render_page ::
  "'g pdfGenerator \<Rightarrow> (Options \<Rightarrow> goerr + 'g) \<Rightarrow> string \<Rightarrow> Options \<Rightarrow> goerr + string" where
  "render_page gen factory html opts =
     (case factory opts of
        Inl err \<Rightarrow> Inl err
      | Inr pdfg \<Rightarrow>
          (let page = \<lparr>pg_html = html, pg_EnableLocalFileAccess = EnableLocalFileAccess opts, pg_Encoding = ''UTF-8''\<rparr>;
               pdfg = AddPage gen page pdfg
           in case (case CreateContext gen of Some cp \<Rightarrow> cp (the_context opts) pdfg | None \<Rightarrow> Create gen pdfg) of
                (Some err, pdfg) \<Rightarrow> Inl (Wrapf ''failed to render pdf: '' err [])
              | (None, pdfg) \<Rightarrow> Inr (Bytes gen pdfg)))"

text \<open>\<open>Render\<close> as one call sees it: \<open>select_sem\<close> is the outcome of the select statement, the context's
  error or nil with the token taken, on the store as other calls left it meanwhile.\<close>

definition Render ::
  "(nat option \<Rightarrow> pdf_store \<Rightarrow> goerr option \<times> pdf_store) \<Rightarrow> 'g pdfGenerator \<Rightarrow> (Options \<Rightarrow> goerr + 'g)
    \<Rightarrow> nat \<Rightarrow> string \<Rightarrow> Options \<Rightarrow> pdf_store \<Rightarrow> (goerr + string) \<times> pdf_store" where
  "Render select_sem gen factory w html opts s =
     (case ctx_err (the_context opts) of
        Some err \<Rightarrow> (Inl err, s)
      | None \<Rightarrow>
          (case getSemaphore w opts s of
             (c, s) \<Rightarrow>
               (case select_sem c s of
                  (Some err, s) \<Rightarrow> (Inl err, s)
                | (None, s) \<Rightarrow> (render_page gen factory html opts, release (the c) s))))"

section \<open>Generating\<close>

text \<open>Renderer 0 of a store is the package's default renderer.\<close>

definition initial_store :: pdf_store where
  "initial_store = snd (NewWkhtmlRenderer [DefaultMaxConcurrency] \<lparr>chans = [], renderers = []\<rparr>)"

definition config_of :: "Option list \<Rightarrow> Options" where
  "config_of opts = foldl (\<lambda>config opt. opt config) DefaultOptions opts"

definition select_renderer :: "Options \<Rightarrow> pdf_store \<Rightarrow> Renderer \<times> pdf_store" where
  "select_renderer config s =
     (case renderer config of
        Some r \<Rightarrow> (r, s)
      | None \<Rightarrow>
          if MaxConcurrency config > 0 \<and> MaxConcurrency config \<noteq> DefaultMaxConcurrency
          then (case NewWkhtmlRenderer [MaxConcurrency config] s of (w, s) \<Rightarrow> (Wkhtml w, s))
          else (Wkhtml 0, s))"

text \<open>What \<open>Generate\<close> uses: rendering by a wkhtmltopdf renderer (\<^const>\<open>Render\<close>) and by others.\<close>

record render_env =
  re_Render :: "nat \<Rightarrow> string \<Rightarrow> Options \<Rightarrow> pdf_store \<Rightarrow> (goerr + string) \<times> pdf_store"
  re_Custom :: "nat \<Rightarrow> string \<Rightarrow> Options \<Rightarrow> goerr + string"

definition Generate :: "render_env \<Rightarrow> string \<Rightarrow> Option list \<Rightarrow> pdf_store \<Rightarrow> (goerr + string) \<times> pdf_store" where
  "Generate env html opts s =
     (let config = config_of opts
      in case select_renderer config s of
           (Wkhtml w, s) \<Rightarrow> re_Render env w html config s
         | (Custom r, s) \<Rightarrow> (re_Custom env r html config, s))"

definition GenerateWithContext ::
  "render_env \<Rightarrow> context_state option \<Rightarrow> string \<Rightarrow> Option list \<Rightarrow> pdf_store \<Rightarrow> (goerr + string) \<times> pdf_store" where
  "GenerateWithContext env ctx html opts s = Generate env html (WithContext ctx # opts) s"

text \<open>The template engine: parsing a template, and executing the result on data.\<close>

definition RenderTemplate :: "(string \<Rightarrow> goerr + ('d \<Rightarrow> goerr + string)) \<Rightarrow> string \<Rightarrow> 'd \<Rightarrow> goerr + string" where
  "RenderTemplate parse tmplStr data =
     (case parse tmplStr of
        Inl err \<Rightarrow> Inl (Wrapf ''failed to parse template: '' err [])
      | Inr tmpl \<Rightarrow>
          (case tmpl data of
             Inl err \<Rightarrow> Inl (Wrapf ''failed to execute template: '' err [])
           | Inr html \<Rightarrow> Inr html))"

definition GenerateFromTemplate ::
  "render_env \<Rightarrow> (string \<Rightarrow> goerr + ('d \<Rightarrow> goerr + string)) \<Rightarrow> string \<Rightarrow> 'd \<Rightarrow> Option list \<Rightarrow> pdf_store
    \<Rightarrow> (goerr + string) \<times> pdf_store" where
  "GenerateFromTemplate env parse tmplStr data opts s =
     (case RenderTemplate parse tmplStr data of
        Inl err \<Rightarrow> (Inl err, s)
      | Inr rendered \<Rightarrow> Generate env rendered opts s)"

definition GenerateFromTemplateWithContext ::
  "render_env \<Rightarrow> (string \<Rightarrow> goerr + ('d \<Rightarrow> goerr + string)) \<Rightarrow> context_state option \<Rightarrow> string \<Rightarrow> 'd \<Rightarrow> Option list
    \<Rightarrow> pdf_store \<Rightarrow> (goerr + string) \<times> pdf_store" where
  "GenerateFromTemplateWithContext env parse ctx tmplStr data opts s =
     (case RenderTemplate parse tmplStr data of
        Inl err \<Rightarrow> (Inl err, s)
      | Inr rendered \<Rightarrow> GenerateWithContext env ctx rendered opts s)"

section \<open>Calls that run at the same time\<close>

datatype phase = Waiting "nat option" | Running nat | Finished

record call =
  cl_opts :: Options
  cl_phase :: phase

record psys =
  ps_store :: pdf_store
  ps_calls :: "call list"

definition set_phase :: "nat \<Rightarrow> phase \<Rightarrow> call list \<Rightarrow> call list" where
  "set_phase i p cls = cls[i := (cls ! i)\<lparr>cl_phase := p\<rparr>]"

text \<open>The objects that options name exist: a program has no others.\<close>

definition valid_opts :: "pdf_store \<Rightarrow> Options \<Rightarrow> bool" where
  "valid_opts s o1 \<longleftrightarrow> (case opt_Semaphore o1 of None \<Rightarrow> True | Some c \<Rightarrow> c < length (chans s))
     \<and> (case renderer o1 of Some (Wkhtml w) \<Rightarrow> w < length (renderers s) | _ \<Rightarrow> True)"

text \<open>A call of \<open>Generate\<close> takes its renderer's semaphore, waits for a token or gives up when its context is
  done, renders, and puts the token back; meanwhile other calls do the same, and the program makes
  channels and renderers of its own, by the constructor or as a literal with or without a semaphore.\<close>

inductive pstep :: "psys \<Rightarrow> psys \<Rightarrow> bool" where
  call: "valid_opts (ps_store s) config \<Longrightarrow> config = config_of opts
    \<Longrightarrow> select_renderer config (ps_store s) = (Wkhtml w, s1) \<Longrightarrow> getSemaphore w config s1 = (c, s2)
    \<Longrightarrow> pstep s \<lparr>ps_store = s2, ps_calls = ps_calls s @ [\<lparr>cl_opts = config, cl_phase = Waiting c\<rparr>]\<rparr>"
| cancelled: "valid_opts (ps_store s) config \<Longrightarrow> config = config_of opts
    \<Longrightarrow> select_renderer config (ps_store s) = (r, s1)
    \<Longrightarrow> pstep s \<lparr>ps_store = s1, ps_calls = ps_calls s @ [\<lparr>cl_opts = config, cl_phase = Finished\<rparr>]\<rparr>"
| token: "i < length (ps_calls s) \<Longrightarrow> cl_phase (ps_calls s ! i) = Waiting (Some c) \<Longrightarrow> can_acquire c (ps_store s)
    \<Longrightarrow> pstep s \<lparr>ps_store = acquire c (ps_store s), ps_calls = set_phase i (Running c) (ps_calls s)\<rparr>"
| give_up: "i < length (ps_calls s) \<Longrightarrow> cl_phase (ps_calls s ! i) = Waiting c
    \<Longrightarrow> pstep s (s\<lparr>ps_calls := set_phase i Finished (ps_calls s)\<rparr>)"
| finish: "i < length (ps_calls s) \<Longrightarrow> cl_phase (ps_calls s ! i) = Running c
    \<Longrightarrow> pstep s \<lparr>ps_store = release c (ps_store s), ps_calls = set_phase i Finished (ps_calls s)\<rparr>"
| new_channel: "0 \<le> n \<Longrightarrow> pstep s (s\<lparr>ps_store := snd (make_chan n (ps_store s))\<rparr>)"
| new_renderer: "pstep s (s\<lparr>ps_store := snd (NewWkhtmlRenderer ns (ps_store s))\<rparr>)"
| literal_renderer: "(case c of None \<Rightarrow> True | Some d \<Rightarrow> d < length (chans (ps_store s)))
    \<Longrightarrow> pstep s (s\<lparr>ps_store := (ps_store s)\<lparr>renderers := renderers (ps_store s)
          @ [\<lparr>Semaphore = c, sem = None, semOnce = False\<rparr>]\<rparr>\<rparr>)"

definition psys_init :: psys where
  "psys_init = \<lparr>ps_store = initial_store, ps_calls = []\<rparr>"

end
