(* ===== verification/Pdf_Theorems.thy ===== *)
theory Pdf_Theorems
  imports Pdf
begin

text \<open>
  Properties of the PDF package: how many renderings run at the same time under each way of asking for a
  limit, and what one call does.
\<close>

section \<open>Tokens and running calls\<close>

definition running :: "nat \<Rightarrow> psys \<Rightarrow> nat" where
  "running c s = length (filter (\<lambda>cl. cl_phase cl = Running c) (ps_calls s))"

lemma filter_update:
  assumes "i < length xs"
  shows "length (filter P (xs[i := x])) + (if P (xs ! i) then 1 else 0) = length (filter P xs) + (if P x then 1 else 0)"
proof -
  have "length (filter P xs) = length (filter P (take i xs @ xs ! i # drop (Suc i) xs))"
    using id_take_nth_drop [OF assms] by simp
  then show ?thesis using assms by (simp add: upd_conv_take_nth_drop)
qed

text \<open>The options of a call that leaves renderer, semaphore and concurrency as they are.\<close>

definition default_limits :: "Options \<Rightarrow> bool" where
  "default_limits o1 \<longleftrightarrow> renderer o1 = None \<and> opt_Semaphore o1 = None \<and> MaxConcurrency o1 = DefaultMaxConcurrency"

definition call_ok :: "pdf_store \<Rightarrow> call \<Rightarrow> bool" where
  "call_ok st cl \<longleftrightarrow>
     (case cl_phase cl of Waiting (Some c) \<Rightarrow> c < length (chans st) | Running c \<Rightarrow> c < length (chans st) | _ \<Rightarrow> True)
     \<and> (default_limits (cl_opts cl) \<longrightarrow> cl_phase cl \<in> {Waiting (Some 0), Running 0, Finished})"

definition store_ok :: "pdf_store \<Rightarrow> bool" where
  "store_ok st \<longleftrightarrow>
     renderers st \<noteq> [] \<and> Semaphore (renderers st ! 0) = None \<and> sem (renderers st ! 0) = Some 0
     \<and> chans st \<noteq> [] \<and> capacity (chans st ! 0) = DefaultMaxConcurrency
     \<and> (\<forall>r\<in>set (renderers st). \<forall>c. sem r = Some c \<or> Semaphore r = Some c \<longrightarrow> c < length (chans st))
     \<and> (\<forall>ch\<in>set (chans st). used ch \<le> capacity ch)"

definition pdf_inv :: "psys \<Rightarrow> bool" where
  "pdf_inv s \<longleftrightarrow> store_ok (ps_store s) \<and> (\<forall>cl\<in>set (ps_calls s). call_ok (ps_store s) cl)
     \<and> (\<forall>c<length (chans (ps_store s)). used (chans (ps_store s) ! c) = int (running c s))
     \<and> (\<forall>c\<ge>length (chans (ps_store s)). running c s = 0)"

section \<open>The store operations\<close>

text \<open>A store that grew: more channels, empty ones, and renderers.\<close>

definition grown :: "pdf_store \<Rightarrow> pdf_store \<Rightarrow> bool" where
  "grown st st' \<longleftrightarrow> (\<exists>cs. chans st' = chans st @ cs \<and> (\<forall>ch\<in>set cs. used ch = 0 \<and> 0 \<le> capacity ch))"

lemma grown_refl [simp]: "grown st st"
  by (simp add: grown_def)

lemma grown_trans: "grown a b \<Longrightarrow> grown b c \<Longrightarrow> grown a c"
  by (fastforce simp: grown_def)

lemma store_ok_renderer_mono:
  "store_ok st \<Longrightarrow> grown st st' \<Longrightarrow> renderers st' = renderers st @ rs
    \<Longrightarrow> \<forall>r\<in>set rs. \<forall>c. sem r = Some c \<or> Semaphore r = Some c \<longrightarrow> c < length (chans st') \<Longrightarrow> store_ok st'"
  by (fastforce simp: store_ok_def grown_def nth_append)

lemma NewWkhtmlRenderer_ok:
  assumes "store_ok st" and "NewWkhtmlRenderer ns st = (w, st')"
  shows "store_ok st' \<and> grown st st' \<and> w < length (renderers st')"
proof -
  let ?n = "case ns of n # _ \<Rightarrow> if n > 0 then n else DefaultMaxConcurrency | [] \<Rightarrow> DefaultMaxConcurrency"
  have n: "0 \<le> ?n" by (simp add: DefaultMaxConcurrency_def split: list.split)
  have st': "chans st' = chans st @ [\<lparr>capacity = ?n, used = 0\<rparr>]"
    "renderers st' = renderers st @ [\<lparr>Semaphore = None, sem = Some (length (chans st)), semOnce = True\<rparr>]"
    "w = length (renderers st)"
    using assms(2) by (auto simp: NewWkhtmlRenderer_def make_chan_def Let_def)
  then have "grown st st'" using n by (simp add: grown_def)
  with store_ok_renderer_mono [OF assms(1) this st'(2)] st' show ?thesis by simp
qed

lemma select_renderer_ok:
  assumes "store_ok st" and "select_renderer config st = (r, st')"
  shows "store_ok st' \<and> grown st st' \<and> (\<forall>w. valid_opts st config \<and> r = Wkhtml w \<longrightarrow> w < length (renderers st'))
    \<and> (default_limits config \<longrightarrow> r = Wkhtml 0)"
proof (cases "renderer config")
  case (Some q)
  with assms show ?thesis by (auto simp: select_renderer_def valid_opts_def default_limits_def)
next
  case None
  show ?thesis
  proof (cases "MaxConcurrency config > 0 \<and> MaxConcurrency config \<noteq> DefaultMaxConcurrency")
    case True
    with None assms NewWkhtmlRenderer_ok [OF assms(1), of "[MaxConcurrency config]"] show ?thesis
      by (auto simp: select_renderer_def default_limits_def split: prod.splits)
  next
    case False
    with None assms have "r = Wkhtml 0" "st' = st" by (auto simp: select_renderer_def)
    with assms(1) show ?thesis by (auto simp: store_ok_def)
  qed
qed

lemma getSemaphore_ok:
  assumes "store_ok st" and "w < length (renderers st)" and "\<And>d. opt_Semaphore o1 = Some d \<Longrightarrow> d < length (chans st)"
    and "getSemaphore w o1 st = (c, st')"
  shows "store_ok st' \<and> grown st st' \<and> (\<forall>d. c = Some d \<longrightarrow> d < length (chans st'))
    \<and> (default_limits o1 \<and> w = 0 \<longrightarrow> c = Some 0)"
proof -
  let ?r = "renderers st ! w"
  have r: "?r \<in> set (renderers st)" using assms(2) by simp
  show ?thesis
  proof (cases "Semaphore ?r \<noteq> None \<or> opt_Semaphore o1 \<noteq> None \<or> sem ?r \<noteq> None \<or> semOnce ?r")
    case True
    with assms have "st' = st" "Semaphore ?r = c \<or> opt_Semaphore o1 = c \<or> sem ?r = c"
      by (auto simp: getSemaphore_def Let_def split: if_splits)
    moreover have "default_limits o1 \<and> w = 0 \<longrightarrow> c = Some 0"
      using assms(1,4) by (auto simp: getSemaphore_def Let_def store_ok_def default_limits_def)
    ultimately show ?thesis using assms(1,3) r by (auto simp: store_ok_def)
  next
    case False
    let ?n = "if MaxConcurrency o1 \<le> 0 then DefaultMaxConcurrency else MaxConcurrency o1"
    from False assms(4) have c: "c = Some (length (chans st))"
      "chans st' = chans st @ [\<lparr>capacity = ?n, used = 0\<rparr>]"
      "renderers st' = (renderers st)[w := ?r\<lparr>sem := c, semOnce := True\<rparr>]"
      by (auto simp: getSemaphore_def Let_def make_chan_def)
    have n: "0 \<le> ?n" by (simp add: DefaultMaxConcurrency_def)
    have w0: "w \<noteq> 0" using False assms(1) by (cases "w = 0") (auto simp: store_ok_def)
    have "store_ok st'"
      unfolding store_ok_def
    proof (intro conjI)
      show "\<forall>r\<in>set (renderers st'). \<forall>d. sem r = Some d \<or> Semaphore r = Some d \<longrightarrow> d < length (chans st')"
      proof (intro ballI allI impI)
        fix q d assume q: "q \<in> set (renderers st')" "sem q = Some d \<or> Semaphore q = Some d"
        then have "q \<in> set (renderers st) \<or> q = ?r\<lparr>sem := c, semOnce := True\<rparr>"
          unfolding c(3) using set_update_subset_insert by fastforce
        with q(2) assms(1) r c(1,2) show "d < length (chans st')" by (fastforce simp: store_ok_def)
      qed
    qed (use assms(1) w0 n c in \<open>auto simp: store_ok_def nth_append\<close>)
    moreover have "grown st st'" using c n by (simp add: grown_def)
    ultimately show ?thesis using c w0 by simp
  qed
qed

section \<open>The invariant\<close>

lemma call_ok_grown: "call_ok st cl \<Longrightarrow> grown st st' \<Longrightarrow> call_ok st' cl"
  by (auto simp: call_ok_def grown_def split: phase.splits option.splits)

lemma inv_grown:
  assumes "pdf_inv s" and "store_ok st'" and "grown (ps_store s) st'"
    and "ps_calls s' = ps_calls s @ cls" and "ps_store s' = st'"
    and "\<forall>cl\<in>set cls. call_ok st' cl \<and> (\<forall>c. cl_phase cl \<noteq> Running c)"
  shows "pdf_inv s'"
proof -
  have run: "running c s' = running c s" for c
    using assms(4,6) by (auto simp: running_def filter_empty_conv)
  from assms(3) obtain cs where cs: "chans st' = chans (ps_store s) @ cs" "\<forall>ch\<in>set cs. used ch = 0"
    by (auto simp: grown_def)
  have "used (chans st' ! c) = int (running c s')" if "c < length (chans st')" for c
  proof (cases "c < length (chans (ps_store s))")
    case True
    with assms(1) cs show ?thesis by (simp add: run pdf_inv_def nth_append)
  next
    case False
    then have "cs ! (c - length (chans (ps_store s))) \<in> set cs" using that cs by simp
    with False assms(1) cs show ?thesis by (simp add: run pdf_inv_def nth_append)
  qed
  with assms run show ?thesis
    unfolding pdf_inv_def by (auto simp: cs(1) intro: call_ok_grown)
qed

lemma inv_token:
  assumes "pdf_inv s" and "i < length (ps_calls s)" and "c < length (chans (ps_store s))"
    and "used (chans (ps_store s) ! c) + d \<le> capacity (chans (ps_store s) ! c)"
    and "ps_store s' = set_used c (\<lambda>n. n + d) (ps_store s)" and "ps_calls s' = set_phase i p (ps_calls s)"
    and "call_ok (ps_store s) ((ps_calls s ! i)\<lparr>cl_phase := p\<rparr>)"
    and "\<And>e. int (running e s') = int (running e s) + (if e = c then d else 0)"
  shows "pdf_inv s'"
proof -
  have ch: "chans (ps_store s') = (chans (ps_store s))[c := (chans (ps_store s) ! c)\<lparr>used := used (chans (ps_store s) ! c) + d\<rparr>]"
    "renderers (ps_store s') = renderers (ps_store s)"
    using assms(5) by (simp_all add: set_used_def)
  have "store_ok (ps_store s')"
    unfolding store_ok_def
  proof (intro conjI)
    show "\<forall>x\<in>set (chans (ps_store s')). used x \<le> capacity x"
      unfolding ch(1) using assms(1,4) set_update_subset_insert
      by (fastforce simp: pdf_inv_def store_ok_def)
  qed (use assms(1,3) in \<open>auto simp: ch pdf_inv_def store_ok_def nth_list_update\<close>)
  moreover have "call_ok (ps_store s') cl" if "cl \<in> set (ps_calls s')" for cl
  proof -
    have "cl \<in> set (ps_calls s) \<or> cl = (ps_calls s ! i)\<lparr>cl_phase := p\<rparr>"
      using that set_update_subset_insert unfolding assms(6) set_phase_def by fastforce
    then have "call_ok (ps_store s) cl" using assms(1,7) by (auto simp: pdf_inv_def)
    then show ?thesis by (auto simp: call_ok_def ch split: phase.splits option.splits)
  qed
  moreover have "used (chans (ps_store s') ! e) = int (running e s')" if "e < length (chans (ps_store s'))" for e
    using that assms(1,3,8) by (simp add: ch pdf_inv_def nth_list_update)
  moreover have "running e s' = 0" if "length (chans (ps_store s')) \<le> e" for e
  proof -
    from that have "e \<noteq> c" "running e s = 0" using assms(1,3) by (auto simp: ch pdf_inv_def)
    with assms(8) [of e] show ?thesis by simp
  qed
  ultimately show ?thesis by (simp add: pdf_inv_def)
qed

lemma running_set_phase:
  assumes "i < length cls"
  shows "int (length (filter (\<lambda>cl. cl_phase cl = Running e) (set_phase i p cls)))
    = int (length (filter (\<lambda>cl. cl_phase cl = Running e) cls))
      + (if p = Running e then 1 else 0) - (if cl_phase (cls ! i) = Running e then 1 else 0)"
  using filter_update [OF assms, of "\<lambda>cl. cl_phase cl = Running e" "(cls ! i)\<lparr>cl_phase := p\<rparr>"]
  by (auto simp: set_phase_def split: if_splits)

lemma valid_opts_semaphore:
  "valid_opts st o1 \<Longrightarrow> grown st st' \<Longrightarrow> opt_Semaphore o1 = Some d \<Longrightarrow> d < length (chans st')"
  by (auto simp: valid_opts_def grown_def)

lemma used_capacity:
  assumes "store_ok st" and "c < length (chans st)"
  shows "used (chans st ! c) \<le> capacity (chans st ! c)"
proof -
  have "chans st ! c \<in> set (chans st)" using assms(2) by simp
  with assms(1) show ?thesis by (simp add: store_ok_def)
qed

lemma pstep_inv:
  assumes inv: "pdf_inv s" and "pstep s s'"
  shows "pdf_inv s'"
  using assms(2)
proof cases
  case (call config opts w s1 c s2)
  have st: "store_ok (ps_store s)" using inv by (simp add: pdf_inv_def)
  from select_renderer_ok [OF st call(4)] call(2) have s1: "store_ok s1" "grown (ps_store s) s1"
    "w < length (renderers s1)" "default_limits config \<longrightarrow> w = 0" by auto
  from getSemaphore_ok [OF s1(1,3) valid_opts_semaphore [OF call(2) s1(2)] call(5)]
  have s2: "store_ok s2" "grown s1 s2" "\<forall>d. c = Some d \<longrightarrow> d < length (chans s2)"
    "default_limits config \<and> w = 0 \<longrightarrow> c = Some 0" by blast+
  have "call_ok s2 \<lparr>cl_opts = config, cl_phase = Waiting c\<rparr>"
    using s2(3,4) s1(4) by (auto simp: call_ok_def split: option.split)
  then show ?thesis
    using inv_grown [OF inv s2(1) grown_trans [OF s1(2) s2(2)], of s' "[\<lparr>cl_opts = config, cl_phase = Waiting c\<rparr>]"]
    by (simp add: call(1))
next
  case (cancelled config opts r s1)
  have st: "store_ok (ps_store s)" using inv by (simp add: pdf_inv_def)
  from select_renderer_ok [OF st cancelled(4)] have "store_ok s1" "grown (ps_store s) s1" by auto
  then show ?thesis
    using inv_grown [OF inv, of s1 s' "[\<lparr>cl_opts = config, cl_phase = Finished\<rparr>]"]
    by (simp add: cancelled(1) call_ok_def)
next
  case (token i c)
  let ?cl = "ps_calls s ! i"
  have ok: "call_ok (ps_store s) ?cl" using inv token(2) by (simp add: pdf_inv_def)
  then have c: "c < length (chans (ps_store s))" using token(3) by (simp add: call_ok_def)
  have r: "int (running e s') = int (running e s) + (if e = c then 1 else 0)" for e
    using running_set_phase [OF token(2), of e "Running c"] token(1,3) by (simp add: running_def)
  have k: "call_ok (ps_store s) (?cl\<lparr>cl_phase := Running c\<rparr>)"
    using ok c token(3) by (auto simp: call_ok_def)
  show ?thesis
    by (rule inv_token [OF inv token(2) c, of 1 s' "Running c"])
       (use token r k in \<open>simp_all add: can_acquire_def acquire_def\<close>)
next
  case (give_up i c)
  let ?cl = "ps_calls s ! i"
  have run: "running e s' = running e s" for e
    using running_set_phase [OF give_up(2), of e Finished] give_up(1,3) by (simp add: running_def)
  have "cl \<in> set (ps_calls s) \<or> cl = ?cl\<lparr>cl_phase := Finished\<rparr>" if "cl \<in> set (ps_calls s')" for cl
    using that set_update_subset_insert unfolding give_up(1) set_phase_def by fastforce
  moreover have "call_ok (ps_store s) (?cl\<lparr>cl_phase := Finished\<rparr>)" by (simp add: call_ok_def)
  moreover have "call_ok (ps_store s) cl" if "cl \<in> set (ps_calls s)" for cl
    using that inv by (simp add: pdf_inv_def)
  ultimately have "call_ok (ps_store s) cl" if "cl \<in> set (ps_calls s')" for cl
    using that by blast
  with inv run give_up(1) show ?thesis by (simp add: pdf_inv_def)
next
  case (finish i c)
  let ?cl = "ps_calls s ! i"
  have ok: "call_ok (ps_store s) ?cl" using inv finish(2) by (simp add: pdf_inv_def)
  then have c: "c < length (chans (ps_store s))" using finish(3) by (simp add: call_ok_def)
  have r: "int (running e s') = int (running e s) + (if e = c then - 1 else 0)" for e
    using running_set_phase [OF finish(2), of e Finished] finish(1,3) by (simp add: running_def)
  have k: "call_ok (ps_store s) (?cl\<lparr>cl_phase := Finished\<rparr>)" by (simp add: call_ok_def)
  have u: "used (chans (ps_store s) ! c) \<le> capacity (chans (ps_store s) ! c)"
    using inv by (intro used_capacity [OF _ c]) (simp add: pdf_inv_def)
  show ?thesis
    by (rule inv_token [OF inv finish(2) c, of "- 1" s' Finished])
       (use finish r k u in \<open>simp_all add: release_def\<close>)
next
  case (new_channel n)
  have st: "store_ok (ps_store s)" using inv by (simp add: pdf_inv_def)
  have g: "grown (ps_store s) (ps_store s')" using new_channel by (simp add: make_chan_def grown_def)
  have "store_ok (ps_store s')"
    by (rule store_ok_renderer_mono [OF st g, of "[]"]) (simp_all add: new_channel make_chan_def)
  with g show ?thesis using inv_grown [OF inv, of "ps_store s'" s' "[]"] new_channel by simp
next
  case (new_renderer ns)
  have st: "store_ok (ps_store s)" using inv by (simp add: pdf_inv_def)
  obtain w st' where n: "NewWkhtmlRenderer ns (ps_store s) = (w, st')" by fastforce
  from NewWkhtmlRenderer_ok [OF st this] show ?thesis
    using inv_grown [OF inv, of st' s' "[]"] new_renderer n by simp
next
  case (literal_renderer c)
  have "store_ok (ps_store s')" "grown (ps_store s) (ps_store s')"
    using inv literal_renderer by (auto simp: pdf_inv_def store_ok_def nth_append grown_def split: option.splits)
  then show ?thesis using inv_grown [OF inv, of "ps_store s'" s' "[]"] literal_renderer by simp
qed

lemma init_inv: "pdf_inv psys_init"
  by (simp add: pdf_inv_def psys_init_def initial_store_def NewWkhtmlRenderer_def make_chan_def Let_def
      store_ok_def running_def DefaultMaxConcurrency_def)

lemma reachable_inv: "pstep\<^sup>*\<^sup>* psys_init s \<Longrightarrow> pdf_inv s"
  by (induction rule: rtranclp_induct) (auto intro: init_inv pstep_inv)

text \<open>C12. Concurrency is bounded per semaphore: however calls come and go, with whatever options, at most
  as many renderings hold a channel's token as the channel has room for, and so at most ten renderings
  run at the same time among all the calls that leave renderer, semaphore and concurrency at their
  defaults.\<close>

theorem pdf_concurrency_bounded:
  assumes "pstep\<^sup>*\<^sup>* psys_init s"
  shows "length (filter (\<lambda>cl. default_limits (cl_opts cl) \<and> (\<exists>c. cl_phase cl = Running c)) (ps_calls s)) \<le> 10
    \<and> (\<forall>c<length (chans (ps_store s)). int (running c s) \<le> capacity (chans (ps_store s) ! c))"
proof -
  have inv: "pdf_inv s" by (rule reachable_inv [OF assms])
  then have st: "store_ok (ps_store s)" by (simp add: pdf_inv_def)
  have b: "int (running c s) \<le> capacity (chans (ps_store s) ! c)" if "c < length (chans (ps_store s))" for c
    using used_capacity [OF st that] inv that by (simp add: pdf_inv_def)
  have "filter (\<lambda>cl. default_limits (cl_opts cl) \<and> (\<exists>c. cl_phase cl = Running c)) (ps_calls s)
      = filter (\<lambda>cl. default_limits (cl_opts cl)) (filter (\<lambda>cl. cl_phase cl = Running 0) (ps_calls s))"
    unfolding filter_filter using inv by (intro filter_cong) (auto simp: pdf_inv_def call_ok_def)
  then have "length (filter (\<lambda>cl. default_limits (cl_opts cl) \<and> (\<exists>c. cl_phase cl = Running c)) (ps_calls s)) \<le> running 0 s"
    unfolding running_def by (simp only: length_filter_le)
  moreover have "int (running 0 s) \<le> 10"
    using b [of 0] st by (simp add: store_ok_def DefaultMaxConcurrency_def)
  ultimately show ?thesis using b by auto
qed

section \<open>A limit of one's own\<close>

text \<open>One call with a limit, up to the moment it renders.\<close>

lemma limited_call_runs:
  assumes "0 < n" and "n \<noteq> DefaultMaxConcurrency"
  shows "\<exists>st c. pstep\<^sup>*\<^sup>* s \<lparr>ps_store = st, ps_calls = ps_calls s
    @ [\<lparr>cl_opts = config_of [WithMaxConcurrency n], cl_phase = Running c\<rparr>]\<rparr>"
proof -
  let ?o = "config_of [WithMaxConcurrency n]"
  let ?st = "ps_store s"
  obtain w s1 where sel: "select_renderer ?o ?st = (Wkhtml w, s1)"
    "s1 = ?st\<lparr>chans := chans ?st @ [\<lparr>capacity = n, used = 0\<rparr>],
        renderers := renderers ?st @ [\<lparr>Semaphore = None, sem = Some (length (chans ?st)), semOnce = True\<rparr>]\<rparr>"
    "w = length (renderers ?st)"
    using assms by (simp add: select_renderer_def config_of_def WithMaxConcurrency_def DefaultOptions_def
        NewWkhtmlRenderer_def make_chan_def)
  have g: "getSemaphore w ?o s1 = (Some (length (chans ?st)), s1)"
    by (simp add: getSemaphore_def sel Let_def nth_append config_of_def WithMaxConcurrency_def DefaultOptions_def)
  have v: "valid_opts ?st ?o"
    by (simp add: valid_opts_def config_of_def WithMaxConcurrency_def DefaultOptions_def)
  let ?s1 = "\<lparr>ps_store = s1, ps_calls = ps_calls s @ [\<lparr>cl_opts = ?o, cl_phase = Waiting (Some (length (chans ?st)))\<rparr>]\<rparr>"
  have 1: "pstep s ?s1" by (rule pstep.call [OF v refl sel(1) g])
  have a: "can_acquire (length (chans ?st)) s1" using assms(1) by (simp add: can_acquire_def sel(2) nth_append)
  have "pstep ?s1 \<lparr>ps_store = acquire (length (chans ?st)) (ps_store ?s1),
      ps_calls = set_phase (length (ps_calls s)) (Running (length (chans ?st))) (ps_calls ?s1)\<rparr>"
    by (rule pstep.token) (use a in \<open>simp_all add: nth_append\<close>)
  then have "pstep ?s1 \<lparr>ps_store = acquire (length (chans ?st)) s1,
      ps_calls = ps_calls s @ [\<lparr>cl_opts = ?o, cl_phase = Running (length (chans ?st))\<rparr>]\<rparr>"
    by (simp add: set_phase_def nth_append)
  with 1 show ?thesis by (meson converse_rtranclp_into_rtranclp r_into_rtranclp)
qed

text \<open>C40. \<open>WithMaxConcurrency\<close> bounds nothing across calls: each call with a limit other than ten makes a
  renderer and a semaphore of its own, so for every number there is a run in which that many calls with
  the limit \<open>n\<close> (one, say) render at the same time.\<close>

theorem pdf_own_limit_is_no_bound:
  assumes "0 < n" and "n \<noteq> DefaultMaxConcurrency"
  shows "\<exists>s. pstep\<^sup>*\<^sup>* psys_init s \<and> length (ps_calls s) = k
    \<and> list_all (\<lambda>cl. cl_opts cl = config_of [WithMaxConcurrency n] \<and> (\<exists>c. cl_phase cl = Running c)) (ps_calls s)"
proof (induction k)
  case 0
  show ?case by (intro exI [of _ psys_init]) (simp add: psys_init_def)
next
  case (Suc k)
  then obtain s where s: "pstep\<^sup>*\<^sup>* psys_init s" "length (ps_calls s) = k"
    "list_all (\<lambda>cl. cl_opts cl = config_of [WithMaxConcurrency n] \<and> (\<exists>c. cl_phase cl = Running c)) (ps_calls s)"
    by blast
  from limited_call_runs [OF assms, of s] obtain st c where
    r: "pstep\<^sup>*\<^sup>* s \<lparr>ps_store = st, ps_calls = ps_calls s
      @ [\<lparr>cl_opts = config_of [WithMaxConcurrency n], cl_phase = Running c\<rparr>]\<rparr>" by blast
  from rtranclp_trans [OF s(1) r] s(2,3) show ?case by (intro exI conjI) (assumption, simp_all)
qed

theorem pdf_own_limit_is_no_bound_witness:
  "\<exists>s. pstep\<^sup>*\<^sup>* psys_init s \<and> length (ps_calls s) = 3
    \<and> list_all (\<lambda>cl. cl_opts cl = config_of [WithMaxConcurrency 1] \<and> (\<exists>c. cl_phase cl = Running c)) (ps_calls s)"
  using pdf_own_limit_is_no_bound [of 1 3] by (simp add: DefaultMaxConcurrency_def)

theorem pdf_concurrency_bounded_witness:
  "\<exists>s. pstep\<^sup>*\<^sup>* psys_init s \<and> ps_calls s = [\<lparr>cl_opts = config_of [], cl_phase = Waiting (Some 0)\<rparr>]
    \<and> int (running 0 s) \<le> 10"
proof -
  have o: "config_of [] = DefaultOptions" by (simp add: config_of_def)
  have v: "valid_opts initial_store DefaultOptions" by (simp add: valid_opts_def DefaultOptions_def)
  have sel: "select_renderer DefaultOptions initial_store = (Wkhtml 0, initial_store)"
    by (simp add: select_renderer_def DefaultOptions_def)
  have g: "getSemaphore 0 DefaultOptions initial_store = (Some 0, initial_store)" by code_simp
  let ?s = "\<lparr>ps_store = initial_store, ps_calls = [\<lparr>cl_opts = config_of [], cl_phase = Waiting (Some 0)\<rparr>]\<rparr>"
  have "pstep psys_init ?s"
    using pstep.call [of psys_init "config_of []" "[]" 0 initial_store "Some 0" initial_store] v sel g
    by (simp add: o psys_init_def)
  then have r: "pstep\<^sup>*\<^sup>* psys_init ?s" by (rule r_into_rtranclp)
  have "0 < length (chans (ps_store ?s))" "capacity (chans (ps_store ?s) ! 0) = 10" by code_simp+
  with pdf_concurrency_bounded [OF r] have "int (running 0 ?s) \<le> 10" by force
  with r show ?thesis by (intro exI [of _ ?s]) simp
qed

end
