(* ===== verification/Invoice_Service.thy ===== *)
theory Invoice_Service
  imports Outbox_Event Audit_Event Notif_Types
begin

text \<open>
  \<^verbatim>\<open>examples/invoice_service/service.go\<close>: the reference service that ties the packages together.  It
  validates a request, computes the amounts, makes the document, and records the invoice in the audit
  trail, the outbox and a notification.  The fintech library (validation, money, formatting), float64
  rates, the clock's date texts and the package interfaces the service holds are parameters; the world
  they act on is threaded through.
\<close>

section \<open>The fintech library and the rates\<close>

record ('m, 'f) fintech =
  ValidateGSTIN :: "string \<Rightarrow> goerr option"
  ValidateIFSC :: "string \<Rightarrow> goerr option"
  StateCode :: "string \<Rightarrow> string"
  StateName :: "string \<Rightarrow> string"
  ExtractPAN :: "string \<Rightarrow> string"
  ToUpper :: "string \<Rightarrow> string"
  FormatINR :: "int64 \<Rightarrow> string"
  InWords :: "'m \<Rightarrow> string"
  FYLabel :: string
  zero_money :: 'm
  Add :: "'m \<Rightarrow> 'm \<Rightarrow> 'm"
  Mul :: "'m \<Rightarrow> int64 \<Rightarrow> 'm"
  Paise :: "'m \<Rightarrow> int64"
  NewMoney :: "int64 \<Rightarrow> 'm"
  rate_zero :: "'f \<Rightarrow> bool"
  rate_pos :: "'f \<Rightarrow> bool"
  round_percent :: "int64 \<Rightarrow> 'f \<Rightarrow> int64"

definition money_zero :: "('m, 'f) fintech \<Rightarrow> 'm \<Rightarrow> bool" where
  "money_zero ft m \<longleftrightarrow> Paise ft m = 0"

definition formatMoney :: "('m, 'f) fintech \<Rightarrow> 'm \<Rightarrow> string" where
  "formatMoney ft m = FormatINR ft (Paise ft m)"

text \<open>\<open>round_percent p rate\<close> is \<open>int64(math.Round(float64(p) * (rate / 100.0)))\<close>.\<close>

definition percentageMoney :: "('m, 'f) fintech \<Rightarrow> 'm \<Rightarrow> 'f \<Rightarrow> 'm" where
  "percentageMoney ft m rate = NewMoney ft (round_percent ft (Paise ft m) rate)"

record gstinDetails =
  gd_GSTIN :: string
  gd_StateCode :: string
  gd_StateName :: string
  gd_PAN :: string

definition parseGSTIN :: "('m, 'f) fintech \<Rightarrow> string \<Rightarrow> gstinDetails" where
  "parseGSTIN ft gstin =
     (let clean = ToUpper ft (TrimSpace gstin); stateCode = StateCode ft clean
      in \<lparr>gd_GSTIN = clean, gd_StateCode = stateCode, gd_StateName = StateName ft stateCode,
          gd_PAN = ExtractPAN ft clean\<rparr>)"

section \<open>Requests and line items\<close>

record ('m, 'f) InvoiceItem =
  Index :: int
  it_Description :: string
  HSN :: string
  Quantity :: int
  UnitPrice :: 'm
  it_TaxableAmount :: 'm
  it_CGSTRate :: 'f
  CGSTAmount :: 'm
  it_SGSTRate :: 'f
  SGSTAmount :: 'm
  TotalAmount :: 'm

record ('m, 'f, 'h) InvoiceRequest =
  Tx :: "'h option"
  InvoiceNumber :: string
  SupplierGSTIN :: string
  SupplierName :: string
  BuyerGSTIN :: string
  BuyerName :: string
  BuyerEmail :: string
  rq_Description :: string
  rq_TaxableAmount :: 'm
  rq_CGSTRate :: 'f
  rq_SGSTRate :: 'f
  BankIFSC :: string
  BankAccount :: string
  BankName :: string
  Branch :: string
  Items :: "('m, 'f) InvoiceItem list"

text \<open>The body of the items loop: position \<open>i\<close> counts from zero; the result is the item with every
  missing value filled in.\<close>

definition complete_item ::
  "('m, 'f) fintech \<Rightarrow> ('m, 'f, 'h) InvoiceRequest \<Rightarrow> nat \<Rightarrow> ('m, 'f) InvoiceItem \<Rightarrow> ('m, 'f) InvoiceItem" where
  "complete_item ft req i item =
     (let idx = (if Index item \<le> 0 then int i + 1 else Index item);
          qty = (if Quantity item \<le> 0 then 1 else Quantity item);
          itemTaxable = (if money_zero ft (it_TaxableAmount item) \<and> \<not> money_zero ft (UnitPrice item)
                         then Mul ft (UnitPrice item) (word_of_int qty) else it_TaxableAmount item);
          cgstRate = (if rate_zero ft (it_CGSTRate item) \<and> \<not> rate_zero ft (rq_CGSTRate req)
                      then rq_CGSTRate req else it_CGSTRate item);
          sgstRate = (if rate_zero ft (it_SGSTRate item) \<and> \<not> rate_zero ft (rq_SGSTRate req)
                      then rq_SGSTRate req else it_SGSTRate item);
          itemCGST = (if money_zero ft (CGSTAmount item) \<and> rate_pos ft cgstRate
                      then percentageMoney ft itemTaxable cgstRate else CGSTAmount item);
          itemSGST = (if money_zero ft (SGSTAmount item) \<and> rate_pos ft sgstRate
                      then percentageMoney ft itemTaxable sgstRate else SGSTAmount item);
          itemTotal = (if money_zero ft (TotalAmount item) then Add ft (Add ft itemTaxable itemCGST) itemSGST
                       else TotalAmount item)
      in \<lparr>Index = idx, it_Description = (if it_Description item = [] then rq_Description req else it_Description item),
          HSN = (if HSN item = [] then ''998313'' else HSN item), Quantity = qty,
          UnitPrice = (if money_zero ft (UnitPrice item) then itemTaxable else UnitPrice item),
          it_TaxableAmount = itemTaxable, it_CGSTRate = cgstRate, CGSTAmount = itemCGST,
          it_SGSTRate = sgstRate, SGSTAmount = itemSGST, TotalAmount = itemTotal\<rparr>)"

record 'm totals =
  taxableMoney :: 'm
  cgstMoney :: 'm
  sgstMoney :: 'm

fun item_loop ::
  "('m, 'f) fintech \<Rightarrow> ('m, 'f, 'h) InvoiceRequest \<Rightarrow> nat \<Rightarrow> ('m, 'f) InvoiceItem list
    \<Rightarrow> 'm totals \<times> ('m, 'f) InvoiceItem list \<Rightarrow> 'm totals \<times> ('m, 'f) InvoiceItem list" where
  "item_loop ft req i [] acc = acc"
| "item_loop ft req i (item # rest) (t, items) =
     (let it = complete_item ft req i item
      in item_loop ft req (Suc i) rest
           (\<lparr>taxableMoney = Add ft (taxableMoney t) (it_TaxableAmount it),
             cgstMoney = Add ft (cgstMoney t) (CGSTAmount it),
             sgstMoney = Add ft (sgstMoney t) (SGSTAmount it)\<rparr>, items @ [it]))"

text \<open>The amounts and the lines of an invoice, with or without line items in the request.\<close>

definition invoice_lines ::
  "('m, 'f) fintech \<Rightarrow> ('m, 'f, 'h) InvoiceRequest \<Rightarrow> 'm totals \<times> ('m, 'f) InvoiceItem list" where
  "invoice_lines ft req =
     (if Items req \<noteq> []
      then item_loop ft req 0 (Items req)
             (\<lparr>taxableMoney = zero_money ft, cgstMoney = zero_money ft, sgstMoney = zero_money ft\<rparr>, [])
      else let taxable = rq_TaxableAmount req;
               cgst = percentageMoney ft taxable (rq_CGSTRate req);
               sgst = percentageMoney ft taxable (rq_SGSTRate req)
           in (\<lparr>taxableMoney = taxable, cgstMoney = cgst, sgstMoney = sgst\<rparr>,
               [\<lparr>Index = 1, it_Description = rq_Description req, HSN = ''998313'', Quantity = 1, UnitPrice = taxable,
                 it_TaxableAmount = taxable, it_CGSTRate = rq_CGSTRate req, CGSTAmount = cgst,
                 it_SGSTRate = rq_SGSTRate req, SGSTAmount = sgst,
                 TotalAmount = Add ft (Add ft taxable cgst) sgst\<rparr>]))"

definition totalMoney :: "('m, 'f) fintech \<Rightarrow> 'm totals \<Rightarrow> 'm" where
  "totalMoney ft t = Add ft (Add ft (taxableMoney t) (cgstMoney t)) (sgstMoney t)"

section \<open>Template data\<close>

datatype 'f tval =
    TStr string | TInt int | TRate 'f | TBool bool | TMap "(string \<times> 'f tval) list" | TList "'f tval list"

definition item_data :: "('m, 'f) fintech \<Rightarrow> ('m, 'f) InvoiceItem \<Rightarrow> 'f tval" where
  "item_data ft it = TMap
     [(''Index'', TInt (Index it)), (''Description'', TStr (it_Description it)), (''HSN'', TStr (HSN it)),
      (''Quantity'', TInt (Quantity it)), (''UnitPrice'', TStr (formatMoney ft (UnitPrice it))),
      (''TaxableAmount'', TStr (formatMoney ft (it_TaxableAmount it))), (''CGSTRate'', TRate (it_CGSTRate it)),
      (''CGSTAmount'', TStr (formatMoney ft (CGSTAmount it))), (''SGSTRate'', TRate (it_SGSTRate it)),
      (''SGSTAmount'', TStr (formatMoney ft (SGSTAmount it))), (''TotalAmount'', TStr (formatMoney ft (TotalAmount it)))]"

text \<open>\<open>day\<close> is the text of a date, \<open>now\<close> the clock; the three reads of the clock are taken as one.\<close>

definition templateData ::
  "('m, 'f) fintech \<Rightarrow> (gotime \<Rightarrow> string) \<Rightarrow> gotime \<Rightarrow> ('m, 'f, 'h) InvoiceRequest \<Rightarrow> 'f tval" where
  "templateData ft day now req =
     (let supplier = parseGSTIN ft (SupplierGSTIN req); buyer = parseGSTIN ft (BuyerGSTIN req)
      in case invoice_lines ft req of (t, items) \<Rightarrow> TMap
        [(''InvoiceNumber'', TStr (InvoiceNumber req)), (''InvoiceDate'', TStr (day now)),
         (''DueDate'', TStr (day (now + 15 * 24 * 3600000000000))), (''PlaceOfSupply'', TStr (gd_StateName supplier)),
         (''ReverseCharge'', TBool False), (''IsInterState'', TBool False), (''PONumber'', TStr ''PO-REF-2026''),
         (''PODate'', TStr (day now)), (''PaymentTerms'', TStr ''Due on Receipt''), (''FinancialYear'', TStr (FYLabel ft)),
         (''Supplier'', TMap
            [(''Name'', TStr (SupplierName req)), (''Address'', TStr ''Bandra Kurla Complex, Mumbai''),
             (''GSTIN'', TStr (gd_GSTIN supplier)), (''StateName'', TStr (gd_StateName supplier)),
             (''StateCode'', TStr (gd_StateCode supplier)), (''PAN'', TStr (gd_PAN supplier)),
             (''Email'', TStr ''billing@supplier.com'')]),
         (''Customer'', TMap
            [(''Name'', TStr (BuyerName req)), (''Address'', TStr ''Cyber City, Gurugram, Haryana''),
             (''GSTIN'', TStr (gd_GSTIN buyer)), (''StateName'', TStr (gd_StateName buyer)),
             (''StateCode'', TStr (gd_StateCode buyer)), (''PAN'', TStr (gd_PAN buyer))]),
         (''Items'', TList (map (item_data ft) items)), (''SubTotal'', TStr (formatMoney ft (taxableMoney t))),
         (''TotalCGST'', TStr (formatMoney ft (cgstMoney t))), (''TotalSGST'', TStr (formatMoney ft (sgstMoney t))),
         (''GrandTotal'', TStr (formatMoney ft (totalMoney ft t))), (''AmountInWords'', TStr (InWords ft (totalMoney ft t))),
         (''BankDetails'', TMap
            [(''BankName'', TStr (BankName req)), (''AccountNumber'', TStr (BankAccount req)),
             (''IFSC'', TStr (BankIFSC req)), (''Branch'', TStr (Branch req))])])"

section \<open>The service\<close>

text \<open>The values of the audit state and of the event payload.\<close>

datatype inv_value = VNil | VStr string | VInt int64

definition audit_state :: "('m, 'f) fintech \<Rightarrow> ('m, 'f, 'h) InvoiceRequest \<Rightarrow> (string \<times> inv_value) list" where
  "audit_state ft req =
     (let total = totalMoney ft (fst (invoice_lines ft req))
      in [(''invoice_number'', VStr (InvoiceNumber req)), (''grand_total'', VStr (formatMoney ft total)),
          (''total_paise'', VInt (Paise ft total)), (''currency'', VStr ''INR''), (''buyer_gstin'', VStr (BuyerGSTIN req))])"

definition event_payload :: "('m, 'f) fintech \<Rightarrow> ('m, 'f, 'h) InvoiceRequest \<Rightarrow> (string \<times> inv_value) list" where
  "event_payload ft req =
     (let total = totalMoney ft (fst (invoice_lines ft req))
      in [(''invoice_number'', VStr (InvoiceNumber req)), (''grand_total'', VStr (formatMoney ft total)),
          (''total_paise'', VInt (Paise ft total)), (''currency'', VStr ''INR''), (''buyer_email'', VStr (BuyerEmail req))])"

text \<open>The bytes of the rupee sign in UTF-8.\<close>

definition rupee :: string where
  "rupee = [CHR 0xE2, CHR 0x82, CHR 0xB9]"

definition invoice_message :: "('m, 'f) fintech \<Rightarrow> ('m, 'f, 'h) InvoiceRequest \<Rightarrow> string \<Rightarrow> Message" where
  "invoice_message ft req pdf =
     \<lparr>ID = [], Title = ''Invoice '' @ InvoiceNumber req @ '' Ready'',
      Body = ''Dear '' @ BuyerName req @ '', your invoice for '' @ rq_Description req @ '' is ready. Total: '' @ rupee @ '' ''
             @ formatMoney ft (totalMoney ft (fst (invoice_lines ft req))),
      HTMLBody = [], msg_Priority = PriorityHigh, Channels = [ChannelEmail], Recipients = [BuyerEmail req],
      Metadata = [],
      Attachments = [\<lparr>Filename = InvoiceNumber req @ ''.pdf'', ContentType = ''application/pdf'', Data = pdf\<rparr>],
      CreatedAt = 0\<rparr>"

text \<open>What the service holds (recorder, store, broker, PDF options) and what a call takes from clock and
  UUID source, on a world \<open>'w\<close>; \<open>'h\<close> are the database handles.\<close>

record ('m, 'f, 'h, 'w) service =
  sv_fintech :: "('m, 'f) fintech"
  sv_Record :: "inv_value Event \<Rightarrow> 'w \<Rightarrow> goerr option \<times> 'w"
  sv_Insert :: "'h option \<Rightarrow> OutboxEvent \<Rightarrow> 'w \<Rightarrow> goerr option \<times> 'w"
  sv_SendAsync :: "Message \<Rightarrow> 'w \<Rightarrow> goerr option \<times> 'w"
  sv_Generate :: "'f tval \<Rightarrow> 'w \<Rightarrow> (goerr + string) \<times> 'w"
  sv_json :: "(string \<times> inv_value) list \<Rightarrow> goerr + string"
  sv_day :: "gotime \<Rightarrow> string"
  sv_now :: gotime
  sv_audit_id :: uuid
  sv_event_id :: uuid

definition validate_request :: "('m, 'f) fintech \<Rightarrow> ('m, 'f, 'h) InvoiceRequest \<Rightarrow> goerr option" where
  "validate_request ft req =
     (case ValidateGSTIN ft (SupplierGSTIN req) of
        Some err \<Rightarrow> Some (Wrapf ''invalid supplier GSTIN: '' err [])
      | None \<Rightarrow>
          (case ValidateGSTIN ft (BuyerGSTIN req) of
             Some err \<Rightarrow> Some (Wrapf ''invalid buyer GSTIN: '' err [])
           | None \<Rightarrow>
               (case ValidateIFSC ft (BankIFSC req) of
                  Some err \<Rightarrow> Some (Wrapf ''invalid bank IFSC: '' err [])
                | None \<Rightarrow> None)))"

definition invoice_audit_event :: "('m, 'f, 'h, 'w) service \<Rightarrow> audit_ctx \<Rightarrow> ('m, 'f, 'h) InvoiceRequest \<Rightarrow> inv_value Event" where
  "invoice_audit_event sv ctx req =
     (let st = audit_state (sv_fintech sv) req
      in Audit_Event.NewEvent (=) VNil (sv_audit_id sv) (sv_now sv) [] (map fst st) ctx
           ''INVOICE_GENERATED'' ''Invoice'' (InvoiceNumber req) None (Some (map_of st)))"

definition invoice_outbox_event :: "('m, 'f, 'h, 'w) service \<Rightarrow> ('m, 'f, 'h) InvoiceRequest \<Rightarrow> goerr + OutboxEvent" where
  "invoice_outbox_event sv req =
     Outbox_Event.NewEvent (sv_json sv) (sv_event_id sv) (sv_now sv) ''Invoice'' (InvoiceNumber req) ''InvoiceIssued''
       (event_payload (sv_fintech sv) req) []"

definition ProcessInvoice ::
  "('m, 'f, 'h, 'w) service \<Rightarrow> audit_ctx \<Rightarrow> 'h option \<Rightarrow> ('m, 'f, 'h) InvoiceRequest \<Rightarrow> 'w
    \<Rightarrow> (goerr + string) \<times> 'w" where
  "ProcessInvoice sv ctx tx req w =
     (let tx = (if tx = None \<and> Tx req \<noteq> None then Tx req else tx); ft = sv_fintech sv
      in case validate_request ft req of
           Some err \<Rightarrow> (Inl err, w)
         | None \<Rightarrow>
      (case sv_Generate sv (templateData ft (sv_day sv) (sv_now sv) req) w of
           (Inl err, w) \<Rightarrow> (Inl (Wrapf ''failed to compile invoice PDF: '' err []), w)
         | (Inr pdf, w) \<Rightarrow>
      (case sv_Record sv (invoice_audit_event sv ctx req) w of
           (Some err, w) \<Rightarrow> (Inl (Wrapf ''audit log recording failed: '' err []), w)
         | (None, w) \<Rightarrow>
      (case invoice_outbox_event sv req of
           Inl err \<Rightarrow> (Inl (Wrapf ''failed to create outbox event: '' err []), w)
         | Inr outboxEvt \<Rightarrow>
      (case sv_Insert sv tx outboxEvt w of
           (Some err, w) \<Rightarrow> (Inl (Wrapf ''outbox insert failed: '' err []), w)
         | (None, w) \<Rightarrow>
             (case sv_SendAsync sv (invoice_message ft req pdf) w of (_, w) \<Rightarrow> (Inr pdf, w)))))))"

end
