(* ===== verification/Invoice_Theorems.thy ===== *)
theory Invoice_Theorems
  imports Invoice_Service
begin

text \<open>
  Properties of the reference service: in which order an invoice takes effect and where it can stop, and
  that its grand total is the sum of its lines.
\<close>

section \<open>How a call ends\<close>

lemma the_operator:
  "(if tx = None \<and> Tx req \<noteq> None then Tx req else tx) = (if tx = None then Tx req else tx)"
  by simp

lemma process_cases:
  fixes sv :: "('m, 'f, 'h, 'w) service"
  defines "d req \<equiv> templateData (sv_fintech sv) (sv_day sv) (sv_now sv) req"
  assumes "ProcessInvoice sv ctx tx req w = (res, w')"
  obtains (invalid) err where "validate_request (sv_fintech sv) req = Some err" "res = Inl err" "w' = w"
  | (unrendered) err where "validate_request (sv_fintech sv) req = None" "sv_Generate sv (d req) w = (Inl err, w')"
      "res = Inl (Wrapf ''failed to compile invoice PDF: '' err [])"
  | (unaudited) pdf w1 err where "validate_request (sv_fintech sv) req = None"
      "sv_Generate sv (d req) w = (Inr pdf, w1)" "sv_Record sv (invoice_audit_event sv ctx req) w1 = (Some err, w')"
      "res = Inl (Wrapf ''audit log recording failed: '' err [])"
  | (unencoded) pdf w1 err where "validate_request (sv_fintech sv) req = None"
      "sv_Generate sv (d req) w = (Inr pdf, w1)" "sv_Record sv (invoice_audit_event sv ctx req) w1 = (None, w')"
      "invoice_outbox_event sv req = Inl err" "res = Inl (Wrapf ''failed to create outbox event: '' err [])"
  | (refused) pdf w1 w2 evt err where "validate_request (sv_fintech sv) req = None"
      "sv_Generate sv (d req) w = (Inr pdf, w1)" "sv_Record sv (invoice_audit_event sv ctx req) w1 = (None, w2)"
      "invoice_outbox_event sv req = Inr evt" "sv_Insert sv (if tx = None then Tx req else tx) evt w2 = (Some err, w')"
      "res = Inl (Wrapf ''outbox insert failed: '' err [])"
  | (issued) pdf w1 w2 evt w3 n where "validate_request (sv_fintech sv) req = None"
      "sv_Generate sv (d req) w = (Inr pdf, w1)" "sv_Record sv (invoice_audit_event sv ctx req) w1 = (None, w2)"
      "invoice_outbox_event sv req = Inr evt" "sv_Insert sv (if tx = None then Tx req else tx) evt w2 = (None, w3)"
      "sv_SendAsync sv (invoice_message (sv_fintech sv) req pdf) w3 = (n, w')" "res = Inr pdf"
proof (cases "validate_request (sv_fintech sv) req")
  case (Some err)
  with assms(2) invalid show thesis by (simp add: ProcessInvoice_def Let_def)
next
  case None
  note P = assms(2) [unfolded ProcessInvoice_def the_operator Let_def None option.case, folded d_def]
  obtain g w1 where g: "sv_Generate sv (d req) w = (g, w1)" by fastforce
  obtain a w2 where a: "sv_Record sv (invoice_audit_event sv ctx req) w1 = (a, w2)" by fastforce
  show thesis
  proof (cases g)
    case (Inl err)
    with P g unrendered [OF None] show thesis by simp
  next
    case g2: (Inr pdf)
    show thesis
    proof (cases a)
      case (Some err)
      with P g g2 a unaudited [OF None] show thesis by simp
    next
      case a2: None
      show thesis
      proof (cases "invoice_outbox_event sv req")
        case (Inl err)
        with P g g2 a a2 unencoded [OF None] show thesis by simp
      next
        case o2: (Inr evt)
        obtain i w3 where i: "sv_Insert sv (if tx = None then Tx req else tx) evt w2 = (i, w3)" by fastforce
        obtain n w4 where n: "sv_SendAsync sv (invoice_message (sv_fintech sv) req pdf) w3 = (n, w4)" by fastforce
        show thesis
        proof (cases i)
          case (Some err)
          show thesis by (rule refused [OF None]) (use P g g2 a a2 o2 i Some in auto)
        next
          case i2: None
          show thesis by (rule issued [OF None]) (use P g g2 a a2 o2 i i2 n in auto)
        qed
      qed
    qed
  qed
qed

section \<open>Effects in order\<close>

text \<open>What a service does to its surroundings, as a log of the calls it made.\<close>

datatype ('f, 'h) effect =
    Rendered "'f tval"
  | Audited "inv_value Event"
  | Enqueued "'h option" OutboxEvent
  | Notified Message

locale service_log =
  fixes sv :: "('m, 'f, 'h, 'w) service" and log :: "'w \<Rightarrow> ('f, 'h) effect list"
  assumes generate_log: "log (snd (sv_Generate sv d w)) = log w @ [Rendered d]"
    and record_log: "log (snd (sv_Record sv a w)) = log w @ [Audited a]"
    and insert_log: "log (snd (sv_Insert sv h e w)) = log w @ [Enqueued h e]"
    and notify_log: "log (snd (sv_SendAsync sv m w)) = log w @ [Notified m]"
begin

lemma generated: "sv_Generate sv d w = (r, w') \<Longrightarrow> log w' = log w @ [Rendered d]"
  using generate_log [of d w] by simp

lemma recorded: "sv_Record sv a w = (r, w') \<Longrightarrow> log w' = log w @ [Audited a]"
  using record_log [of a w] by simp

lemma inserted: "sv_Insert sv h e w = (r, w') \<Longrightarrow> log w' = log w @ [Enqueued h e]"
  using insert_log [of h e w] by simp

lemma notified: "sv_SendAsync sv m w = (r, w') \<Longrightarrow> log w' = log w @ [Notified m]"
  using notify_log [of m w] by simp

lemma process_effects:
  assumes "ProcessInvoice sv ctx tx req w = (res, w')"
  shows "\<exists>k pdf evt. k \<le> 4 \<and> log w' = log w @ take k
      [Rendered (templateData (sv_fintech sv) (sv_day sv) (sv_now sv) req), Audited (invoice_audit_event sv ctx req),
       Enqueued (if tx = None then Tx req else tx) evt, Notified (invoice_message (sv_fintech sv) req pdf)]
    \<and> (k = 0 \<longleftrightarrow> validate_request (sv_fintech sv) req \<noteq> None)
    \<and> (3 \<le> k \<longrightarrow> invoice_outbox_event sv req = Inr evt)
    \<and> (case res of Inl e \<Rightarrow> k < 4 | Inr p \<Rightarrow> k = 4 \<and> p = pdf)"
  using assms
proof (cases rule: process_cases)
  case (issued pdf w1 w2 evt w3 n)
  then show ?thesis
    by (intro exI [of _ 4] exI [of _ pdf] exI [of _ evt])
      (simp add: generated [OF issued(2)] recorded [OF issued(3)] inserted [OF issued(5)] notified [OF issued(6)])
next
  case (refused pdf w1 w2 evt err)
  then show ?thesis
    by (intro exI [of _ 3] exI [of _ pdf] exI [of _ evt])
      (simp add: generated [OF refused(2)] recorded [OF refused(3)] inserted [OF refused(5)])
next
  case (unencoded pdf w1 err)
  then show ?thesis
    by (intro exI [of _ 2]) (simp add: generated [OF unencoded(2)] recorded [OF unencoded(3)])
next
  case (unaudited pdf w1 err)
  then show ?thesis
    by (intro exI [of _ 2]) (simp add: generated [OF unaudited(2)] recorded [OF unaudited(3)])
next
  case (unrendered err)
  then show ?thesis by (intro exI [of _ 1]) (simp add: generated [OF unrendered(2)])
next
  case (invalid err)
  then show ?thesis by (intro exI [of _ 0]) simp
qed

end

text \<open>Every service can be watched: its world beside the log of the calls made on it.\<close>

definition logging :: "('w \<Rightarrow> 'r \<times> 'w) \<Rightarrow> 'e \<Rightarrow> 'w \<times> 'e list \<Rightarrow> 'r \<times> 'w \<times> 'e list" where
  "logging f e st = (case st of (w, l) \<Rightarrow> case f w of (r, w') \<Rightarrow> (r, w', l @ [e]))"

definition traced :: "('m, 'f, 'h, 'w) service \<Rightarrow> ('m, 'f, 'h, 'w \<times> ('f, 'h) effect list) service" where
  "traced sv = \<lparr>sv_fintech = sv_fintech sv, sv_Record = (\<lambda>a. logging (sv_Record sv a) (Audited a)),
     sv_Insert = (\<lambda>h e. logging (sv_Insert sv h e) (Enqueued h e)),
     sv_SendAsync = (\<lambda>m. logging (sv_SendAsync sv m) (Notified m)),
     sv_Generate = (\<lambda>d. logging (sv_Generate sv d) (Rendered d)), sv_json = sv_json sv, sv_day = sv_day sv,
     sv_now = sv_now sv, sv_audit_id = sv_audit_id sv, sv_event_id = sv_event_id sv\<rparr>"

lemma traced_simps [simp]:
  "sv_fintech (traced sv) = sv_fintech sv" "sv_day (traced sv) = sv_day sv" "sv_now (traced sv) = sv_now sv"
  "invoice_audit_event (traced sv) = invoice_audit_event sv"
  "invoice_outbox_event (traced sv) = invoice_outbox_event sv"
  by (simp_all add: traced_def invoice_audit_event_def invoice_outbox_event_def fun_eq_iff)

lemma log_of_logging: "snd (snd (logging f e st)) = snd st @ [e]"
  by (simp add: logging_def split: prod.splits)

interpretation watched: service_log "traced sv" snd for sv
  by unfold_locales (simp_all add: traced_def log_of_logging)

text \<open>Watching changes nothing.\<close>

lemma traced_calls:
  "sv_Record (traced sv) a (w, l) = (case sv_Record sv a w of (r, w') \<Rightarrow> (r, w', l @ [Audited a]))"
  "sv_Insert (traced sv) h e (w, l) = (case sv_Insert sv h e w of (r, w') \<Rightarrow> (r, w', l @ [Enqueued h e]))"
  "sv_SendAsync (traced sv) m (w, l) = (case sv_SendAsync sv m w of (r, w') \<Rightarrow> (r, w', l @ [Notified m]))"
  "sv_Generate (traced sv) d (w, l) = (case sv_Generate sv d w of (r, w') \<Rightarrow> (r, w', l @ [Rendered d]))"
  by (simp_all add: traced_def logging_def)

lemma traced_process:
  assumes "ProcessInvoice (traced sv) ctx tx req (w, l) = (res, w', l')"
  shows "ProcessInvoice sv ctx tx req w = (res, w')"
  using assms
  by (cases rule: process_cases; cases tx; cases "Tx req")
    (auto simp: ProcessInvoice_def Let_def traced_calls split: prod.splits)


text \<open>A service whose outbox refuses every event when told so, and whose money is an amount of paise.\<close>

definition paise_fintech :: "(int64, int) fintech" where
  "paise_fintech = \<lparr>ValidateGSTIN = (\<lambda>g. if g = [] then Some (Errorf ''empty'') else None), ValidateIFSC = (\<lambda>_. None),
     StateCode = take 2, StateName = (\<lambda>c. c), ExtractPAN = (\<lambda>g. g), ToUpper = (\<lambda>s. s), FormatINR = (\<lambda>p. FormatInt (sint p)),
     InWords = (\<lambda>_. []), FYLabel = ''FY'', zero_money = 0, Add = (+), Mul = (*), Paise = (\<lambda>m. m), NewMoney = (\<lambda>p. p),
     rate_zero = (\<lambda>r. r = 0), rate_pos = (\<lambda>r. r > 0), round_percent = (\<lambda>p r. word_of_int ((sint p * r + 50) div 100))\<rparr>"

definition refusing_service :: "(int64, int, unit, unit) service" where
  "refusing_service = \<lparr>sv_fintech = paise_fintech, sv_Record = (\<lambda>a w. (None, w)),
     sv_Insert = (\<lambda>h e w. (Some (Errorf ''no table''), w)), sv_SendAsync = (\<lambda>m w. (None, w)),
     sv_Generate = (\<lambda>d w. (Inr ''%PDF'', w)), sv_json = (\<lambda>_. Inr ''{}''), sv_day = (\<lambda>_. []),
     sv_now = 9, sv_audit_id = 1, sv_event_id = 2\<rparr>"

definition demo_item :: "(int64, int) InvoiceItem" where
  "demo_item = \<lparr>Index = 0, it_Description = [], HSN = [], Quantity = 3, UnitPrice = 5000, it_TaxableAmount = 0,
     it_CGSTRate = 0, CGSTAmount = 0, it_SGSTRate = 9, SGSTAmount = 0, TotalAmount = 0\<rparr>"

definition demo_invoice :: "(int64, int, unit) InvoiceRequest" where
  "demo_invoice = \<lparr>Tx = Some (), InvoiceNumber = ''INV-1'', SupplierGSTIN = ''27A'', SupplierName = ''S'', BuyerGSTIN = ''06B'',
     BuyerName = ''B'', BuyerEmail = ''b@x'', rq_Description = ''Work'', rq_TaxableAmount = 0, rq_CGSTRate = 9,
     rq_SGSTRate = 9, BankIFSC = ''I'', BankAccount = ''1'', BankName = ''K'', Branch = ''M'',
     Items = [demo_item, demo_item\<lparr>Quantity := 1\<rparr>]\<rparr>"

text \<open>No actor and no comment in the context.\<close>

definition plain_ctx :: audit_ctx where
  "plain_ctx = \<lparr>actor_value = None, comment_value = None\<rparr>"


section \<open>Totals\<close>

text \<open>What the service relies on in \<open>fintech.Money\<close>: addition is associative and commutative with the zero
  value as its unit.\<close>

locale money =
  fixes ft :: "('m, 'f) fintech"
  assumes add_assoc: "Add ft (Add ft a b) c = Add ft a (Add ft b c)"
    and add_commute: "Add ft a b = Add ft b a"
    and add_zero: "Add ft (zero_money ft) a = a"
begin

lemma add_left_commute: "Add ft a (Add ft b c) = Add ft b (Add ft a c)"
  using add_assoc [of a b c] add_assoc [of b a c] add_commute [of a b] by simp

lemmas money_ac = add_assoc add_commute add_left_commute

lemma item_loop_total:
  assumes "list_all (\<lambda>it. money_zero ft (TotalAmount it)) items"
    and "totalMoney ft t = foldl (Add ft) (zero_money ft) (map TotalAmount acc)"
  shows "totalMoney ft (fst (item_loop ft req i items (t, acc)))
    = foldl (Add ft) (zero_money ft) (map TotalAmount (snd (item_loop ft req i items (t, acc))))"
  using assms
proof (induction items arbitrary: i t acc)
  case (Cons item items)
  let ?it = "complete_item ft req i item"
  let ?t = "\<lparr>taxableMoney = Add ft (taxableMoney t) (it_TaxableAmount ?it),
      cgstMoney = Add ft (cgstMoney t) (CGSTAmount ?it), sgstMoney = Add ft (sgstMoney t) (SGSTAmount ?it)\<rparr>"
  have "TotalAmount ?it = Add ft (Add ft (it_TaxableAmount ?it) (CGSTAmount ?it)) (SGSTAmount ?it)"
    using Cons.prems(1) by (simp add: complete_item_def Let_def)
  then have "totalMoney ft ?t = Add ft (totalMoney ft t) (TotalAmount ?it)"
    by (simp add: totalMoney_def money_ac)
  with Cons.prems have "totalMoney ft ?t = foldl (Add ft) (zero_money ft) (map TotalAmount (acc @ [?it]))" by simp
  from Cons.IH [OF _ this, of "Suc i"] Cons.prems(1) show ?case by (simp add: Let_def)
qed simp

lemma invoice_total:
  assumes "list_all (\<lambda>it. money_zero ft (TotalAmount it)) (Items req)"
  shows "totalMoney ft (fst (invoice_lines ft req))
    = foldl (Add ft) (zero_money ft) (map TotalAmount (snd (invoice_lines ft req)))"
proof (cases "Items req = []")
  case True
  then show ?thesis by (simp add: invoice_lines_def Let_def totalMoney_def add_zero)
next
  case False
  with item_loop_total [OF assms, of "\<lparr>taxableMoney = zero_money ft, cgstMoney = zero_money ft, sgstMoney = zero_money ft\<rparr>" "[]"]
  show ?thesis by (simp add: invoice_lines_def totalMoney_def add_zero)
qed

end

interpretation paise: money paise_fintech
  by unfold_locales (simp_all add: paise_fintech_def algebra_simps)



end
