(* ===== verification/Invoice_System.thy ===== *)
theory Invoice_System
  imports Invoice_Theorems Outbox_Store Notif_Broker Pdf Audit_Recorder
begin

text \<open>
  \<open>NewInvoiceService\<close> of \<^verbatim>\<open>examples/invoice_service/service.go\<close>: the reference service on the models of
  the packages it is built from, the audit recorder, the PostgreSQL outbox store, the notification broker
  and the PDF generator, and what an invoice leaves in each of them.
\<close>

section \<open>The service on its packages\<close>

record ('h, 'w) InvoiceService =
  auditRecorder :: Audit_Recorder.pgRecorder
  outboxStore :: "'h pgStore"
  notificationBroker :: "'w defaultBroker"
  pdfOpts :: "Pdf.Option list"

definition NewInvoiceService ::
  "Audit_Recorder.pgRecorder \<Rightarrow> 'h pgStore \<Rightarrow> 'w defaultBroker \<Rightarrow> Pdf.Option list \<Rightarrow> ('h, 'w) InvoiceService" where
  "NewInvoiceService ar os nb opts =
     \<lparr>auditRecorder = ar, outboxStore = os, notificationBroker = nb, pdfOpts = opts\<rparr>"

text \<open>The state the packages act on: the audit database, the outbox table as each operator sees it, the
  broker's pool, and the renderers.\<close>

record ('a, 'h, 'p) app_world =
  aw_audit :: 'a
  aw_views :: "'h \<Rightarrow> outbox_table"
  aw_pool :: 'p
  aw_pdf :: pdf_store

text \<open>What surrounds a call: the database's reply to the \<open>INSERT\<close>, the audit database, the pool, the
  context, the renderer and the template engine, the encoder, the clock and the UUIDs.\<close>

record ('m, 'f, 'a, 'p) app_env =
  ae_fintech :: "('m, 'f) fintech"
  ae_audit :: "inv_value audit_env"
  ae_Exec :: "'a Audit_Recorder.db_exec"
  ae_fault :: db_fault
  ae_submit :: "'p submit"
  ae_ctx :: context_state
  ae_render :: render_env
  ae_parse :: "string \<Rightarrow> goerr + ('f tval \<Rightarrow> goerr + string)"
  ae_template :: string
  ae_json :: "(string \<times> inv_value) list \<Rightarrow> goerr + string"
  ae_day :: "gotime \<Rightarrow> string"
  ae_now :: gotime
  ae_ids :: "uuid \<times> uuid"

definition app_record ::
  "('m, 'f, 'a, 'p) app_env \<Rightarrow> Audit_Recorder.pgRecorder \<Rightarrow> inv_value Event \<Rightarrow> ('a, 'h, 'p) app_world
    \<Rightarrow> goerr option \<times> ('a, 'h, 'p) app_world" where
  "app_record env r event w =
     (case Record (ae_audit env) (ae_Exec env) r event (aw_audit w) of (e, a) \<Rightarrow> (e, w\<lparr>aw_audit := a\<rparr>))"

definition app_insert ::
  "('m, 'f, 'a, 'p) app_env \<Rightarrow> 'h pgStore \<Rightarrow> 'h option \<Rightarrow> OutboxEvent \<Rightarrow> ('a, 'h, 'p) app_world
    \<Rightarrow> goerr option \<times> ('a, 'h, 'p) app_world" where
  "app_insert env s op event w =
     (case Insert s (ae_fault env) (ae_now env) op event (aw_views w) of (e, vs) \<Rightarrow> (e, w\<lparr>aw_views := vs\<rparr>))"

definition app_notify ::
  "('m, 'f, 'a, 'p) app_env \<Rightarrow> 'w defaultBroker \<Rightarrow> Message \<Rightarrow> ('a, 'h, 'p) app_world
    \<Rightarrow> goerr option \<times> ('a, 'h, 'p) app_world" where
  "app_notify env b msg w =
     (case SendAsync (ae_submit env) (ae_ctx env) b msg (aw_pool w) of (e, p) \<Rightarrow> (e, w\<lparr>aw_pool := p\<rparr>))"

definition app_generate ::
  "('m, 'f, 'a, 'p) app_env \<Rightarrow> Pdf.Option list \<Rightarrow> 'f tval \<Rightarrow> ('a, 'h, 'p) app_world
    \<Rightarrow> (goerr + string) \<times> ('a, 'h, 'p) app_world" where
  "app_generate env opts d w =
     (case GenerateFromTemplate (ae_render env) (ae_parse env) (ae_template env) d opts (aw_pdf w) of
        (r, s) \<Rightarrow> (r, w\<lparr>aw_pdf := s\<rparr>))"

definition app_service ::
  "('m, 'f, 'a, 'p) app_env \<Rightarrow> ('h, 'w) InvoiceService \<Rightarrow> ('m, 'f, 'h, ('a, 'h, 'p) app_world) service" where
  "app_service env svc =
     \<lparr>sv_fintech = ae_fintech env, sv_Record = app_record env (auditRecorder svc),
      sv_Insert = app_insert env (outboxStore svc), sv_SendAsync = app_notify env (notificationBroker svc),
      sv_Generate = app_generate env (pdfOpts svc), sv_json = ae_json env, sv_day = ae_day env,
      sv_now = ae_now env, sv_audit_id = fst (ae_ids env), sv_event_id = snd (ae_ids env)\<rparr>"

lemmas app_defs = app_record_def app_insert_def app_notify_def app_generate_def

lemma app_service_simps [simp]:
  "sv_fintech (app_service env svc) = ae_fintech env"
  "sv_Record (app_service env svc) = app_record env (auditRecorder svc)"
  "sv_Insert (app_service env svc) = app_insert env (outboxStore svc)"
  "sv_SendAsync (app_service env svc) = app_notify env (notificationBroker svc)"
  "sv_Generate (app_service env svc) = app_generate env (pdfOpts svc)"
  "sv_json (app_service env svc) = ae_json env" "sv_now (app_service env svc) = ae_now env"
  by (simp_all add: app_service_def)

section \<open>What each call leaves alone\<close>

lemma app_record_frame:
  "app_record env r ev w = (e, w') \<Longrightarrow> aw_views w' = aw_views w \<and> aw_pool w' = aw_pool w"
  by (auto simp: app_defs split: prod.splits)

lemma app_generate_frame:
  "app_generate env opts d w = (r, w') \<Longrightarrow>
     aw_views w' = aw_views w \<and> aw_pool w' = aw_pool w \<and> aw_audit w' = aw_audit w"
  by (auto simp: app_defs split: prod.splits)

lemma app_insert_frame:
  "app_insert env s op ev w = (e, w') \<Longrightarrow> aw_pool w' = aw_pool w \<and> aw_audit w' = aw_audit w"
  by (auto simp: app_defs split: prod.splits)

lemma app_notify_frame:
  "app_notify env b msg w = (e, w') \<Longrightarrow> aw_views w' = aw_views w \<and> aw_audit w' = aw_audit w"
  by (auto simp: app_defs split: prod.splits)

text \<open>A statement whose reply arrives has no effect when it fails.\<close>

definition reply_arrives :: "db_fault \<Rightarrow> bool" where
  "reply_arrives fault \<longleftrightarrow> (case fault of DbReplyLost _ \<Rightarrow> False | _ \<Rightarrow> True)"

lemma Insert_fails:
  assumes "Insert s fault now op ev views = (Some err, views')" and "reply_arrives fault"
  shows "views' = views"
  using assms
  by (auto simp: Insert_def Let_def db_exec_def reply_arrives_def split: option.splits db_fault.splits sum.splits)

text \<open>A recorded event reached the database with its action and entity.\<close>

lemma Record_ok:
  assumes "Record env Exec r event h = (None, h')"
  shows "\<exists>query args. Exec query args h = (None, h') \<and> args ! 6 = SqlText (Action event)
    \<and> args ! 8 = SqlText (Event.EntityID event)"
  using assms
  by (fastforce simp: Record_def Let_def audit_args_def complete_event_def split: sum.splits prod.splits option.splits if_splits)

text \<open>The row of an invoice's event.\<close>

definition invoice_row ::
  "('m, 'f, 'a, 'p) app_env \<Rightarrow> ('m, 'f, 'h) InvoiceRequest \<Rightarrow> string \<Rightarrow> outbox_row" where
  "invoice_row env req data =
     \<lparr>row_id = snd (ae_ids env), row_aggregate_type = ''Invoice'', row_aggregate_id = InvoiceNumber req,
      row_event_type = ''InvoiceIssued'', row_payload = data, row_status = StatusPending, row_retry_count = 0,
      row_max_retries = 5, row_last_error = None, row_scheduled_at = ae_now env, row_next_retry_at = ae_now env,
      row_locked_until = None, row_lease_token = None, row_published_at = None, row_created_at = ae_now env\<rparr>"

lemma invoice_row_of_event:
  assumes "invoice_outbox_event (app_service env svc) req = Inr evt"
  shows "\<exists>data. ae_json env (event_payload (ae_fintech env) req) = Inr data
    \<and> insert_row (ae_now env) evt = invoice_row env req data"
  using assms
  by (auto simp: invoice_outbox_event_def Outbox_Event.NewEvent_def insert_row_def invoice_row_def app_service_def Let_def
      split: sum.splits)

lemma invoice_row_fetchable: "ae_now env \<le> n \<Longrightarrow> fetchable n (invoice_row env req data)"
  by (simp add: fetchable_def invoice_row_def StatusPending_def)

lemma invoice_audit_event_fields:
  "Action (invoice_audit_event sv ctx req) = ''INVOICE_GENERATED''"
  "Event.EntityID (invoice_audit_event sv ctx req) = InvoiceNumber req"
  by (simp_all add: invoice_audit_event_def Audit_Event.NewEvent_def Let_def)

section \<open>What an invoice leaves behind\<close>

text \<open>The operator an invoice's event is inserted through.\<close>

definition invoice_operator :: "'h pgStore \<Rightarrow> 'h option \<Rightarrow> ('m, 'f, 'h) InvoiceRequest \<Rightarrow> 'h" where
  "invoice_operator s tx req =
     (case (if tx = None then Tx req else tx) of None \<Rightarrow> db s | Some h \<Rightarrow> h)"


section \<open>A run\<close>

text \<open>An audit database that counts its statements, a pool that keeps what it is given, and a renderer that
  makes the same document for every page.\<close>

definition issue_env :: "db_fault \<Rightarrow> (int64, int, nat, Message list) app_env" where
  "issue_env fault = \<lparr>ae_fintech = paise_fintech,
     ae_audit = \<lparr>marshal_state = (\<lambda>_. Inr ''{}''), marshal_diff = (\<lambda>_. Inr ''{}''), marshal_meta = (\<lambda>_. Inr ''{}''),
       new_uuid = 3, time_now = 9\<rparr>,
     ae_Exec = (\<lambda>query args n. (None, Suc n)), ae_fault = fault, ae_submit = (\<lambda>m p. (None, p @ [m])), ae_ctx = background,
     ae_render = \<lparr>re_Render = (\<lambda>_ _ _ s. (Inr ''%PDF'', s)), re_Custom = (\<lambda>_ _ _. Inr ''%PDF'')\<rparr>,
     ae_parse = (\<lambda>_. Inr (\<lambda>_. Inr ''page'')), ae_template = [], ae_json = (\<lambda>_. Inr ''{}''), ae_day = (\<lambda>_. []),
     ae_now = 9, ae_ids = (1, 2)\<rparr>"

definition issue_service :: "(unit, unit) InvoiceService" where
  "issue_service = NewInvoiceService
     \<lparr>queueFullPolicy = PolicyBlock, tableName = ''audit_logs'', insertQuery = ''INSERT'', initErr = None,
      syncFallbackTimeout = 1\<rparr> (NewPGStore () []) (NewBroker DefaultConfig) []"

definition issue_world :: "(nat, unit, Message list) app_world" where
  "issue_world = \<lparr>aw_audit = 0, aw_views = (\<lambda>_. []), aw_pool = [], aw_pdf = initial_store\<rparr>"

lemma issue_guard: "store_guard (NewPGStore () []) = None"
  by code_simp

lemma issue_calls:
  "app_generate (issue_env fault) (pdfOpts issue_service) d w = (Inr ''%PDF'', w)"
  "app_record (issue_env fault) (auditRecorder issue_service) ev w = (None, w\<lparr>aw_audit := Suc (aw_audit w)\<rparr>)"
  by (simp_all add: app_defs issue_env_def issue_service_def NewInvoiceService_def GenerateFromTemplate_def RenderTemplate_def
      Generate_def config_of_def DefaultOptions_def select_renderer_def DefaultMaxConcurrency_def Record_def marshal_opt_def
      Let_def split: option.split)

lemma issue_valid: "validate_request (ae_fintech (issue_env fault)) demo_invoice = None"
  by (simp add: validate_request_def issue_env_def paise_fintech_def demo_invoice_def)

lemma issue_event: "\<exists>evt. invoice_outbox_event (app_service (issue_env fault) svc) demo_invoice = Inr evt"
  by (simp add: invoice_outbox_event_def app_service_def issue_env_def Outbox_Event.NewEvent_def Let_def)

lemma issue_inserted:
  assumes "aw_views w = (\<lambda>_. [])"
  shows "\<exists>vs. app_insert (issue_env DbOk) (outboxStore issue_service) h evt w = (None, w\<lparr>aw_views := vs\<rparr>)"
proof -
  have "app_insert (issue_env DbOk) (outboxStore issue_service) h evt w
      = (None, w\<lparr>aw_views := (\<lambda>_. [])(() := [insert_row 9 evt])\<rparr>)"
    using issue_guard assms
    by (simp add: app_defs issue_env_def issue_service_def NewInvoiceService_def Insert_def db_exec_def sql_insert_def Let_def)
  then show ?thesis by blast
qed

lemma issue_rejected:
  "app_insert (issue_env (DbRejected err)) (outboxStore issue_service) h evt w
    = (Some (Wrapf ''failed to insert outbox event: '' err []), w)"
  using issue_guard
  by (simp add: app_defs issue_env_def issue_service_def NewInvoiceService_def Insert_def db_exec_def Let_def)

text \<open>The audit trail can hold an invoice that was never issued: it is written before the insert that fails.\<close>

lemma invoice_audited_but_not_issued:
  "\<exists>w'. ProcessInvoice (app_service (issue_env (DbRejected err)) issue_service) plain_ctx None demo_invoice issue_world
      = (Inl (Wrapf ''outbox insert failed: '' (Wrapf ''failed to insert outbox event: '' err []) []), w')
    \<and> aw_views w' = aw_views issue_world \<and> aw_audit w' = Suc (aw_audit issue_world)"
  using issue_event [of "DbRejected err" issue_service]
  by (auto simp: ProcessInvoice_def Let_def issue_valid issue_calls issue_rejected)


end
