(* ===== verification/Spec2Isabelle.thy ===== *)
theory Spec2Isabelle
  imports Relay_Start Outbox_Values Export_Theorems Webhook_Theorems Email_Theorems Broker_Theorems
    Sender_Theorems Audit_System Pdf_Theorems Invoice_System
begin

text \<open>
  A model of go-app-kit, a Go library of five packages for business applications, with the theorems that
  make it correct.  The packages are a transactional outbox on PostgreSQL (\<^verbatim>\<open>src/outbox\<close>), CSV export
  (\<^verbatim>\<open>src/export\<close>), notifications (\<^verbatim>\<open>src/notifications\<close>), audit trails (\<^verbatim>\<open>src/audit\<close>) and PDF
  documents (\<^verbatim>\<open>src/pdf\<close>); the reference service in \<^verbatim>\<open>src/examples/invoice_service\<close> uses them together.

  \<^bold>\<open>How the code is modelled.\<close>
  \<^item> A struct is a record, a set of constants or a tagged union a datatype, a function of the code one
    definition with its guards and early returns as branches, under the code's name where HOL allows it
    (\<open>broker_Send\<close>, \<open>webhook_Send\<close> tell apart what Go tells apart by the receiver).
  \<^item> A Go string or byte slice is the HOL string of its bytes; an \<open>int64\<close> or \<open>time.Duration\<close> is a 64-bit
    word read as signed; an instant is the number of nanoseconds since the zero time (\<open>Prelude\<close>).
  \<^item> An error is a value of \<open>goerr\<close>, a tree of wrapped and joined errors over named sentinels, with
    \<open>errors.Is\<close> and \<open>Error()\<close> as functions on it; nil is \<open>None\<close> (\<open>Go_Errors\<close>).
  \<^item> Effects are passed as state; what code outside the repository decides (database replies, clocks,
    random numbers, UUIDs, map iteration orders, HTTP answers, the worker pool) is an argument, and what is
    relied on there is the assumption of a locale.
  \<^item> Concurrency is an inductive step relation whose steps are the operations or the parts of them between
    two accesses of shared state.

  \<^bold>\<open>The Go library.\<close>  \<open>Go_Strings\<close> (UTF-8, trimming, splitting), \<open>Go_Time\<close> (\<open>ParseInt\<close>, \<open>FormatInt\<close>,
  Unix time, RFC 3339), \<open>Go_Hash\<close> (SHA-256, HMAC, hexadecimal), \<open>Go_Mime\<close> (base64, encoded words, quoting),
  \<open>Go_ParseFloat\<close> (which texts are numbers), \<open>Go_Csv\<close> (buffered writer and \<open>encoding/csv\<close>, with a reference
  reader) define the parts of Go's library the code uses, and prove the round trips the properties need.

  \<^bold>\<open>Outbox.\<close>  \<open>Outbox_Event\<close> and \<open>Outbox_Retry\<close> are \<^verbatim>\<open>event.go\<close> and \<^verbatim>\<open>retry.go\<close>; the 64-bit backoff is proved
  equal to its capped exponential specification.  \<open>Table_Name\<close> is the identifier pattern as an automaton,
  proved equal to the pattern's language.  \<open>Outbox_Store\<close> is \<^verbatim>\<open>store.go\<close>: each SQL statement a function on
  the rows of the table, with the failures of a database (rejected, or applied with the reply lost).
  \<open>Outbox_System\<close> and \<open>Outbox_Theorems\<close> are the step relation of any number of writers and workers on one
  table: a refinement of the event state machine of the decision record, well-formed rows, fencing by lease
  tokens, exclusive live leases, final terminal states, recovery of expired leases, no lost event.
  \<open>Outbox_Relay\<close> is \<^verbatim>\<open>relay.go\<close> over interfaces; the locale \<open>outbox_relay\<close> states the contract of store,
  publisher, clock and context, and \<open>Relay_Postgres\<close> interprets it on the store above (\<open>pg\<close>).
  \<open>Relay_Progress\<close> and \<open>Relay_Theorems\<close> show that a batch is a run of that system, that the drain loop ends
  (a \<open>partial_function\<close>; the measure is the retry budget of the table), what a failed delivery does, and that
  attempts stay within their limit.  \<open>Relay_Start\<close> is \<open>Start\<close>: any number of workers as program points whose
  steps interleave; nothing is published that was not delivered, \<open>Start\<close> joins its workers, and cancellation
  ends them promptly; \<open>relay_steps_run_worker\<close> ties the steps to the code of \<open>runWorker\<close>.
  \<open>Outbox_Values\<close> holds the properties of values: backoff, error marking, options, insert and fetch.

  \<^bold>\<open>Export.\<close>  \<open>Export_Csv\<close> is \<^verbatim>\<open>csv.go\<close> and \<^verbatim>\<open>http.go\<close>.  \<open>Export_Theorems\<close>: a sanitised cell is inert in a
  spreadsheet, what a failing sink received is a beginning of the document, and reading the document
  gives the cells back.

  \<^bold>\<open>Notifications.\<close>  \<open>Notif_Types\<close> (\<^verbatim>\<open>types.go\<close>, HTTP and JSON), \<open>Notif_Webhook\<close>, \<open>Notif_Email\<close>, \<open>Notif_Http\<close>
  (\<^verbatim>\<open>slack.go\<close>, \<^verbatim>\<open>whatsapp.go\<close>, \<^verbatim>\<open>sms.go\<close>, \<^verbatim>\<open>brevo.go\<close>) and \<open>Notif_Broker\<close> (\<^verbatim>\<open>broker.go\<close>).
  \<open>Sender_Contract\<close> states what a sender owes its broker (locales \<open>sender\<close>, \<open>http_client\<close>, \<open>mailer\<close>) and
  interprets it on every sender of the package.  \<open>Webhook_Theorems\<close>: when exactly a request verifies, and
  that every request sent does; \<open>Email_Theorems\<close>: no header injection, base64 bodies; \<open>Sender_Theorems\<close>:
  payloads and forms; \<open>Broker_Theorems\<close>: every channel is tried, and what \<open>Close\<close> does to queued messages.

  \<^bold>\<open>Audit.\<close>  \<open>Audit_Event\<close> and \<open>Audit_Recorder\<close> are \<^verbatim>\<open>audit.go\<close>.  \<open>Audit_Theorems\<close>: the difference of two states
  replays the change whatever the iteration order of the maps, a built recorder is ready, no event is
  dropped in silence (locale \<open>work_queue\<close>, the pool).  \<open>Audit_System\<close>: with calls, tasks and \<open>Close\<close> in any
  order, an accepted event is recorded exactly once.

  \<^bold>\<open>PDF.\<close>  \<open>Pdf\<close> is \<^verbatim>\<open>pdf.go\<close>: options, renderers and semaphores as shared objects in a store, and concurrent
  calls.  \<open>Pdf_Theorems\<close>: renderings never exceed the capacity of their semaphore, and a limit of one's own
  is not shared between calls.

  \<^bold>\<open>Invoice service.\<close>  \<open>Invoice_Service\<close> is \<open>ProcessInvoice\<close> on any packages; \<open>Invoice_Theorems\<close> shows the order of
  its effects (locale \<open>service_log\<close>, interpreted on every service that is watched) and its totals (locale
  \<open>money\<close>).  \<open>Invoice_System\<close> builds it from the recorder, store, broker and generator above, and shows what an
  invoice leaves in each of them.

  \<^bold>\<open>Bounds.\<close>  No definition of the code has fuel: recursion is structural or by a measure, and \<open>drain\<close>, the only
  loop that could run for ever, is an option-valued partial function proved to return.  The reference CSV
  reader of \<open>Go_Csv\<close> takes the length of its text plus one as fuel; each field and each record uses up at
  least one character, and the round trip shows that it returns.  Lists stand for tables, queues and worker
  sets of any size.

  \<^bold>\<open>Not modelled.\<close>  Log lines.  The HTML of the PDF templates (\<^verbatim>\<open>templates.go\<close> only embeds two files), the SQL
  schemas beyond columns and keys, scripts and documentation.  The libraries outside the
  repository: the database driver, the worker pool, \<open>go-fintech-india\<close> (validation, money, formatting), the
  template engine, wkhtmltopdf, SMTP and HTTP transport; they are parameters.  Goroutine panics other than those of a
  publisher and of a relay worker.  JSON text where the code only passes it on: it is a tree or the result of
  an encoder.  Float arithmetic: rates of an invoice are an abstract type.
\<close>

end
